theory Spec2Isabelle
  imports Complex_Main "HOL-Library.Word" "HOL-Library.AList" "HOL-Library.Sublist"
    "HOL-Library.Multiset"
begin

unbundle bit_operations_syntax

section \<open>JavaScript numbers\<close>

text \<open>
  A JavaScript number is an IEEE 754 binary64 value: a finite value (a rational here),
  negative zero, an infinity or \<open>NaN\<close>. \<open>Finite 0\<close> is positive zero. An arithmetic
  operation rounds its exact result to the nearest representable value, ties to the even
  significand; \<open>to_double\<close> is that rounding.
\<close>

datatype number = Finite rat | NegZero | PosInfinity | NegInfinity | NaN

text \<open>Powers with an integer exponent, by repeated squaring.\<close>

function ipow :: "rat \<Rightarrow> int \<Rightarrow> rat" where
  "ipow b n =
     (if n \<le> 0 then 1
      else if n mod 2 = 0 then (let h = ipow b (n div 2) in h * h)
      else b * ipow b (n - 1))"
  by pat_completeness auto
termination
  by (relation "measure (\<lambda>(b, n). nat n)") auto

declare ipow.simps [simp del]

definition pow :: "nat \<Rightarrow> int \<Rightarrow> rat" where
  "pow b e = (if 0 \<le> e then ipow (of_nat b) e else 1 / ipow (of_nat b) (- e))"

text \<open>
  \<open>ilog b x\<close> is the integer part of the logarithm of a positive \<open>x\<close> to base \<open>b\<close>
  (rounded down); \<open>flog\<close> is the same for an integer \<open>n \<ge> 1\<close>.
\<close>

function flog :: "int \<Rightarrow> int \<Rightarrow> int" where
  "flog b n = (if n < b \<or> b < 2 then 0 else 1 + flog b (n div b))"
  by pat_completeness auto
termination
  by (relation "measure (\<lambda>(b, n). nat n)") (auto intro: int_div_less_self)

declare flog.simps [simp del]

definition ilog :: "nat \<Rightarrow> rat \<Rightarrow> int" where
  "ilog b x =
     (let (p, q) = quotient_of x
      in if q \<le> p then flog (int b) (p div q)
         else (let t = flog (int b) (q div p)
               in if of_int p * pow b t = of_int q then - t else - t - 1))"

definition round_half_even :: "rat \<Rightarrow> int" where
  "round_half_even r =
     (let f = \<lfloor>r\<rfloor>; d = r - of_int f
      in if d < 1 / 2 then f else if 1 / 2 < d then f + 1 else if even f then f else f + 1)"

text \<open>
  The spacing of the representable values around \<open>x\<close> is \<open>2^e\<close> with \<open>e\<close> the
  exponent of \<open>x\<close> less 52, and never below \<open>2^-1074\<close> (subnormal values); a rounded
  magnitude of \<open>2^1024\<close> or more is an infinity. Every integer up to \<open>2^53\<close> is
  representable.
\<close>

definition is_integer :: "rat \<Rightarrow> bool" where
  "is_integer x = (of_int \<lfloor>x\<rfloor> = x)"

definition to_double :: "rat \<Rightarrow> number" where
  "to_double x =
     (if is_integer x \<and> \<bar>x\<bar> \<le> 9007199254740992 then Finite x
      else (let a = \<bar>x\<bar>;
                e = max (ilog 2 a - 52) (- 1074);
                y = of_int (round_half_even (a / pow 2 e)) * pow 2 e
            in if y = 0 then (if x < 0 then NegZero else Finite 0)
               else if 1024 \<le> ilog 2 y then (if x < 0 then NegInfinity else PosInfinity)
               else Finite (if x < 0 then - y else y)))"

definition num_of_int :: "int \<Rightarrow> number" where
  "num_of_int n = to_double (of_int n)"

fun finite_number :: "number \<Rightarrow> bool" where
  "finite_number (Finite q) = True"
| "finite_number NegZero = True"
| "finite_number n = False"

fun value_of :: "number \<Rightarrow> rat" where
  "value_of (Finite q) = q"
| "value_of n = 0"

text \<open>The sign bit.\<close>

fun negative :: "number \<Rightarrow> bool" where
  "negative (Finite q) = (q < 0)"
| "negative NegZero = True"
| "negative NegInfinity = True"
| "negative n = False"

fun num_neg :: "number \<Rightarrow> number" where
  "num_neg (Finite q) = (if q = 0 then NegZero else Finite (- q))"
| "num_neg NegZero = Finite 0"
| "num_neg PosInfinity = NegInfinity"
| "num_neg NegInfinity = PosInfinity"
| "num_neg NaN = NaN"

definition signed :: "bool \<Rightarrow> number \<Rightarrow> number" where
  "signed neg n = (if neg then num_neg n else n)"

text \<open>\<open>a + b\<close>, \<open>a - b\<close>, \<open>a * b\<close>, \<open>a / b\<close>.\<close>

definition num_add :: "number \<Rightarrow> number \<Rightarrow> number" where
  "num_add a b =
     (if a = NaN \<or> b = NaN then NaN
      else if \<not> finite_number a then (if finite_number b \<or> a = b then a else NaN)
      else if \<not> finite_number b then b
      else (let s = value_of a + value_of b
            in if s = 0 then (if negative a \<and> negative b then NegZero else Finite 0)
               else to_double s))"

definition num_sub :: "number \<Rightarrow> number \<Rightarrow> number" where
  "num_sub a b = num_add a (num_neg b)"

definition num_mul :: "number \<Rightarrow> number \<Rightarrow> number" where
  "num_mul a b =
     (if a = NaN \<or> b = NaN then NaN
      else (let neg = (negative a \<noteq> negative b)
            in if \<not> finite_number a \<or> \<not> finite_number b
               then (if (finite_number a \<and> value_of a = 0) \<or> (finite_number b \<and> value_of b = 0)
                     then NaN else signed neg PosInfinity)
               else signed neg (to_double (\<bar>value_of a\<bar> * \<bar>value_of b\<bar>))))"

definition num_div :: "number \<Rightarrow> number \<Rightarrow> number" where
  "num_div a b =
     (if a = NaN \<or> b = NaN then NaN
      else (let neg = (negative a \<noteq> negative b)
            in if \<not> finite_number a then (if finite_number b then signed neg PosInfinity else NaN)
               else if \<not> finite_number b then signed neg (Finite 0)
               else if value_of b = 0
               then (if value_of a = 0 then NaN else signed neg PosInfinity)
               else signed neg (to_double (\<bar>value_of a\<bar> / \<bar>value_of b\<bar>))))"

text \<open>\<open>Math.abs(a)\<close> and \<open>a < b\<close> (false when either side is \<open>NaN\<close>).\<close>

fun num_abs :: "number \<Rightarrow> number" where
  "num_abs (Finite q) = Finite \<bar>q\<bar>"
| "num_abs NegZero = Finite 0"
| "num_abs PosInfinity = PosInfinity"
| "num_abs NegInfinity = PosInfinity"
| "num_abs NaN = NaN"

definition num_less :: "number \<Rightarrow> number \<Rightarrow> bool" where
  "num_less a b =
     (if a = NaN \<or> b = NaN then False
      else if a = PosInfinity \<or> b = NegInfinity then False
      else if a = NegInfinity \<or> b = PosInfinity then True
      else value_of a < value_of b)"

text \<open>
  \<open>Math.round(a)\<close>: the integer nearest to \<open>a\<close>, a half going up; a result of zero
  keeps the sign of \<open>a\<close>.
\<close>

fun Math_round :: "number \<Rightarrow> number" where
  "Math_round (Finite q) =
     (let r = \<lfloor>q + 1 / 2\<rfloor> in if r = 0 \<and> q < 0 then NegZero else Finite (of_int r))"
| "Math_round n = n"

text \<open>\<open>Math.floor(a)\<close>.\<close>

fun Math_floor :: "number \<Rightarrow> number" where
  "Math_floor (Finite q) = Finite (of_int \<lfloor>q\<rfloor>)"
| "Math_floor n = n"

text \<open>Truthiness of a number: zero and \<open>NaN\<close> are falsy.\<close>

fun truthy_number :: "number \<Rightarrow> bool" where
  "truthy_number (Finite q) = (q \<noteq> 0)"
| "truthy_number NegZero = False"
| "truthy_number NaN = False"
| "truthy_number n = True"

text \<open>\<open>ToInt32\<close> and \<open>ToUint32\<close>: the integer part modulo \<open>2^32\<close>.\<close>

fun to_int32 :: "number \<Rightarrow> 32 word" where
  "to_int32 (Finite q) = word_of_int (if 0 \<le> q then \<lfloor>q\<rfloor> else - \<lfloor>- q\<rfloor>)"
| "to_int32 n = 0"

subsection \<open>Decimal numerals\<close>

definition digit_char :: "nat \<Rightarrow> char" where
  "digit_char d = ''0123456789'' ! (d mod 10)"

text \<open>The decimal digits of an integer \<open>n \<ge> 0\<close>.\<close>

function digits :: "int \<Rightarrow> string" where
  "digits n = (if n < 10 then [digit_char (nat n)] else digits (n div 10) @ [digit_char (nat (n mod 10))])"
  by pat_completeness auto
termination
  by (relation "measure nat") auto

declare digits.simps [simp del]

definition show_nat :: "nat \<Rightarrow> string" where
  "show_nat n = digits (int n)"

subsection \<open>\<open>Number::toString\<close>\<close>

text \<open>
  The text of a positive finite number \<open>x\<close> is made of the digits of the integer \<open>s\<close> and
  the exponent \<open>n\<close> found as the language definition says: \<open>k \<ge> 1\<close> as small as
  possible with \<open>10^(k-1) \<le> s < 10^k\<close> and \<open>s * 10^(n-k)\<close> rounding to \<open>x\<close>; among
  several such \<open>s\<close> the one nearest to \<open>x\<close>. Seventeen digits are always enough. For
  an integer below \<open>2^53\<close> the outcome is the integer's own digits.
\<close>

definition decimal :: "nat \<Rightarrow> int \<Rightarrow> int \<Rightarrow> rat" where
  "decimal k n s = of_int s * pow 10 (n - int k)"

definition candidates :: "rat \<Rightarrow> nat \<Rightarrow> (int \<times> int) list" where
  "candidates x k =
     (let n0 = ilog 10 x + 1
      in filter (\<lambda>(n, s). pow 10 (int k - 1) \<le> of_int s \<and> of_int s < pow 10 (int k) \<and> to_double (decimal k n s) = Finite x)
           (concat (map (\<lambda>n. let t = \<lfloor>x / pow 10 (n - int k)\<rfloor> in [(n, t), (n, t + 1)])
                        [n0, n0 + 1])))"

fun nearest :: "rat \<Rightarrow> nat \<Rightarrow> (int \<times> int) \<Rightarrow> (int \<times> int) list \<Rightarrow> int \<times> int" where
  "nearest x k best [] = best"
| "nearest x k best (c # cs) =
     (let db = \<bar>decimal k (fst best) (snd best) - x\<bar>;
          dc = \<bar>decimal k (fst c) (snd c) - x\<bar>
      in nearest x k (if dc < db \<or> (dc = db \<and> even (snd c) \<and> odd (snd best)) then c else best) cs)"

fun shortest :: "rat \<Rightarrow> nat \<Rightarrow> nat \<Rightarrow> (nat \<times> int \<times> int) option" where
  "shortest x 0 k = None"
| "shortest x (Suc fuel) k =
     (case candidates x k of
        [] \<Rightarrow> shortest x fuel (Suc k)
      | c # cs \<Rightarrow> Some (k, nearest x k c cs))"

definition zeros :: "nat \<Rightarrow> string" where
  "zeros n = replicate n CHR ''0''"

definition positive_text :: "rat \<Rightarrow> string" where
  "positive_text x =
     (if is_integer x \<and> x < 9007199254740992 then digits \<lfloor>x\<rfloor>
      else case shortest x 17 1 of
        None \<Rightarrow> ''NaN''
      | Some (k, n, s) \<Rightarrow>
          (let ds = digits s
           in if int k \<le> n \<and> n \<le> 21 then ds @ zeros (nat (n - int k))
              else if 0 < n \<and> n \<le> 21 then take (nat n) ds @ ''.'' @ drop (nat n) ds
              else if - 6 < n \<and> n \<le> 0 then ''0.'' @ zeros (nat (- n)) @ ds
              else (let e = n - 1;
                        ex = (if 0 \<le> e then ''+'' else ''-'') @ digits \<bar>e\<bar>
                    in if k = 1 then ds @ ''e'' @ ex
                       else take 1 ds @ ''.'' @ drop 1 ds @ ''e'' @ ex)))"

fun Number_toString :: "number \<Rightarrow> string" where
  "Number_toString (Finite q) =
     (if q = 0 then ''0''
      else if q < 0 then ''-'' @ positive_text (- q)
      else positive_text q)"
| "Number_toString NegZero = ''0''"
| "Number_toString PosInfinity = ''Infinity''"
| "Number_toString NegInfinity = ''-Infinity''"
| "Number_toString NaN = ''NaN''"

section \<open>JSON values\<close>

text \<open>
  Payloads are whatever \<open>JSON.parse\<close> returned. An object keeps its keys in
  enumeration order; \<open>undefined\<close> is the absence of a value (\<open>None\<close> of
  \<open>json option\<close>). \<open>JNum n\<close> is a number written with the integer value \<open>n\<close>; as a
  JavaScript number it is \<open>num_of_int n\<close>, the nearest representable value. A string is
  the sequence of the bytes of its UTF-8 form.
\<close>

datatype json =
    JNull
  | JBool bool
  | JNum int
  | JStr string
  | JArr "json list"
  | JObj "(string \<times> json) list"

text \<open>JavaScript truthiness, as in \<open>if (x)\<close>, \<open>x ? a : b\<close> and \<open>!x\<close>.\<close>

fun truthy :: "json \<Rightarrow> bool" where
  "truthy JNull = False"
| "truthy (JBool b) = b"
| "truthy (JNum n) = (n \<noteq> 0)"
| "truthy (JStr s) = (s \<noteq> [])"
| "truthy (JArr xs) = True"
| "truthy (JObj kvs) = True"

definition truthy_opt :: "json option \<Rightarrow> bool" where
  "truthy_opt v = (case v of None \<Rightarrow> False | Some j \<Rightarrow> truthy j)"

text \<open>
  Property read \<open>o.k\<close> on a parsed value that is not \<open>null\<close>, for the property names the
  program reads: objects answer with their entry, every other value with \<open>undefined\<close>.
\<close>

fun obj_get :: "json \<Rightarrow> string \<Rightarrow> json option" where
  "obj_get (JObj kvs) k = map_of kvs k"
| "obj_get j k = None"

text \<open>Optional chaining \<open>v?.k\<close>.\<close>

definition opt_get :: "json option \<Rightarrow> string \<Rightarrow> json option" where
  "opt_get v k = (case v of None \<Rightarrow> None | Some JNull \<Rightarrow> None | Some j \<Rightarrow> obj_get j k)"

subsection \<open>\<open>JSON.stringify\<close> and \<open>String\<close>\<close>

fun join :: "string \<Rightarrow> string list \<Rightarrow> string" where
  "join sep [] = []"
| "join sep [x] = x"
| "join sep (x # y # ys) = x @ sep @ join sep (y # ys)"

text \<open>
  Escapes of \<open>JSON.stringify\<close>: the quote, the backslash, the short escapes, and
  \<open>\u00XX\<close> for the other characters below \<open>0x20\<close>.
\<close>

definition hex_digit :: "nat \<Rightarrow> char" where
  "hex_digit d = ''0123456789abcdef'' ! (d mod 16)"

definition escape_char :: "char \<Rightarrow> string" where
  "escape_char c =
     (if c = CHR 0x22 then [CHR 0x5C, CHR 0x22]
      else if c = CHR 0x5C then [CHR 0x5C, CHR 0x5C]
      else if c = CHR 0x08 then [CHR 0x5C, CHR ''b'']
      else if c = CHR 0x0C then [CHR 0x5C, CHR ''f'']
      else if c = CHR 0x0A then [CHR 0x5C, CHR ''n'']
      else if c = CHR 0x0D then [CHR 0x5C, CHR ''r'']
      else if c = CHR 0x09 then [CHR 0x5C, CHR ''t'']
      else if (of_char c :: nat) < 32
      then [CHR 0x5C, CHR ''u'', CHR ''0'', CHR ''0'',
            hex_digit ((of_char c :: nat) div 16), hex_digit (of_char c :: nat)]
      else [c])"

definition quote :: "string \<Rightarrow> string" where
  "quote s = [CHR 0x22] @ concat (map escape_char s) @ [CHR 0x22]"

text \<open>A number in JSON text: an infinity is written \<open>null\<close>.\<close>

definition number_json :: "number \<Rightarrow> string" where
  "number_json x = (if finite_number x then Number_toString x else ''null'')"

fun JSON_stringify :: "json \<Rightarrow> string" where
  "JSON_stringify JNull = ''null''"
| "JSON_stringify (JBool b) = (if b then ''true'' else ''false'')"
| "JSON_stringify (JNum n) = number_json (num_of_int n)"
| "JSON_stringify (JStr s) = quote s"
| "JSON_stringify (JArr xs) = ''['' @ join '','' (map JSON_stringify xs) @ '']''"
| "JSON_stringify (JObj kvs) =
     ''{'' @ join '','' (map (\<lambda>kv. quote (fst kv) @ '':'' @ JSON_stringify (snd kv)) kvs) @ ''}''"

text \<open>\<open>JSON.stringify(undefined)\<close> is \<open>undefined\<close>.\<close>

definition stringify_opt :: "json option \<Rightarrow> string option" where
  "stringify_opt v = map_option JSON_stringify v"

text \<open>
  \<open>String(v)\<close>, used for correlation keys, in template literals and by
  \<open>RegExp.prototype.test\<close>. Inside an array \<open>null\<close> prints as the empty string; an
  object prints as \<open>[object Object]\<close>.
\<close>

fun js_String :: "json \<Rightarrow> string" where
  "js_String JNull = ''null''"
| "js_String (JBool b) = (if b then ''true'' else ''false'')"
| "js_String (JNum n) = Number_toString (num_of_int n)"
| "js_String (JStr s) = s"
| "js_String (JArr xs) =
     join '','' (map (\<lambda>x. if x = JNull then [] else js_String x) xs)"
| "js_String (JObj kvs) = ''[object Object]''"

definition String_opt :: "json option \<Rightarrow> string" where
  "String_opt v = (case v of None \<Rightarrow> ''undefined'' | Some j \<Rightarrow> js_String j)"

section \<open>Outcome classifier (\<open>classifyOutcome\<close> in src/unnamed/part_001 and src/unnamed/part_003)\<close>

text \<open>
  The two copies of \<open>classifyOutcome\<close> test the error message against regular
  expressions with the \<open>i\<close> flag. Every pattern of the source is a sequence of
  literal characters, two of them with one \<open>.*\<close> in the middle; \<open>re_item\<close> covers
  exactly that fragment. The letters of the patterns are ASCII, which is all that case
  folding under \<open>/i\<close> can match them with. The dot stops at a line terminator: line
  feed, carriage return, and the separators U+2028 and U+2029, which are the bytes
  \<open>E2 80 A8\<close> and \<open>E2 80 A9\<close> of the text.
\<close>

datatype re_item = Ch char | AnyStar

definition canonicalize :: "char \<Rightarrow> char" where
  "canonicalize c =
     (case map_of (zip ''abcdefghijklmnopqrstuvwxyz'' ''ABCDEFGHIJKLMNOPQRSTUVWXYZ'') c of
        Some u \<Rightarrow> u
      | None \<Rightarrow> c)"

text \<open>Whether a line terminator starts the text.\<close>

definition line_terminator :: "string \<Rightarrow> bool" where
  "line_terminator s =
     (take 1 s = [CHR 0x0A] \<or> take 1 s = [CHR 0x0D] \<or>
      take 3 s = [CHR 0xE2, CHR 0x80, CHR 0xA8] \<or> take 3 s = [CHR 0xE2, CHR 0x80, CHR 0xA9])"

text \<open>Match a pattern at the start of the text (backtracking over \<open>.*\<close>).\<close>

fun match_at :: "re_item list \<Rightarrow> string \<Rightarrow> bool" where
  "match_at [] s = True"
| "match_at (Ch c # r) [] = False"
| "match_at (Ch c # r) (x # s) = (canonicalize x = canonicalize c \<and> match_at r s)"
| "match_at (AnyStar # r) [] = match_at r []"
| "match_at (AnyStar # r) (x # s) =
     (match_at r (x # s) \<or> (\<not> line_terminator (x # s) \<and> match_at (AnyStar # r) s))"

text \<open>\<open>RegExp.prototype.test\<close> without anchors: a match may start anywhere.\<close>

fun re_test :: "re_item list \<Rightarrow> string \<Rightarrow> bool" where
  "re_test r [] = match_at r []"
| "re_test r (x # s) = (match_at r (x # s) \<or> re_test r s)"

definition lit :: "string \<Rightarrow> re_item list" where
  "lit w = map Ch w"

definition gracefulPatterns :: "re_item list list" where
  "gracefulPatterns =
     [lit ''invalid'', lit ''required'', lit ''missing'',
      lit ''type'' @ [AnyStar] @ lit ''expected'',
      lit ''must be'', lit ''should be'', lit ''cannot be'', lit ''not allowed'',
      lit ''validation'', lit ''argument'', lit ''parameter'', lit ''property'',
      lit ''schema'']"

definition crashPatterns :: "re_item list list" where
  "crashPatterns =
     [lit ''crash'', lit ''segfault'', lit ''exception'',
      lit ''internal'' @ [AnyStar] @ lit ''error'',
      lit ''unexpected'', lit ''panic'', lit ''fatal'', lit ''killed'']"

datatype StressOutcome = Pass | GracefulFail | CrashOrHang

text \<open>
  \<open>error\<close> is \<open>string | undefined\<close>; \<open>!error\<close> holds for \<open>undefined\<close> and for the
  empty string. The response is never inspected.
\<close>

definition falsy_string :: "string option \<Rightarrow> bool" where
  "falsy_string e = (case e of None \<Rightarrow> True | Some s \<Rightarrow> s = [])"

definition classifyOutcome :: "string option \<Rightarrow> 'r \<Rightarrow> bool \<Rightarrow> StressOutcome" where
  "classifyOutcome error response timedOut =
     (if timedOut then CrashOrHang
      else if falsy_string error then Pass
      else if list_ex (\<lambda>p. re_test p (the error)) gracefulPatterns then GracefulFail
      else if list_ex (\<lambda>p. re_test p (the error)) crashPatterns then CrashOrHang
      else GracefulFail)"

text \<open>
  The declared type of \<open>error\<close> is not checked when the program runs: the callers pass
  the \<open>message\<close> of the reply's error whatever it is. The same body on any value:
  \<open>!error\<close> is truthiness, and \<open>test\<close> matches against \<open>String(error)\<close>.
\<close>

definition classifyOutcome_any :: "json option \<Rightarrow> 'r \<Rightarrow> bool \<Rightarrow> StressOutcome" where
  "classifyOutcome_any error response timedOut =
     (if timedOut then CrashOrHang
      else if \<not> truthy_opt error then Pass
      else if list_ex (\<lambda>p. re_test p (js_String (the error))) gracefulPatterns then GracefulFail
      else if list_ex (\<lambda>p. re_test p (js_String (the error))) crashPatterns then CrashOrHang
      else GracefulFail)"

text \<open>
  The rule set in the words of the specification: "no error" read as "no error message
  present", then the two vocabularies in order.
\<close>

definition classify_by_rules :: "string option \<Rightarrow> bool \<Rightarrow> StressOutcome" where
  "classify_by_rules error timedOut =
     (if timedOut then CrashOrHang
      else case error of
        None \<Rightarrow> Pass
      | Some msg \<Rightarrow>
          if list_ex (\<lambda>p. re_test p msg) gracefulPatterns then GracefulFail
          else if list_ex (\<lambda>p. re_test p msg) crashPatterns then CrashOrHang
          else GracefulFail)"

section \<open>Chaos engine (src/mcp-debug/src/chaos/injector.ts; types in src/mcp-debug/src/tracer/types.ts)\<close>

text \<open>
  \<open>SeededRandom\<close> keeps its state in a JavaScript number and adds \<open>0x6d2b79f5\<close> to
  it on every draw, rounding as number addition does. The bit operations and
  \<open>Math.imul\<close> work on the state's integer part modulo \<open>2^32\<close>. The draw is an
  unsigned 32-bit value divided by \<open>2^32\<close>, a rational in \<open>[0, 1)\<close>.
\<close>

definition rng_next :: "number \<Rightarrow> rat \<times> number" where
  "rng_next state =
     (let state' = num_add state (Finite 0x6d2b79f5);
          t0 = to_int32 state';
          t1 = (t0 XOR drop_bit 15 t0) * (t0 OR 1);
          t2 = t1 XOR (t1 + (t1 XOR drop_bit 7 t1) * (t1 OR 61));
          r = t2 XOR drop_bit 14 t2
      in (of_int (uint r) / 4294967296, state'))"

text \<open>\<open>Math.floor(this.next() * (max - min + 1)) + min\<close>, on finite bounds.\<close>

definition rng_nextInt :: "number \<Rightarrow> int \<Rightarrow> int \<Rightarrow> int \<times> number" where
  "rng_nextInt state lo hi =
     (let (x, state') = rng_next state;
          span = num_add (num_sub (num_of_int hi) (num_of_int lo)) (Finite 1);
          v = num_add (Math_floor (num_mul (Finite x) span)) (num_of_int lo)
      in (\<lfloor>value_of v\<rfloor>, state'))"

text \<open>
  Configuration. Probabilities are rationals, magnitudes integer milliseconds. An absent
  field is \<open>None\<close>.
\<close>

record ProbabilisticValue =
  pv_p :: rat
  pv_value :: "int option"
  pv_min :: "int option"
  pv_max :: "int option"

datatype ChaosValue = Fixed int | Prob ProbabilisticValue

record ChaosRule =
  delayMs :: "ChaosValue option"
  failRate :: "rat option"
  errorCode :: "int option"
  errorMessage :: "string option"
  corruptResponse :: "bool option"
  timeoutMs :: "ChaosValue option"

record ChaosConfig =
  seed :: "int option"
  global :: "ChaosRule option"
  tools :: "(string \<times> ChaosRule) list"

record ChaosApplied =
  applied_delayMs :: "int option"
  errorInjected :: "bool option"
  responseCorrupted :: "bool option"
  applied_seed :: "int option"

record ChaosInjector =
  config :: ChaosConfig
  rng :: number
  inj_seed :: int

definition no_rule :: ChaosRule where
  "no_rule = \<lparr>delayMs = None, failRate = None, errorCode = None, errorMessage = None,
              corruptResponse = None, timeoutMs = None\<rparr>"

text \<open>
  The constructor: \<open>config.seed ?? Date.now()\<close>; the clock reading is \<open>now\<close>. The
  seed is a number with an integer value.
\<close>

definition newChaosInjector :: "ChaosConfig \<Rightarrow> int \<Rightarrow> ChaosInjector" where
  "newChaosInjector cfg now =
     (let s = (case seed cfg of Some s \<Rightarrow> s | None \<Rightarrow> now)
      in \<lparr>config = cfg, rng = num_of_int s, inj_seed = s\<rparr>)"

definition getSeed :: "ChaosInjector \<Rightarrow> int" where
  "getSeed ci = inj_seed ci"

text \<open>Object spread \<open>{...g, ...t}\<close>: a field of \<open>t\<close> wins where it is present.\<close>

definition or_else :: "'a option \<Rightarrow> 'a option \<Rightarrow> 'a option" where
  "or_else a b = (case a of Some x \<Rightarrow> Some x | None \<Rightarrow> b)"

definition merge_rules :: "ChaosRule \<Rightarrow> ChaosRule \<Rightarrow> ChaosRule" where
  "merge_rules g t =
     \<lparr>delayMs = or_else (delayMs t) (delayMs g),
      failRate = or_else (failRate t) (failRate g),
      errorCode = or_else (errorCode t) (errorCode g),
      errorMessage = or_else (errorMessage t) (errorMessage g),
      corruptResponse = or_else (corruptResponse t) (corruptResponse g),
      timeoutMs = or_else (timeoutMs t) (timeoutMs g)\<rparr>"

definition global_rule :: "ChaosConfig \<Rightarrow> ChaosRule" where
  "global_rule cfg = (case global cfg of Some g \<Rightarrow> g | None \<Rightarrow> no_rule)"

text \<open>
  \<open>getRuleForTool\<close>: \<open>toolName && this.config.tools?.[toolName]\<close>. The name is
  declared a string; the proxy passes \<open>params?.name\<close> as it came, so the test is
  truthiness and the key is \<open>String(toolName)\<close>.
\<close>

definition getRuleForTool :: "ChaosInjector \<Rightarrow> json option \<Rightarrow> ChaosRule" where
  "getRuleForTool ci toolName =
     (if truthy_opt toolName
      then (case map_of (tools (config ci)) (js_String (the toolName)) of
              Some t \<Rightarrow> merge_rules (global_rule (config ci)) t
            | None \<Rightarrow> global_rule (config ci))
      else global_rule (config ci))"

text \<open>
  \<open>resolveValue\<close>: a plain number is returned as it is, without a draw; a probabilistic
  value draws once for the decision and, for a range, once more for the magnitude.
\<close>

definition resolveValue :: "ChaosInjector \<Rightarrow> ChaosValue option \<Rightarrow> int option \<times> ChaosInjector" where
  "resolveValue ci v =
     (case v of
        None \<Rightarrow> (None, ci)
      | Some (Fixed n) \<Rightarrow> (Some n, ci)
      | Some (Prob pv) \<Rightarrow>
          (let (prob, s1) = rng_next (rng ci); ci1 = ci\<lparr>rng := s1\<rparr>
           in if prob > pv_p pv then (None, ci1)
              else (case pv_value pv of
                      Some x \<Rightarrow> (Some x, ci1)
                    | None \<Rightarrow>
                        (case (pv_min pv, pv_max pv) of
                           (Some lo, Some hi) \<Rightarrow>
                             (let (x, s2) = rng_nextInt (rng ci1) lo hi
                              in (Some x, ci1\<lparr>rng := s2\<rparr>))
                         | _ \<Rightarrow> (None, ci1)))))"

definition getDelay :: "ChaosInjector \<Rightarrow> json option \<Rightarrow> int \<times> ChaosInjector" where
  "getDelay ci toolName =
     (let (v, ci') = resolveValue ci (delayMs (getRuleForTool ci toolName))
      in (case v of Some d \<Rightarrow> d | None \<Rightarrow> 0, ci'))"

definition getTimeout :: "ChaosInjector \<Rightarrow> json option \<Rightarrow> int option \<times> ChaosInjector" where
  "getTimeout ci toolName = resolveValue ci (timeoutMs (getRuleForTool ci toolName))"

definition shouldFail :: "ChaosInjector \<Rightarrow> json option \<Rightarrow> bool \<times> ChaosInjector" where
  "shouldFail ci toolName =
     (case failRate (getRuleForTool ci toolName) of
        None \<Rightarrow> (False, ci)
      | Some r \<Rightarrow>
          if r \<le> 0 then (False, ci)
          else (let (x, s1) = rng_next (rng ci) in (x < r, ci\<lparr>rng := s1\<rparr>)))"

definition getErrorResponse ::
  "ChaosInjector \<Rightarrow> json option \<Rightarrow> (int \<times> string) option \<times> ChaosInjector" where
  "getErrorResponse ci toolName =
     (let (fail, ci') = shouldFail ci toolName
      in if \<not> fail then (None, ci')
         else (let rule = getRuleForTool ci' toolName
               in (Some (case errorCode rule of Some c \<Rightarrow> c | None \<Rightarrow> - 32603,
                         case errorMessage rule of Some m \<Rightarrow> m
                                                 | None \<Rightarrow> ''Chaos-injected error''),
                   ci')))"

definition shouldCorruptResponse :: "ChaosInjector \<Rightarrow> json option \<Rightarrow> bool" where
  "shouldCorruptResponse ci toolName =
     (case corruptResponse (getRuleForTool ci toolName) of Some b \<Rightarrow> b | None \<Rightarrow> False)"

definition applyChaos :: "ChaosInjector \<Rightarrow> json option \<Rightarrow> ChaosApplied \<times> ChaosInjector" where
  "applyChaos ci toolName =
     (let a0 = \<lparr>applied_delayMs = None, errorInjected = None, responseCorrupted = None,
                applied_seed = Some (inj_seed ci)\<rparr>;
          (delay, ci1) = getDelay ci toolName;
          a1 = (if delay > 0 then a0\<lparr>applied_delayMs := Some delay\<rparr> else a0);
          (fail, ci2) = shouldFail ci1 toolName;
          a2 = (if fail then a1\<lparr>errorInjected := Some True\<rparr> else a1);
          a3 = (if shouldCorruptResponse ci2 toolName
                then a2\<lparr>responseCorrupted := Some True\<rparr> else a2)
      in (a3, ci2))"

text \<open>
  A sequence of queries against one injector, answered in order; a query names its tool
  by a string, or by none.
\<close>

datatype ChaosQuery =
    QDelay "string option"
  | QTimeout "string option"
  | QShouldFail "string option"
  | QErrorResponse "string option"
  | QShouldCorrupt "string option"
  | QApply "string option"

datatype ChaosAnswer =
    ADelay int
  | ATimeout "int option"
  | AShouldFail bool
  | AErrorResponse "(int \<times> string) option"
  | AShouldCorrupt bool
  | AApplied ChaosApplied

fun answer :: "ChaosInjector \<Rightarrow> ChaosQuery \<Rightarrow> ChaosAnswer \<times> ChaosInjector" where
  "answer ci (QDelay t) = (let (d, ci') = getDelay ci (map_option JStr t) in (ADelay d, ci'))"
| "answer ci (QTimeout t) =
     (let (d, ci') = getTimeout ci (map_option JStr t) in (ATimeout d, ci'))"
| "answer ci (QShouldFail t) =
     (let (b, ci') = shouldFail ci (map_option JStr t) in (AShouldFail b, ci'))"
| "answer ci (QErrorResponse t) =
     (let (e, ci') = getErrorResponse ci (map_option JStr t) in (AErrorResponse e, ci'))"
| "answer ci (QShouldCorrupt t) =
     (AShouldCorrupt (shouldCorruptResponse ci (map_option JStr t)), ci)"
| "answer ci (QApply t) = (let (a, ci') = applyChaos ci (map_option JStr t) in (AApplied a, ci'))"

fun answers :: "ChaosInjector \<Rightarrow> ChaosQuery list \<Rightarrow> ChaosAnswer list" where
  "answers ci [] = []"
| "answers ci (q # qs) = (let (a, ci') = answer ci q in a # answers ci' qs)"

section \<open>Trace events (src/mcp-debug/src/tracer/types.ts)\<close>

text \<open>
  A clock reading is a number; the source formats it as text
  (\<open>new Date().toISOString()\<close>, \<open>datetime('now')\<close>) before storing it. The fields
  declared \<open>string\<close> that the recorder fills from a message as it came (\<open>method\<close>,
  \<open>tool\<close>) hold whatever value the message had there.
\<close>

type_synonym timestamp = nat

datatype TraceEvent =
    RpcRequest "json option" json "json option" timestamp
      \<comment> \<open>id, method, params, ts\<close>
  | RpcResponse "json option" "json option" "json option" timestamp "int option"
      \<comment> \<open>id, result, error, ts, latencyMs\<close>
  | ToolCall json "json option" timestamp string
      \<comment> \<open>tool, args, ts, callId\<close>
  | ToolResult string bool "json option" "json option" timestamp int "ChaosApplied option"
      \<comment> \<open>callId, ok, result, error, ts, latencyMs, chaos\<close>
  | SessionStart string string string "string list" "ChaosConfig option" timestamp
      \<comment> \<open>sessionId, target, targetCmd, targetArgs, chaosConfig, ts\<close>
  | SessionEnd string timestamp nat nat
      \<comment> \<open>sessionId, ts, totalCalls, totalErrors\<close>
  | StressMutation timestamp "json option" json StressOutcome "json option" "json option" int
      \<comment> \<open>ts, tool, mutation, outcome, result, error, latencyMs\<close>
  | ChatMessage timestamp string string "json option"
      \<comment> \<open>ts, role, content, toolCalls\<close>

fun event_t :: "TraceEvent \<Rightarrow> string" where
  "event_t (RpcRequest i m ps ts) = ''rpc_request''"
| "event_t (RpcResponse i r e ts l) = ''rpc_response''"
| "event_t (ToolCall t a ts c) = ''tool_call''"
| "event_t (ToolResult c ok r e ts l ch) = ''tool_result''"
| "event_t (SessionStart s t c a cfg ts) = ''session_start''"
| "event_t (SessionEnd s ts n m) = ''session_end''"
| "event_t (StressMutation ts t m out r e l) = ''stress_mutation''"
| "event_t (ChatMessage ts r c tc) = ''chat_message''"

fun event_ts :: "TraceEvent \<Rightarrow> timestamp" where
  "event_ts (RpcRequest i m ps ts) = ts"
| "event_ts (RpcResponse i r e ts l) = ts"
| "event_ts (ToolCall t a ts c) = ts"
| "event_ts (ToolResult c ok r e ts l ch) = ts"
| "event_ts (SessionStart s t c a cfg ts) = ts"
| "event_ts (SessionEnd s ts n m) = ts"
| "event_ts (StressMutation ts t m out r e l) = ts"
| "event_ts (ChatMessage ts r c tc) = ts"

text \<open>
  The chaos descriptor as the object the code builds: \<open>seed\<close> is set first, the other
  keys are added when they apply.
\<close>

definition chaos_json :: "ChaosApplied \<Rightarrow> json" where
  "chaos_json a =
     JObj ((case applied_seed a of Some s \<Rightarrow> [(''seed'', JNum s)] | None \<Rightarrow> []) @
           (case applied_delayMs a of Some d \<Rightarrow> [(''delayMs'', JNum d)] | None \<Rightarrow> []) @
           (case errorInjected a of Some b \<Rightarrow> [(''errorInjected'', JBool b)] | None \<Rightarrow> []) @
           (case responseCorrupted a of Some b \<Rightarrow> [(''responseCorrupted'', JBool b)]
                                      | None \<Rightarrow> []))"

section \<open>Journal store (src/mcp-debug/src/server/db/schema.ts and queries.ts)\<close>

text \<open>
  The four tables of \<open>initDatabase\<close> as lists of rows, with the constraints the schema
  declares: primary keys, \<open>UNIQUE\<close>, \<open>REFERENCES\<close> with its \<open>ON DELETE\<close> action.
  Foreign keys are enforced (the default of the better-sqlite3 driver). Generated values
  (\<open>uuidv4()\<close>, the clock) are arguments, and a chaos profile arrives as the text
  \<open>JSON.stringify\<close> made of it (\<open>chaos_text\<close>, absent for a falsy profile).
\<close>

datatype RunStatus = Pending | Running | Completed | Failed

datatype RunType = Proxy | Stress

record Project =
  p_id :: string
  p_name :: string
  p_description :: "string option"
  p_created_at :: timestamp

record Agent =
  a_id :: string
  project_id :: string
  a_name :: string
  a_target :: string
  a_chaos_profile :: "string option"
  a_created_at :: timestamp

record Run =
  r_id :: string
  agent_id :: "string option"
  r_name :: "string option"
  r_target :: string
  run_type :: RunType
  r_chaos_profile :: "string option"
  status :: RunStatus
  started_at :: "timestamp option"
  ended_at :: "timestamp option"
  total_calls :: int
  total_errors :: int
  stress_passed :: int
  stress_graceful :: int
  stress_crashed :: int
  stress_score :: int
  r_created_at :: timestamp

record TraceEventRow =
  e_id :: nat
  run_id :: string
  event_type :: string
  e_method :: "string option"
  tool_name :: "string option"
  params_json :: "string option"
  result_json :: "string option"
  error_json :: "string option"
  latency_ms :: "int option"
  e_timestamp :: timestamp
  chaos_applied :: "string option"

record Store =
  projects :: "Project list"
  agents :: "Agent list"
  runs :: "Run list"
  trace_events :: "TraceEventRow list"
  last_event_id :: nat

text \<open>
  What a statement throws: a constraint violation, a syntax error from \<open>prepare\<close>, a
  datatype mismatch (a \<open>LIMIT\<close> or \<open>OFFSET\<close> that is no 64-bit integer), or the
  driver's \<open>TypeError\<close> for a parameter it cannot bind.
\<close>

datatype db_error = SqliteConstraint | SqliteSyntax | SqliteMismatch | BindTypeError

definition empty_store :: Store where
  "empty_store = \<lparr>projects = [], agents = [], runs = [], trace_events = [], last_event_id = 0\<rparr>"

text \<open>\<open>x || null\<close> on an optional string: the empty string is dropped too.\<close>

definition or_null :: "string option \<Rightarrow> string option" where
  "or_null s = (case s of None \<Rightarrow> None | Some x \<Rightarrow> if x = [] then None else Some x)"

subsection \<open>Projects and agents\<close>

definition getProject :: "Store \<Rightarrow> string \<Rightarrow> Project option" where
  "getProject st i = find (\<lambda>x. p_id x = i) (projects st)"

definition getProjectByName :: "Store \<Rightarrow> string \<Rightarrow> Project option" where
  "getProjectByName st n = find (\<lambda>x. p_name x = n) (projects st)"

definition createProject ::
  "Store \<Rightarrow> string \<Rightarrow> timestamp \<Rightarrow> string \<Rightarrow> string option \<Rightarrow> db_error + Project \<times> Store" where
  "createProject st new_id now name description =
     (if list_ex (\<lambda>x. p_id x = new_id \<or> p_name x = name) (projects st)
      then Inl SqliteConstraint
      else (let row = \<lparr>p_id = new_id, p_name = name, p_description = or_null description,
                        p_created_at = now\<rparr>
            in Inr (row, st\<lparr>projects := projects st @ [row]\<rparr>)))"

definition getAgent :: "Store \<Rightarrow> string \<Rightarrow> Agent option" where
  "getAgent st i = find (\<lambda>x. a_id x = i) (agents st)"

definition getAgentByName :: "Store \<Rightarrow> string \<Rightarrow> string \<Rightarrow> Agent option" where
  "getAgentByName st pid n = find (\<lambda>x. project_id x = pid \<and> a_name x = n) (agents st)"

definition createAgent ::
  "Store \<Rightarrow> string \<Rightarrow> timestamp \<Rightarrow> string \<Rightarrow> string \<Rightarrow> string \<Rightarrow> string option
     \<Rightarrow> db_error + Agent \<times> Store" where
  "createAgent st new_id now projectId name target chaos_text =
     (if list_ex (\<lambda>x. a_id x = new_id \<or> (project_id x = projectId \<and> a_name x = name)) (agents st)
         \<or> \<not> list_ex (\<lambda>x. p_id x = projectId) (projects st)
      then Inl SqliteConstraint
      else (let row = \<lparr>a_id = new_id, project_id = projectId, a_name = name, a_target = target,
                        a_chaos_profile = chaos_text, a_created_at = now\<rparr>
            in Inr (row, st\<lparr>agents := agents st @ [row]\<rparr>)))"

text \<open>
  \<open>ON DELETE SET NULL\<close> of \<open>runs.agent_id\<close>: a run whose agent goes keeps its row and
  loses the reference.
\<close>

definition detach_runs :: "string list \<Rightarrow> Run list \<Rightarrow> Run list" where
  "detach_runs gone rs =
     map (\<lambda>r. case agent_id r of
                 None \<Rightarrow> r
               | Some a \<Rightarrow> if a \<in> set gone then r\<lparr>agent_id := None\<rparr> else r) rs"

text \<open>
  \<open>DELETE FROM projects WHERE id = ?\<close>, with \<open>ON DELETE CASCADE\<close> of
  \<open>agents.project_id\<close> and then \<open>ON DELETE SET NULL\<close> of \<open>runs.agent_id\<close>. The
  result is \<open>changes > 0\<close>.
\<close>

definition deleteProject :: "Store \<Rightarrow> string \<Rightarrow> bool \<times> Store" where
  "deleteProject st i =
     (let hit = list_ex (\<lambda>x. p_id x = i) (projects st);
          gone = map a_id (filter (\<lambda>a. project_id a = i) (agents st))
      in if \<not> hit then (False, st)
         else (True,
               st\<lparr>projects := filter (\<lambda>x. p_id x \<noteq> i) (projects st),
                  agents := filter (\<lambda>a. project_id a \<noteq> i) (agents st),
                  runs := detach_runs gone (runs st)\<rparr>))"

definition deleteAgent :: "Store \<Rightarrow> string \<Rightarrow> bool \<times> Store" where
  "deleteAgent st i =
     (let hit = list_ex (\<lambda>a. a_id a = i) (agents st)
      in if \<not> hit then (False, st)
         else (True,
               st\<lparr>agents := filter (\<lambda>a. a_id a \<noteq> i) (agents st),
                  runs := detach_runs [i] (runs st)\<rparr>))"

subsection \<open>Runs\<close>

definition getRun :: "Store \<Rightarrow> string \<Rightarrow> Run option" where
  "getRun st i = find (\<lambda>r. r_id r = i) (runs st)"

definition count_tool_calls :: "Store \<Rightarrow> string \<Rightarrow> int" where
  "count_tool_calls st rid =
     int (length (filter (\<lambda>e. run_id e = rid \<and> event_type e = ''tool_call'') (trace_events st)))"

definition stale :: "string \<Rightarrow> RunType \<Rightarrow> Run \<Rightarrow> bool" where
  "stale aid rt r = (agent_id r = Some aid \<and> status r = Running \<and> run_type r = rt)"

text \<open>
  \<open>cleanupStaleRuns\<close>: nothing without an agent id; otherwise two updates over the
  runs of that agent and type still marked running.
\<close>

definition cleanupStaleRuns ::
  "Store \<Rightarrow> timestamp \<Rightarrow> string option \<Rightarrow> RunType option \<Rightarrow> nat \<times> Store" where
  "cleanupStaleRuns st now agentId runType =
     (case or_null agentId of
        None \<Rightarrow> (0, st)
      | Some aid \<Rightarrow>
          (let rt = (case runType of Some t \<Rightarrow> t | None \<Rightarrow> Proxy);
               rs1 = map (\<lambda>r. if stale aid rt r
                               then r\<lparr>total_calls := count_tool_calls st (r_id r)\<rparr> else r) (runs st);
               n = length (filter (stale aid rt) rs1);
               rs2 = map (\<lambda>r. if stale aid rt r
                               then r\<lparr>status := Completed, ended_at := Some now\<rparr> else r) rs1
           in (n, st\<lparr>runs := rs2\<rparr>)))"

text \<open>
  \<open>createRun\<close> cleans up first and inserts second, as two statements: when the insert
  is refused the cleanup stays.
\<close>

definition createRun ::
  "Store \<Rightarrow> string \<Rightarrow> timestamp \<Rightarrow> string \<Rightarrow> string option \<Rightarrow> string option \<Rightarrow> RunType
     \<Rightarrow> (db_error + Run) \<times> Store" where
  "createRun st new_id now target chaos_text agentId runType =
     (let (cleaned, st1) = cleanupStaleRuns st now agentId (Some runType);
          row = \<lparr>r_id = new_id, agent_id = or_null agentId, r_name = None, r_target = target,
                 run_type = runType, r_chaos_profile = chaos_text, status = Pending,
                 started_at = None, ended_at = None, total_calls = 0, total_errors = 0,
                 stress_passed = 0, stress_graceful = 0, stress_crashed = 0, stress_score = 0,
                 r_created_at = now\<rparr>
      in if list_ex (\<lambda>r. r_id r = new_id) (runs st1)
            \<or> (case or_null agentId of
                  None \<Rightarrow> False
                | Some a \<Rightarrow> \<not> list_ex (\<lambda>x. a_id x = a) (agents st1))
         then (Inl SqliteConstraint, st1)
         else (Inr row, st1\<lparr>runs := runs st1 @ [row]\<rparr>))"

text \<open>
  \<open>updateRunStatus\<close>: one \<open>UPDATE ... WHERE id = ?\<close> whose \<open>SET\<close> list depends on
  the requested status and on the counters handed in. The stored status is not read.
\<close>

definition set_clause ::
  "timestamp \<Rightarrow> RunStatus \<Rightarrow> int option \<Rightarrow> int option \<Rightarrow> Run \<Rightarrow> Run" where
  "set_clause now new_status totalCalls totalErrors r =
     (let r1 = r\<lparr>status := new_status\<rparr>;
          r2 = (if new_status = Running then r1\<lparr>started_at := Some now\<rparr> else r1);
          r3 = (if new_status = Completed \<or> new_status = Failed
                then r2\<lparr>ended_at := Some now\<rparr> else r2);
          r4 = (case totalCalls of Some n \<Rightarrow> r3\<lparr>total_calls := n\<rparr> | None \<Rightarrow> r3)
      in (case totalErrors of Some n \<Rightarrow> r4\<lparr>total_errors := n\<rparr> | None \<Rightarrow> r4))"

definition updateRunStatus ::
  "Store \<Rightarrow> timestamp \<Rightarrow> string \<Rightarrow> RunStatus \<Rightarrow> int option \<Rightarrow> int option \<Rightarrow> Store" where
  "updateRunStatus st now i new_status totalCalls totalErrors =
     st\<lparr>runs := map (\<lambda>r. if r_id r = i then set_clause now new_status totalCalls totalErrors r
                          else r) (runs st)\<rparr>"

definition deleteRun :: "Store \<Rightarrow> string \<Rightarrow> bool \<times> Store" where
  "deleteRun st i =
     (let hit = list_ex (\<lambda>r. r_id r = i) (runs st)
      in if \<not> hit then (False, st)
         else (True,
               st\<lparr>runs := filter (\<lambda>r. r_id r \<noteq> i) (runs st),
                  trace_events := filter (\<lambda>e. run_id e \<noteq> i) (trace_events st)\<rparr>))"

definition updateStressStats :: "Store \<Rightarrow> string \<Rightarrow> int \<Rightarrow> int \<Rightarrow> int \<Rightarrow> int \<Rightarrow> Store" where
  "updateStressStats st runId passed graceful crashed score =
     (let totalCalls = passed + graceful + crashed
      in st\<lparr>runs := map (\<lambda>r.
           if r_id r = runId
           then r\<lparr>stress_passed := passed, stress_graceful := graceful,
                  stress_crashed := crashed, stress_score := score,
                  total_calls := totalCalls\<rparr>
           else r) (runs st)\<rparr>)"

subsection \<open>Events\<close>

text \<open>\<open>x ? JSON.stringify(x) : null\<close>.\<close>

definition json_text :: "json option \<Rightarrow> string option" where
  "json_text v =
     (case v of None \<Rightarrow> None | Some j \<Rightarrow> if truthy j then Some (JSON_stringify j) else None)"

fun outcome_text :: "StressOutcome \<Rightarrow> string" where
  "outcome_text Pass = ''pass''"
| "outcome_text GracefulFail = ''graceful_fail''"
| "outcome_text CrashOrHang = ''crash_or_hang''"

definition blank_row :: "string \<Rightarrow> TraceEvent \<Rightarrow> TraceEventRow" where
  "blank_row runId ev =
     \<lparr>e_id = 0, run_id = runId, event_type = event_t ev, e_method = None, tool_name = None,
      params_json = None, result_json = None, error_json = None, latency_ms = None,
      e_timestamp = event_ts ev, chaos_applied = None\<rparr>"

text \<open>
  A parameter bound to a \<open>TEXT\<close> column. The driver binds strings, numbers and
  \<open>null\<close> (also for \<open>undefined\<close>) and throws a \<open>TypeError\<close> for anything else.
  It binds every number as a double, and SQLite stores a double in a \<open>TEXT\<close> column
  as the text its \<open>%!.15g\<close> format makes of it: an integer value below \<open>10^15\<close> as
  its digits and \<open>.0\<close>, a larger one with fifteen significant digits and an exponent.
\<close>

definition strip_zeros :: "string \<Rightarrow> string" where
  "strip_zeros s = rev (dropWhile (\<lambda>c. c = CHR ''0'') (rev s))"

definition sqlite_real_text :: "number \<Rightarrow> string" where
  "sqlite_real_text x =
     (case x of
        PosInfinity \<Rightarrow> ''Inf''
      | NegInfinity \<Rightarrow> ''-Inf''
      | NaN \<Rightarrow> []
      | NegZero \<Rightarrow> ''0.0''
      | Finite q \<Rightarrow>
          (let v = \<lfloor>\<bar>q\<bar>\<rfloor>; sign = (if q < 0 then ''-'' else [])
           in if v < 1000000000000000 then sign @ digits v @ ''.0''
              else (let d = int (length (digits v));
                        m0 = \<lfloor>of_int v / pow 10 (d - 15) + 1 / 2\<rfloor>;
                        m = (if m0 = 1000000000000000 then 100000000000000 else m0);
                        e = (if m0 = 1000000000000000 then d else d - 1);
                        frac = strip_zeros (drop 1 (digits m))
                    in sign @ take 1 (digits m) @ ''.'' @ (if frac = [] then ''0'' else frac)
                       @ ''e+'' @ (if e < 10 then ''0'' else []) @ digits e)))"

definition bind_text :: "json option \<Rightarrow> string option option" where
  "bind_text v =
     (case v of
        None \<Rightarrow> Some None
      | Some JNull \<Rightarrow> Some None
      | Some (JStr s) \<Rightarrow> Some (Some s)
      | Some (JNum n) \<Rightarrow> Some (Some (sqlite_real_text (num_of_int n)))
      | _ \<Rightarrow> None)"

text \<open>
  The columns \<open>insertTraceEvent\<close> fills for each kind of event, given the texts bound
  for \<open>method\<close> and \<open>tool_name\<close>.
\<close>

fun event_values :: "string \<Rightarrow> TraceEvent \<Rightarrow> TraceEventRow" where
  "event_values runId (RpcRequest i m ps ts) =
     (blank_row runId (RpcRequest i m ps ts))\<lparr>params_json := json_text ps\<rparr>"
| "event_values runId (RpcResponse i r e ts l) =
     (blank_row runId (RpcResponse i r e ts l))
       \<lparr>result_json := json_text r, error_json := json_text e, latency_ms := l\<rparr>"
| "event_values runId (ToolCall t a ts c) =
     (blank_row runId (ToolCall t a ts c))\<lparr>params_json := json_text a\<rparr>"
| "event_values runId (ToolResult c ok r e ts l ch) =
     (blank_row runId (ToolResult c ok r e ts l ch))
       \<lparr>result_json := json_text r, error_json := json_text e, latency_ms := Some l,
        chaos_applied := map_option (\<lambda>a. JSON_stringify (chaos_json a)) ch\<rparr>"
| "event_values runId (StressMutation ts t m out r e l) =
     (blank_row runId (StressMutation ts t m out r e l))
       \<lparr>params_json :=
          Some (JSON_stringify (JObj [(''mutation'', m), (''outcome'', JStr (outcome_text out))])),
        result_json := json_text r, error_json := json_text e, latency_ms := Some l\<rparr>"
| "event_values runId (ChatMessage ts role content tc) =
     (blank_row runId (ChatMessage ts role content tc))
       \<lparr>params_json :=
          Some (JSON_stringify
                  (JObj ([(''role'', JStr role), (''content'', JStr content)] @
                         (case tc of Some j \<Rightarrow> [(''toolCalls'', j)] | None \<Rightarrow> []))))\<rparr>"
| "event_values runId ev = blank_row runId ev"

text \<open>The values the event gives for the columns \<open>method\<close> and \<open>tool_name\<close>.\<close>

fun event_method :: "TraceEvent \<Rightarrow> json option" where
  "event_method (RpcRequest i m ps ts) = Some m"
| "event_method ev = None"

fun event_tool :: "TraceEvent \<Rightarrow> json option" where
  "event_tool (ToolCall t a ts c) = Some t"
| "event_tool (StressMutation ts t m out r e l) = t"
| "event_tool ev = None"

text \<open>The row to insert; \<open>None\<close> when a parameter cannot be bound.\<close>

definition event_row :: "string \<Rightarrow> TraceEvent \<Rightarrow> TraceEventRow option" where
  "event_row runId ev =
     (case (bind_text (event_method ev), bind_text (event_tool ev)) of
        (Some m, Some t) \<Rightarrow> Some ((event_values runId ev)\<lparr>e_method := m, tool_name := t\<rparr>)
      | _ \<Rightarrow> None)"

text \<open>
  \<open>insertTraceEvent\<close>: the row gets the next \<open>AUTOINCREMENT\<close> id; the insert is refused
  when \<open>run_id\<close> references no run.
\<close>

definition insertTraceEvent :: "Store \<Rightarrow> string \<Rightarrow> TraceEvent \<Rightarrow> db_error + Store" where
  "insertTraceEvent st runId ev =
     (case event_row runId ev of
        None \<Rightarrow> Inl BindTypeError
      | Some row \<Rightarrow>
          if \<not> list_ex (\<lambda>r. r_id r = runId) (runs st) then Inl SqliteConstraint
          else (let n = Suc (last_event_id st)
                in Inr (st\<lparr>trace_events := trace_events st @ [row\<lparr>e_id := n\<rparr>],
                           last_event_id := n\<rparr>)))"

subsection \<open>Paged reads\<close>

text \<open>
  The statement text is assembled piece by piece. SQLite's grammar has \<open>OFFSET\<close> only
  inside a \<open>LIMIT\<close> clause (\<open>LIMIT expr\<close> or \<open>LIMIT expr OFFSET expr\<close>, last in the
  statement); \<open>sqlite_accepts\<close> checks that on the words of the text, which is the one
  rule these statements can break, and \<open>prepare\<close> throws when it is broken.
\<close>

fun split_on :: "char \<Rightarrow> string \<Rightarrow> string \<Rightarrow> string list" where
  "split_on c acc [] = [acc]"
| "split_on c acc (x # xs) = (if x = c then acc # split_on c [] xs else split_on c (acc @ [x]) xs)"

definition sql_words :: "string \<Rightarrow> string list" where
  "sql_words s = filter (\<lambda>w. w \<noteq> []) (split_on CHR '' '' [] s)"

fun limit_clause_ok :: "string list \<Rightarrow> bool" where
  "limit_clause_ok [] = True"
| "limit_clause_ok (w # ws) =
     (if w = ''LIMIT'' then (case ws of
                               [e] \<Rightarrow> True
                             | [e, off, e'] \<Rightarrow> off = ''OFFSET''
                             | _ \<Rightarrow> False)
      else if w = ''OFFSET'' then False
      else limit_clause_ok ws)"

definition sqlite_accepts :: "string \<Rightarrow> bool" where
  "sqlite_accepts sql = limit_clause_ok (sql_words sql)"

text \<open>\<open>if (limit)\<close> and \<open>if (offset)\<close>: a number is there and is neither zero nor \<open>NaN\<close>.\<close>

definition truthy_num :: "number option \<Rightarrow> bool" where
  "truthy_num n = (case n of None \<Rightarrow> False | Some k \<Rightarrow> truthy_number k)"

text \<open>
  The value SQLite takes for a bound \<open>LIMIT\<close> or \<open>OFFSET\<close>: the driver binds a
  double, and SQLite wants an integer; it converts a double that is one, strictly between
  \<open>-2^63\<close> and \<open>2^63\<close>, and fails with a datatype mismatch on any other.
\<close>

definition sql_integer :: "number \<Rightarrow> int option" where
  "sql_integer x =
     (case x of
        Finite q \<Rightarrow>
          if is_integer q \<and> \<bar>q\<bar> < 9223372036854775808 then Some \<lfloor>q\<rfloor> else None
      | NegZero \<Rightarrow> Some 0
      | _ \<Rightarrow> None)"

text \<open>
  The parameters of the clauses that are in the text: without a \<open>LIMIT\<close> clause there
  is no limit (as with a negative one), without an \<open>OFFSET\<close> clause the offset is zero.
\<close>

definition limit_param :: "number option \<Rightarrow> int option" where
  "limit_param limit = (if truthy_num limit then sql_integer (the limit) else Some (- 1))"

definition offset_param :: "number option \<Rightarrow> int option" where
  "offset_param offset = (if truthy_num offset then sql_integer (the offset) else Some 0)"

text \<open>\<open>LIMIT l OFFSET off\<close> on the ordered rows: a negative offset counts as zero.\<close>

definition page :: "int \<Rightarrow> int \<Rightarrow> 'a list \<Rightarrow> 'a list" where
  "page l off xs = (let ys = drop (nat off) xs in if l < 0 then ys else take (nat l) ys)"

definition getRunEvents_sql :: "number option \<Rightarrow> number option \<Rightarrow> string" where
  "getRunEvents_sql limit offset =
     ''SELECT * FROM trace_events WHERE run_id = ? ORDER BY id ASC''
     @ (if truthy_num limit then '' LIMIT ?'' else [])
     @ (if truthy_num offset then '' OFFSET ?'' else [])"

definition getRunEvents ::
  "Store \<Rightarrow> string \<Rightarrow> number option \<Rightarrow> number option \<Rightarrow> db_error + TraceEventRow list" where
  "getRunEvents st runId limit offset =
     (if \<not> sqlite_accepts (getRunEvents_sql limit offset) then Inl SqliteSyntax
      else case (limit_param limit, offset_param offset) of
             (Some l, Some off) \<Rightarrow>
               Inr (page l off (sort_key e_id (filter (\<lambda>e. run_id e = runId) (trace_events st))))
           | _ \<Rightarrow> Inl SqliteMismatch)"

definition getRunEventCount :: "Store \<Rightarrow> string \<Rightarrow> nat" where
  "getRunEventCount st runId = length (filter (\<lambda>e. run_id e = runId) (trace_events st))"

record RunFilters =
  f_status :: "string option"
  f_target :: "string option"
  f_agentId :: "string option"
  f_runType :: "RunType option"
  f_limit :: "number option"
  f_offset :: "number option"

fun status_text :: "RunStatus \<Rightarrow> string" where
  "status_text Pending = ''pending''"
| "status_text Running = ''running''"
| "status_text Completed = ''completed''"
| "status_text Failed = ''failed''"

text \<open>SQLite's \<open>LIKE\<close>: \<open>%\<close> is any run of characters, \<open>_\<close> any one, ASCII letters fold.\<close>

fun sql_like :: "string \<Rightarrow> string \<Rightarrow> bool" where
  "sql_like [] s = (s = [])"
| "sql_like (c # cs) [] = (c = CHR ''%'' \<and> sql_like cs [])"
| "sql_like (c # cs) (x # xs) =
     (if c = CHR ''%'' then sql_like cs (x # xs) \<or> sql_like (c # cs) xs
      else (c = CHR ''_'' \<or> canonicalize c = canonicalize x) \<and> sql_like cs xs)"

definition truthy_str :: "string option \<Rightarrow> bool" where
  "truthy_str s = (case s of None \<Rightarrow> False | Some x \<Rightarrow> x \<noteq> [])"

definition listRuns_sql :: "RunFilters \<Rightarrow> string" where
  "listRuns_sql f =
     ''SELECT * FROM runs WHERE 1=1''
     @ (if truthy_str (f_agentId f) then '' AND agent_id = ?'' else [])
     @ (if truthy_str (f_status f) then '' AND status = ?'' else [])
     @ (if f_runType f \<noteq> None then '' AND run_type = ?'' else [])
     @ (if truthy_str (f_target f) then '' AND target LIKE ?'' else [])
     @ '' ORDER BY created_at DESC''
     @ (if truthy_num (f_limit f) then '' LIMIT ?'' else [])
     @ (if truthy_num (f_offset f) then '' OFFSET ?'' else [])"

definition run_matches :: "RunFilters \<Rightarrow> Run \<Rightarrow> bool" where
  "run_matches f r =
     ((truthy_str (f_agentId f) \<longrightarrow> agent_id r = f_agentId f) \<and>
      (truthy_str (f_status f) \<longrightarrow> Some (status_text (status r)) = f_status f) \<and>
      (f_runType f \<noteq> None \<longrightarrow> Some (run_type r) = f_runType f) \<and>
      (truthy_str (f_target f) \<longrightarrow>
         sql_like (''%'' @ the (f_target f) @ ''%'') (r_target r)))"

text \<open>
  \<open>ORDER BY created_at DESC\<close> fixes the order of two rows only when their
  \<open>created_at\<close> differ; among rows created at the same instant the order is SQLite's
  choice and depends on the filters. \<open>newest_first rows out\<close> says that \<open>out\<close> is one
  of the orders SQLite may give to \<open>rows\<close>.
\<close>

definition newest_first :: "Run list \<Rightarrow> Run list \<Rightarrow> bool" where
  "newest_first rows out =
     (mset out = mset rows \<and> sorted_wrt (\<lambda>a b. r_created_at b \<le> r_created_at a) out)"

text \<open>
  \<open>listRuns\<close>: the set of its possible outcomes, one error or the page of each order
  SQLite may give.
\<close>

definition listRuns :: "Store \<Rightarrow> RunFilters \<Rightarrow> (db_error + Run list) set" where
  "listRuns st f =
     (if \<not> sqlite_accepts (listRuns_sql f) then {Inl SqliteSyntax}
      else case (limit_param (f_limit f), offset_param (f_offset f)) of
             (Some l, Some off) \<Rightarrow>
               {Inr (page l off out) | out. newest_first (filter (run_matches f) (runs st)) out}
           | _ \<Rightarrow> {Inl SqliteMismatch})"

section \<open>Trace recorder (\<open>TraceRecorder\<close>, second part of src/mcp-debug/src/tracer/types.ts)\<close>

text \<open>
  The recorder appends each event to the trace file when it has a path and inserts it
  into the store when it has one and a run id. \<open>file_lines\<close> is the list of lines appended so
  far, \<open>db\<close> the store behind \<open>dbQueries\<close>. The notification posted to the server after
  an insert, whose failure the code ignores, is left out.
\<close>

record PendingCall =
  startTime :: int
  pc_tool :: "json option"

record TraceRecorder =
  sessionId :: string
  outputPath :: "string option"
  callCount :: nat
  errorCount :: nat
  pendingCalls :: "(string \<times> PendingCall) list"
  runId :: "string option"
  rec_agentId :: "string option"
  file_lines :: "TraceEvent list"
  db :: "Store option"

text \<open>
  \<open>writeEvent\<close> answers whether it returned (\<open>True\<close>) or threw (\<open>False\<close>, the insert
  threw); the file line is written before the insert either way.
\<close>

definition writeEvent :: "TraceRecorder \<Rightarrow> TraceEvent \<Rightarrow> bool \<times> TraceRecorder" where
  "writeEvent rc ev =
     (let rc1 = (if truthy_str (outputPath rc) then rc\<lparr>file_lines := file_lines rc @ [ev]\<rparr> else rc)
      in case db rc1 of
           None \<Rightarrow> (True, rc1)
         | Some st \<Rightarrow>
             if \<not> truthy_str (runId rc1) then (True, rc1)
             else (case insertTraceEvent st (the (runId rc1)) ev of
                     Inl e \<Rightarrow> (False, rc1)
                   | Inr st' \<Rightarrow> (True, rc1\<lparr>db := Some st'\<rparr>)))"

text \<open>
  \<open>recordRpcRequest\<close>. The tool name is \<open>params?.name\<close> and is used when it is truthy,
  whatever its type.
\<close>

definition recordRpcRequest ::
  "TraceRecorder \<Rightarrow> int \<Rightarrow> timestamp \<Rightarrow> json option \<Rightarrow> json \<Rightarrow> json option
     \<Rightarrow> bool \<times> TraceRecorder" where
  "recordRpcRequest rc now ts i meth params =
     (let (ok, rc1) = writeEvent rc (RpcRequest i meth params ts)
      in if \<not> ok then (False, rc1)
         else (case i of
                 None \<Rightarrow> (True, rc1)
               | Some v \<Rightarrow>
                   (let callId = js_String v;
                        rc2 = rc1\<lparr>pendingCalls :=
                                AList.update callId \<lparr>startTime = now, pc_tool = None\<rparr>
                                  (pendingCalls rc1)\<rparr>
                    in if meth = JStr ''tools/call''
                       then (let toolName = opt_get params ''name''
                             in if \<not> truthy_opt toolName then (True, rc2)
                                else writeEvent
                                       (rc2\<lparr>pendingCalls :=
                                              AList.update callId
                                                \<lparr>startTime = now, pc_tool = toolName\<rparr>
                                                (pendingCalls rc2)\<rparr>)
                                       (ToolCall (the toolName) (opt_get params ''arguments'') ts
                                          callId))
                       else (True, rc2))))"

definition recordRpcResponse ::
  "TraceRecorder \<Rightarrow> int \<Rightarrow> timestamp \<Rightarrow> json option \<Rightarrow> json option \<Rightarrow> json option
     \<Rightarrow> ChaosApplied option \<Rightarrow> bool \<times> TraceRecorder" where
  "recordRpcResponse rc now ts i result error chaos =
     (case (case i of None \<Rightarrow> None
                    | Some v \<Rightarrow> map_option (Pair (js_String v))
                                 (map_of (pendingCalls rc) (js_String v))) of
        None \<Rightarrow> writeEvent rc (RpcResponse i result error ts None)
      | Some (callId, pending) \<Rightarrow>
          (let latencyMs = now - startTime pending
           in if truthy_opt (pc_tool pending)
              then (let rc1 = rc\<lparr>callCount := callCount rc + 1,
                                   errorCount := (if truthy_opt error then errorCount rc + 1
                                                  else errorCount rc)\<rparr>;
                        (ok, rc2) = writeEvent rc1
                                      (ToolResult callId (\<not> truthy_opt error) result error ts
                                         latencyMs chaos)
                    in if \<not> ok then (False, rc2)
                       else writeEvent
                              (rc2\<lparr>pendingCalls := AList.delete callId (pendingCalls rc2)\<rparr>)
                              (RpcResponse i result error ts (Some latencyMs)))
              else writeEvent
                     (rc\<lparr>pendingCalls := AList.delete callId (pendingCalls rc)\<rparr>)
                     (RpcResponse i result error ts (Some latencyMs))))"

text \<open>
  The constructor. With a store it creates the run (type \<open>proxy\<close>), marks it running and
  takes the run's id as session id; then it writes \<open>session_start\<close>. \<open>chaos_text\<close> is
  the configuration as \<open>JSON.stringify\<close> prints it.
\<close>

definition newTraceRecorder ::
  "string \<Rightarrow> string \<Rightarrow> timestamp \<Rightarrow> string \<Rightarrow> string \<Rightarrow> string list \<Rightarrow> string option
     \<Rightarrow> ChaosConfig option \<Rightarrow> string option \<Rightarrow> Store option \<Rightarrow> string option
     \<Rightarrow> db_error + TraceRecorder" where
  "newTraceRecorder session_uuid run_uuid now target targetCmd targetArgs path chaosConfig
     chaos_text store agentId =
     (let rc0 = \<lparr>sessionId = session_uuid, outputPath = path, callCount = 0, errorCount = 0,
                 pendingCalls = [], runId = None, rec_agentId = agentId, file_lines = [],
                 db = store\<rparr>
      in case store of
           None \<Rightarrow> Inr (snd (writeEvent rc0
                               (SessionStart session_uuid target targetCmd targetArgs
                                  chaosConfig now)))
         | Some st \<Rightarrow>
             (case createRun st run_uuid now target chaos_text agentId Proxy of
                (Inl e, st1) \<Rightarrow> Inl e
              | (Inr run, st1) \<Rightarrow>
                  (let st2 = updateRunStatus st1 now (r_id run) Running None None;
                       rc1 = rc0\<lparr>sessionId := r_id run, runId := Some (r_id run),
                                 db := Some st2\<rparr>
                   in case writeEvent rc1
                             (SessionStart (r_id run) target targetCmd targetArgs
                                chaosConfig now) of
                        (True, rc2) \<Rightarrow> Inr rc2
                      | (False, rc2) \<Rightarrow> Inl SqliteConstraint)))"

definition end_session :: "TraceRecorder \<Rightarrow> timestamp \<Rightarrow> bool \<times> TraceRecorder" where
  "end_session rc now =
     (let (ok, rc1) = writeEvent rc (SessionEnd (sessionId rc) now (callCount rc) (errorCount rc))
      in if \<not> ok then (False, rc1)
         else (case db rc1 of
                 None \<Rightarrow> (True, rc1)
               | Some st \<Rightarrow>
                   if \<not> truthy_str (runId rc1) then (True, rc1)
                   else (True,
                         rc1\<lparr>db := Some (updateRunStatus st now (the (runId rc1)) Completed
                                           (Some (int (callCount rc1)))
                                           (Some (int (errorCount rc1))))\<rparr>)))"

section \<open>Stdio proxy (src/mcp-debug/src/commands/proxy.ts)\<close>

text \<open>
  The two line handlers of \<open>proxyCommand\<close>. A handler gets the line and what
  \<open>JSON.parse\<close> made of it (\<open>None\<close> when it threw) and answers with what it does to the
  outside, in order, and the new state. Reading a property of \<open>null\<close> throws like a
  parse error does; both handlers catch everything.
\<close>

datatype Effect = WriteTarget string | WriteStdout string | Sleep int

record ProxyState =
  recorder :: TraceRecorder
  injector :: "ChaosInjector option"

definition newline :: string where
  "newline = [CHR 0x0A]"

definition on_stdin_line ::
  "ProxyState \<Rightarrow> int \<Rightarrow> timestamp \<Rightarrow> string \<Rightarrow> json option \<Rightarrow> Effect list \<times> ProxyState" where
  "on_stdin_line ps now ts line parsed =
     (case parsed of
        None \<Rightarrow> ([WriteTarget (line @ newline)], ps)
      | Some JNull \<Rightarrow> ([WriteTarget (line @ newline)], ps)
      | Some message \<Rightarrow>
          (let (ok, rc1) =
                 (if truthy_opt (obj_get message ''method'')
                  then recordRpcRequest (recorder ps) now ts (obj_get message ''id'')
                         (the (obj_get message ''method'')) (obj_get message ''params'')
                  else (True, recorder ps));
               ps1 = ps\<lparr>recorder := rc1\<rparr>
           in if \<not> ok then ([WriteTarget (line @ newline)], ps1)
              else (case injector ps1 of
                      None \<Rightarrow> ([WriteTarget (line @ newline)], ps1)
                    | Some ci \<Rightarrow>
                        if obj_get message ''method'' = Some (JStr ''tools/call'')
                        then (let toolName = opt_get (obj_get message ''params'') ''name'';
                                  (delay, ci') = getDelay ci toolName
                              in ((if delay > 0 then [Sleep delay] else [])
                                    @ [WriteTarget (line @ newline)],
                                  ps1\<lparr>injector := Some ci'\<rparr>))
                        else ([WriteTarget (line @ newline)], ps1))))"

definition seed_only :: "ChaosInjector \<Rightarrow> ChaosApplied" where
  "seed_only ci = \<lparr>applied_delayMs = None, errorInjected = None, responseCorrupted = None,
                   applied_seed = Some (getSeed ci)\<rparr>"

definition on_target_line ::
  "ProxyState \<Rightarrow> int \<Rightarrow> timestamp \<Rightarrow> string \<Rightarrow> json option \<Rightarrow> Effect list \<times> ProxyState" where
  "on_target_line ps now ts line parsed =
     (let ps1 =
            (case parsed of
               None \<Rightarrow> ps
             | Some JNull \<Rightarrow> ps
             | Some message \<Rightarrow>
                 (case obj_get message ''id'' of
                    None \<Rightarrow> ps
                  | Some i \<Rightarrow>
                      ps\<lparr>recorder :=
                           snd (recordRpcResponse (recorder ps) now ts (Some i)
                                  (obj_get message ''result'') (obj_get message ''error'')
                                  (map_option seed_only (injector ps)))\<rparr>))
      in ([WriteStdout (line @ newline)], ps1))"

subsection \<open>Notions used to state what the proxy journals\<close>

text \<open>
  The method of a message and the tool name of a \<open>tools/call\<close>, when they are
  non-empty strings, as their declared types say.
\<close>

definition method_of :: "json \<Rightarrow> string option" where
  "method_of message =
     (case obj_get message ''method'' of
        Some (JStr m) \<Rightarrow> if m = [] then None else Some m
      | _ \<Rightarrow> None)"

definition tool_name_of :: "json option \<Rightarrow> string option" where
  "tool_name_of params =
     (case opt_get params ''name'' of
        Some (JStr n) \<Rightarrow> if n = [] then None else Some n
      | _ \<Rightarrow> None)"

text \<open>
  A recorder is live for a run when it has a store and that run's id and the run's row is
  in the store: the state \<open>proxyCommand\<close> works in from construction on.
\<close>

definition live :: "TraceRecorder \<Rightarrow> string \<Rightarrow> bool" where
  "live rc rid =
     (case db rc of
        None \<Rightarrow> False
      | Some st \<Rightarrow> runId rc = Some rid \<and> rid \<noteq> [] \<and> list_ex (\<lambda>r. r_id r = rid) (runs st))"

definition journal :: "TraceRecorder \<Rightarrow> TraceEventRow list" where
  "journal rc = (case db rc of None \<Rightarrow> [] | Some st \<Rightarrow> trace_events st)"

text \<open>A row without the id the store assigned to it.\<close>

definition no_id :: "TraceEventRow \<Rightarrow> TraceEventRow" where
  "no_id r = r\<lparr>e_id := 0\<rparr>"

text \<open>The columns of a row the claims about the proxy speak of: kind, latency, chaos descriptor.\<close>

definition row_view :: "TraceEventRow \<Rightarrow> string \<times> int option \<times> string option" where
  "row_view r = (event_type r, latency_ms r, chaos_applied r)"

section \<open>Mutation generator (\<open>generateMutations\<close>, last part of src/mcp-debug/src/chaos/injector.ts)\<close>

datatype MutationType =
  MissingRequired | WrongType | NullValue | EmptyValue | Boundary | ExtraField | Valid

fun mutation_type_text :: "MutationType \<Rightarrow> string" where
  "mutation_type_text MissingRequired = ''missing_required''"
| "mutation_type_text WrongType = ''wrong_type''"
| "mutation_type_text NullValue = ''null_value''"
| "mutation_type_text EmptyValue = ''empty_value''"
| "mutation_type_text Boundary = ''boundary''"
| "mutation_type_text ExtraField = ''extra_field''"
| "mutation_type_text Valid = ''valid''"

record Mutation =
  m_type :: MutationType
  m_field :: "json option"
  m_input :: json
  m_description :: string

text \<open>
  A schema is the value the server declared as \<open>inputSchema\<close>, whatever its shape; the
  generator reads \<open>properties\<close> and \<open>required\<close> from it and \<open>type\<close> from every
  property, and throws a \<open>TypeError\<close> where JavaScript does: reading \<open>type\<close> from
  \<open>null\<close>, or looping over a \<open>required\<close> that is not iterable.
\<close>

text \<open>\<open>v ?? d\<close>.\<close>

definition nullish_or :: "json option \<Rightarrow> json \<Rightarrow> json" where
  "nullish_or v d = (case v of None \<Rightarrow> d | Some JNull \<Rightarrow> d | Some j \<Rightarrow> j)"

text \<open>
  A string of the program is a sequence of UTF-16 code units, and of bytes here. A
  byte starts a character unless it is a continuation byte (\<open>0x80\<close> to \<open>0xBF\<close>); a
  character of four bytes takes two code units, any other one.
\<close>

definition continuation_byte :: "char \<Rightarrow> bool" where
  "continuation_byte c = (128 \<le> (of_char c :: nat) \<and> (of_char c :: nat) < 192)"

definition utf16_length :: "string \<Rightarrow> nat" where
  "utf16_length s =
     length (filter (\<lambda>c. \<not> continuation_byte c) s)
     + length (filter (\<lambda>c. 240 \<le> (of_char c :: nat)) s)"

text \<open>The characters of a string, as \<open>for (const c of s)\<close> visits them.\<close>

function characters :: "string \<Rightarrow> string list" where
  "characters [] = []"
| "characters (c # s) =
     (c # takeWhile continuation_byte s) # characters (dropWhile continuation_byte s)"
  by pat_completeness auto
termination
  by (relation "measure length") (auto simp: length_dropWhile_le less_Suc_eq_le)

text \<open>
  \<open>for (const x of v)\<close>: the elements of an array, the characters of a string; any other
  value that \<open>JSON.parse\<close> gives is not iterable (\<open>None\<close>).
\<close>

fun iterate :: "json \<Rightarrow> json list option" where
  "iterate (JArr xs) = Some xs"
| "iterate (JStr s) = Some (map JStr (characters s))"
| "iterate j = None"

text \<open>
  The loops over \<open>Object.entries(properties)\<close> use the key and the \<open>type\<close> of the
  value. \<open>fields\<close> lists these pairs: for an object its entries, for an array its
  indices, for a string the indices of its code units (a character of a string has no
  \<open>type\<close>), for a number or a boolean nothing. \<open>None\<close> is where reading \<open>type\<close>
  throws: an entry that is \<open>null\<close>.
\<close>

definition entries :: "json \<Rightarrow> (string \<times> json) list" where
  "entries properties =
     (case properties of
        JObj kvs \<Rightarrow> kvs
      | JArr xs \<Rightarrow> zip (map show_nat [0..<length xs]) xs
      | JStr s \<Rightarrow> map (\<lambda>i. (show_nat i, JStr [])) [0..<utf16_length s]
      | _ \<Rightarrow> [])"

definition fields :: "json \<Rightarrow> (string \<times> json option) list option" where
  "fields properties =
     (if list_ex (\<lambda>(k, v). v = JNull) (entries properties) then None
      else Some (map (\<lambda>(k, v). (k, obj_get v ''type'')) (entries properties)))"

text \<open>The two \<open>switch\<close> statements compare the type with \<open>===\<close>.\<close>

definition getDefaultValue :: "json option \<Rightarrow> json" where
  "getDefaultValue t =
     (if t = Some (JStr ''string'') then JStr ''test_value''
      else if t = Some (JStr ''number'') \<or> t = Some (JStr ''integer'') then JNum 42
      else if t = Some (JStr ''boolean'') then JBool True
      else if t = Some (JStr ''array'') then JArr []
      else if t = Some (JStr ''object'') then JObj []
      else JNull)"

definition getWrongTypeValue :: "json option \<Rightarrow> json" where
  "getWrongTypeValue t =
     (if t = Some (JStr ''string'') then JNum 12345
      else if t = Some (JStr ''number'') \<or> t = Some (JStr ''integer'') then JStr ''not_a_number''
      else if t = Some (JStr ''boolean'') then JStr ''not_a_boolean''
      else if t = Some (JStr ''array'') then JStr ''not_an_array''
      else if t = Some (JStr ''object'') then JStr ''not_an_object''
      else JObj [])"

fun js_typeof :: "json \<Rightarrow> string" where
  "js_typeof JNull = ''object''"
| "js_typeof (JBool b) = ''boolean''"
| "js_typeof (JNum n) = ''number''"
| "js_typeof (JStr s) = ''string''"
| "js_typeof (JArr xs) = ''object''"
| "js_typeof (JObj kvs) = ''object''"

text \<open>
  \<open>generateValidInput\<close>, given the fields. The assignment \<open>result[field] = value\<close> makes
  an entry except for the key \<open>__proto__\<close>, where it sets the prototype (or does nothing)
  and \<open>result\<close> gets no entry.
\<close>

definition generateValidInput :: "(string \<times> json option) list \<Rightarrow> (string \<times> json) list" where
  "generateValidInput fs =
     fold (\<lambda>(field, t) result.
             if field = ''__proto__'' then result
             else AList.update field (getDefaultValue t) result) fs []"

text \<open>
  \<open>generateMutations\<close>; \<open>None\<close> when it throws. An object literal with a computed key,
  \<open>{...validInput, [field]: v}\<close>, makes an entry for every key.
\<close>

definition generateMutations :: "json \<Rightarrow> Mutation list option" where
  "generateMutations schema =
     (case (fields (nullish_or (obj_get schema ''properties'') (JObj [])),
            iterate (nullish_or (obj_get schema ''required'') (JArr []))) of
        (Some props, Some req) \<Rightarrow>
          (let validInput = generateValidInput props
           in Some
             ([\<lparr>m_type = Valid, m_field = None, m_input = JObj validInput,
                m_description = ''Valid input (control case)''\<rparr>]
              @ map (\<lambda>field.
                  \<lparr>m_type = MissingRequired, m_field = Some field,
                   m_input = JObj (AList.delete (js_String field) validInput),
                   m_description = ''Missing required field: '' @ js_String field\<rparr>) req
              @ map (\<lambda>(field, t).
                  (let wrongTypeValue = getWrongTypeValue t
                   in \<lparr>m_type = WrongType, m_field = Some (JStr field),
                       m_input = JObj (AList.update field wrongTypeValue validInput),
                       m_description =
                         ''Wrong type for '' @ field @ '': expected '' @ String_opt t
                         @ '', got '' @ js_typeof wrongTypeValue\<rparr>)) props
              @ map (\<lambda>(field, t).
                  \<lparr>m_type = NullValue, m_field = Some (JStr field),
                   m_input = JObj (AList.update field JNull validInput),
                   m_description = ''Null value for field: '' @ field\<rparr>) props
              @ concat (map (\<lambda>(field, t).
                  if t = Some (JStr ''string'')
                  then [\<lparr>m_type = EmptyValue, m_field = Some (JStr field),
                         m_input = JObj (AList.update field (JStr []) validInput),
                         m_description = ''Empty string for field: '' @ field\<rparr>]
                  else if t = Some (JStr ''array'')
                  then [\<lparr>m_type = EmptyValue, m_field = Some (JStr field),
                         m_input = JObj (AList.update field (JArr []) validInput),
                         m_description = ''Empty array for field: '' @ field\<rparr>]
                  else []) props)
              @ concat (map (\<lambda>(field, t).
                  if t = Some (JStr ''string'')
                  then [\<lparr>m_type = Boundary, m_field = Some (JStr field),
                         m_input = JObj (AList.update field
                                           (JStr (replicate 10000 CHR ''x'')) validInput),
                         m_description = ''Very long string for field: '' @ field\<rparr>,
                        \<lparr>m_type = Boundary, m_field = Some (JStr field),
                         m_input = JObj (AList.update field
                                           (JStr ''../../../etc/passwd'') validInput),
                         m_description = ''Path traversal attempt for field: '' @ field\<rparr>]
                  else if t = Some (JStr ''number'') \<or> t = Some (JStr ''integer'')
                  then [\<lparr>m_type = Boundary, m_field = Some (JStr field),
                         m_input = JObj (AList.update field (JNum (- 1)) validInput),
                         m_description = ''Negative number for field: '' @ field\<rparr>,
                        \<lparr>m_type = Boundary, m_field = Some (JStr field),
                         m_input = JObj (AList.update field (JNum 9007199254740991) validInput),
                         m_description = ''Max safe integer for field: '' @ field\<rparr>]
                  else []) props)
              @ [\<lparr>m_type = ExtraField, m_field = Some (JStr ''_unknown_field''),
                   m_input = JObj (AList.update ''_unknown_field'' (JStr ''unexpected'') validInput),
                   m_description = ''Extra unknown field added''\<rparr>]))
      | _ \<Rightarrow> None)"

section \<open>Stress runner (\<open>runStressTests\<close> in src/unnamed/part_003)\<close>

text \<open>\<open>parseCommand\<close>: the quote-aware splitter, one character at a time.\<close>

record SplitState =
  parts :: "string list"
  curr :: string
  inQuote :: bool
  quoteChar :: char

definition split_step :: "char \<Rightarrow> SplitState \<Rightarrow> SplitState" where
  "split_step c s =
     (if inQuote s then (if c = quoteChar s then s\<lparr>inQuote := False\<rparr>
                         else s\<lparr>curr := curr s @ [c]\<rparr>)
      else if c = CHR 0x22 \<or> c = CHR 0x27 then s\<lparr>inQuote := True, quoteChar := c\<rparr>
      else if c = CHR '' '' \<or> c = CHR 0x09
      then (if curr s \<noteq> [] then s\<lparr>parts := parts s @ [curr s], curr := []\<rparr> else s)
      else s\<lparr>curr := curr s @ [c]\<rparr>)"

definition parseCommand :: "string \<Rightarrow> string list" where
  "parseCommand target =
     (let s = fold split_step target
                \<lparr>parts = [], curr = [], inQuote = False, quoteChar = CHR 0x22\<rparr>
      in if curr s \<noteq> [] then parts s @ [curr s] else parts s)"

text \<open>
  What the server under test does with one request: the response with the request's id
  (an object, then), or nothing before the timeout. \<open>sendRequest\<close> turns that into its
  result; the error is the \<open>message\<close> of the response's error, whatever that is.
\<close>

datatype ServerReply = Replied json | NoReply

record SendResult =
  sr_result :: "json option"
  sr_error :: "json option"
  sr_timedOut :: bool

definition sendRequest :: "ServerReply \<Rightarrow> SendResult" where
  "sendRequest reply =
     (case reply of
        NoReply \<Rightarrow>
          \<lparr>sr_result = None, sr_error = Some (JStr ''Timeout waiting for response''),
           sr_timedOut = True\<rparr>
      | Replied response \<Rightarrow>
          if truthy_opt (obj_get response ''error'')
          then \<lparr>sr_result = None,
                sr_error = obj_get (the (obj_get response ''error'')) ''message'',
                sr_timedOut = False\<rparr>
          else \<lparr>sr_result = obj_get response ''result'', sr_error = None, sr_timedOut = False\<rparr>)"

text \<open>The surroundings of the \<open>k\<close>-th probe of a sweep: the reply and two clock readings.\<close>

record ProbeEnv =
  reply :: ServerReply
  elapsed :: int
  probe_ts :: timestamp

record Sweep =
  sw_store :: Store
  passed :: int
  graceful :: int
  crashed :: int
  probes :: nat

definition mutation_json :: "Mutation \<Rightarrow> json" where
  "mutation_json m =
     JObj [(''type'', JStr (mutation_type_text (m_type m))),
           (''description'', JStr (m_description m)),
           (''input'', m_input m)]"

text \<open>
  One pass of the inner loop, for a tool with the name \<open>tool\<close> (\<open>tool.name\<close>, whatever
  it is). \<open>Inl\<close> is the store at the moment \<open>insertTraceEvent\<close> threw.
\<close>

definition probe_step ::
  "(nat \<Rightarrow> ProbeEnv) \<Rightarrow> string \<Rightarrow> json option \<Rightarrow> Sweep \<Rightarrow> Mutation \<Rightarrow> Store + Sweep" where
  "probe_step env rid tool sw mutation =
     (let e = env (probes sw);
          response = sendRequest (reply e);
          outcome = classifyOutcome_any (sr_error response) (sr_result response)
                      (sr_timedOut response);
          ev = StressMutation (probe_ts e) tool (mutation_json mutation) outcome (sr_result response)
                 (if truthy_opt (sr_error response)
                  then Some (JObj [(''message'', the (sr_error response))]) else None)
                 (elapsed e)
      in case insertTraceEvent (sw_store sw) rid ev of
           Inl err \<Rightarrow> Inl (sw_store sw)
         | Inr st' \<Rightarrow>
             Inr (sw\<lparr>sw_store := st',
                     passed := (if outcome = Pass then passed sw + 1 else passed sw),
                     graceful := (if outcome = GracefulFail then graceful sw + 1 else graceful sw),
                     crashed := (if outcome = CrashOrHang then crashed sw + 1 else crashed sw),
                     probes := Suc (probes sw)\<rparr>))"

fun probe_all ::
  "(nat \<Rightarrow> ProbeEnv) \<Rightarrow> string \<Rightarrow> json option \<Rightarrow> Sweep \<Rightarrow> Mutation list \<Rightarrow> Store + Sweep" where
  "probe_all env rid tool sw [] = Inr sw"
| "probe_all env rid tool sw (m # ms) =
     (case probe_step env rid tool sw m of
        Inl st \<Rightarrow> Inl st
      | Inr sw' \<Rightarrow> probe_all env rid tool sw' ms)"

text \<open>
  The loop over the tools. \<open>Inl\<close> is the store at the moment something threw: reading
  \<open>inputSchema\<close> from a tool that is \<open>null\<close>, \<open>generateMutations\<close>, or an insert.
\<close>

fun sweep_tools :: "(nat \<Rightarrow> ProbeEnv) \<Rightarrow> string \<Rightarrow> Sweep \<Rightarrow> json list \<Rightarrow> Store + Sweep" where
  "sweep_tools env rid sw [] = Inr sw"
| "sweep_tools env rid sw (t # ts) =
     (if t = JNull then Inl (sw_store sw)
      else if \<not> truthy_opt (obj_get t ''inputSchema'') then sweep_tools env rid sw ts
      else (case generateMutations (the (obj_get t ''inputSchema'')) of
              None \<Rightarrow> Inl (sw_store sw)
            | Some ms \<Rightarrow>
                (case probe_all env rid (obj_get t ''name'') sw ms of
                   Inl st \<Rightarrow> Inl st
                 | Inr sw' \<Rightarrow> sweep_tools env rid sw' ts)))"

text \<open>\<open>Math.round((goodOutcomes / total) * 100)\<close>, in number arithmetic.\<close>

definition score_of :: "int \<Rightarrow> int \<Rightarrow> int" where
  "score_of goodOutcomes total' =
     \<lfloor>value_of (Math_round (num_mul (num_div (num_of_int goodOutcomes) (num_of_int total'))
                                       (Finite 100)))\<rfloor>"

text \<open>
  \<open>runStressTests\<close>. \<open>toolsResult\<close> is the \<open>result\<close> of the reply to \<open>tools/list\<close>
  (absent when the reply had none); the tools are \<open>toolsResult?.tools ?? []\<close>. \<open>now\<close>
  and \<open>later\<close> are the clock at the start and at the end. Whatever is thrown inside
  the \<open>try\<close> block ends the run as failed.
\<close>

definition runStressTests ::
  "Store \<Rightarrow> (nat \<Rightarrow> ProbeEnv) \<Rightarrow> timestamp \<Rightarrow> timestamp \<Rightarrow> string \<Rightarrow> string \<Rightarrow> json option
     \<Rightarrow> Store" where
  "runStressTests st env now later agentId rid toolsResult =
     (case getAgent st agentId of
        None \<Rightarrow> updateRunStatus st now rid Failed None None
      | Some agent \<Rightarrow>
          if parseCommand (a_target agent) = []
          then updateRunStatus st now rid Failed None None
          else (let st1 = updateRunStatus st now rid Running None None
                in case (case iterate (nullish_or (opt_get toolsResult ''tools'') (JArr [])) of
                           None \<Rightarrow> Inl st1
                         | Some toolList \<Rightarrow>
                             sweep_tools env rid
                               \<lparr>sw_store = st1, passed = 0, graceful = 0, crashed = 0, probes = 0\<rparr>
                               toolList) of
                     Inl st' \<Rightarrow> updateRunStatus st' later rid Failed None None
                   | Inr sw \<Rightarrow>
                       (let total' = passed sw + graceful sw + crashed sw;
                            goodOutcomes = passed sw + graceful sw;
                            score = (if total' > 0 then score_of goodOutcomes total' else 0);
                            st2 = updateStressStats (sw_store sw) rid (passed sw) (graceful sw)
                                    (crashed sw) score
                        in updateRunStatus st2 later rid Completed None None)))"

subsection \<open>Notions used to state what a sweep leaves in the store\<close>

text \<open>The \<open>stress_mutation\<close> rows journaled for a run.\<close>

definition mutation_rows :: "Store \<Rightarrow> string \<Rightarrow> TraceEventRow list" where
  "mutation_rows st rid =
     filter (\<lambda>e. run_id e = rid \<and> event_type e = ''stress_mutation'') (trace_events st)"

text \<open>The sum of a run's three stress counters.\<close>

definition stress_total :: "Run \<Rightarrow> int" where
  "stress_total r = stress_passed r + stress_graceful r + stress_crashed r"

text \<open>
  A row carries an outcome when the text of its \<open>params_json\<close> closes with an
  \<open>outcome\<close> entry holding one of the three outcome names.
\<close>

definition outcome_tail :: "string \<Rightarrow> string" where
  "outcome_tail name =
     [CHR '','', CHR 0x22] @ ''outcome'' @ [CHR 0x22, CHR '':'', CHR 0x22] @ name
     @ [CHR 0x22, CHR ''}'']"

definition carries_outcome :: "TraceEventRow \<Rightarrow> bool" where
  "carries_outcome row =
     (case params_json row of
        None \<Rightarrow> False
      | Some s \<Rightarrow>
          list_ex (\<lambda>name. suffix (outcome_tail name) s)
            [''pass'', ''graceful_fail'', ''crash_or_hang''])"

text \<open>What holds of a sweep between two probes.\<close>

definition sweep_inv :: "string \<Rightarrow> Sweep \<Rightarrow> bool" where
  "sweep_inv rid sw =
     (list_ex (\<lambda>r. r_id r = rid) (runs (sw_store sw)) \<and>
      passed sw + graceful sw + crashed sw = int (length (mutation_rows (sw_store sw) rid)) \<and>
      list_all carries_outcome (mutation_rows (sw_store sw) rid))"

text \<open>What holds of the store a sweep is thrown out with.\<close>

definition thrown_inv :: "string \<Rightarrow> Store \<Rightarrow> Store \<Rightarrow> bool" where
  "thrown_inv rid st0 st =
     (runs st = runs st0 \<and> list_all carries_outcome (mutation_rows st rid))"

section \<open>Diff engine (src/mcp-debug/src/diff/comparator.ts)\<close>

text \<open>
  A trace as \<open>diffCommand\<close> loads it: the calls of a recorded session, each with the
  method of its request (\<open>jsonlToLegacy\<close> takes it from the \<open>rpc_request\<close> event, the
  legacy recorder from its caller) and the latency as a number.
\<close>

record TraceCall =
  c_id :: int
  c_timestamp :: timestamp
  c_method :: string
  c_params :: "json option"
  c_result :: "json option"
  c_error :: "json option"
  c_latencyMs :: number
  c_chaos :: "ChaosApplied option"

record Trace =
  t_sessionId :: string
  t_startTime :: timestamp
  t_endTime :: "timestamp option"
  t_target :: string
  calls :: "TraceCall list"

record CallDiff =
  d_method :: string
  d_params :: "json option"
  d_index :: int

record CallChange =
  ch_method :: string
  ch_index :: nat
  baselineParams :: "json option"
  currentParams :: "json option"
  baselineResult :: "json option"
  currentResult :: "json option"
  paramsDiff :: "string option"
  resultDiff :: "string option"

record LatencyChange =
  l_method :: string
  l_index :: nat
  baselineLatency :: number
  currentLatency :: number
  changePercent :: number

record TraceComparison =
  baselineCalls :: nat
  currentCalls :: nat
  added :: "CallDiff list"
  removed :: "CallDiff list"
  changed :: "CallChange list"
  latencyChanges :: "LatencyChange list"

text \<open>\<open>((current - baseline) / baseline) * 100\<close>, in number arithmetic.\<close>

definition latency_change :: "number \<Rightarrow> number \<Rightarrow> number" where
  "latency_change baseline current =
     num_mul (num_div (num_sub current baseline) baseline) (Finite 100)"

text \<open>\<open>Math.abs(x) > 20\<close>.\<close>

definition abs_exceeds_20 :: "number \<Rightarrow> bool" where
  "abs_exceeds_20 x = num_less (Finite 20) (num_abs x)"

text \<open>
  \<open>groupByMethod\<close>: a \<open>Map\<close> from method to the calls with that method, keys in order
  of first occurrence.
\<close>

definition group_step :: "TraceCall \<Rightarrow> (string \<times> TraceCall list) list \<Rightarrow> (string \<times> TraceCall list) list" where
  "group_step call m =
     (let existing = (case map_of m (c_method call) of Some xs \<Rightarrow> xs | None \<Rightarrow> [])
      in AList.update (c_method call) (existing @ [call]) m)"

definition groupByMethod :: "TraceCall list \<Rightarrow> (string \<times> TraceCall list) list" where
  "groupByMethod cs = fold group_step cs []"

definition call_diff :: "string \<Rightarrow> TraceCall \<Rightarrow> CallDiff" where
  "call_diff meth call = \<lparr>d_method = meth, d_params = c_params call, d_index = c_id call\<rparr>"

text \<open>First loop: methods of the current trace that the baseline lacks.\<close>

definition added_step ::
  "(string \<times> TraceCall list) list \<Rightarrow> string \<times> TraceCall list \<Rightarrow> TraceComparison \<Rightarrow> TraceComparison" where
  "added_step baselineByMethod entry result =
     (if map_of baselineByMethod (fst entry) = None
      then result\<lparr>added := added result @ map (call_diff (fst entry)) (snd entry)\<rparr>
      else result)"

text \<open>Second loop: methods of the baseline that the current trace lacks.\<close>

definition removed_step ::
  "(string \<times> TraceCall list) list \<Rightarrow> string \<times> TraceCall list \<Rightarrow> TraceComparison \<Rightarrow> TraceComparison" where
  "removed_step currentByMethod entry result =
     (if map_of currentByMethod (fst entry) = None
      then result\<lparr>removed := removed result @ map (call_diff (fst entry)) (snd entry)\<rparr>
      else result)"

text \<open>The body of the innermost loop, at index \<open>i < minLength\<close>.\<close>

definition pair_step ::
  "string \<Rightarrow> TraceCall list \<Rightarrow> TraceCall list \<Rightarrow> nat \<Rightarrow> TraceComparison \<Rightarrow> TraceComparison" where
  "pair_step meth bs cs i result =
     (let baselineCall = bs ! i;
          currentCall = cs ! i;
          paramsEqual = (stringify_opt (c_params baselineCall) = stringify_opt (c_params currentCall));
          resultEqual = (stringify_opt (c_result baselineCall) = stringify_opt (c_result currentCall));
          r1 = (if \<not> paramsEqual \<or> \<not> resultEqual
                then result\<lparr>changed := changed result @
                       [\<lparr>ch_method = meth, ch_index = i,
                         baselineParams = c_params baselineCall,
                         currentParams = c_params currentCall,
                         baselineResult = c_result baselineCall,
                         currentResult = c_result currentCall,
                         paramsDiff = (if paramsEqual then None else Some ''Parameters changed''),
                         resultDiff = (if resultEqual then None else Some ''Result changed'')\<rparr>]\<rparr>
                else result);
          latencyChange = latency_change (c_latencyMs baselineCall) (c_latencyMs currentCall)
      in if abs_exceeds_20 latencyChange
         then r1\<lparr>latencyChanges := latencyChanges r1 @
                [\<lparr>l_method = meth, l_index = i,
                  baselineLatency = c_latencyMs baselineCall,
                  currentLatency = c_latencyMs currentCall,
                  changePercent = latencyChange\<rparr>]\<rparr>
         else r1)"

text \<open>Third loop: methods on both sides.\<close>

definition compare_step ::
  "(string \<times> TraceCall list) list \<Rightarrow> string \<times> TraceCall list \<Rightarrow> TraceComparison \<Rightarrow> TraceComparison" where
  "compare_step currentByMethod entry result =
     (case map_of currentByMethod (fst entry) of
        None \<Rightarrow> result
      | Some cs \<Rightarrow>
          (let bs = snd entry;
               r1 = (if length bs \<noteq> length cs
                     then (if length cs > length bs
                           then result\<lparr>added := added result @
                                  map (call_diff (fst entry)) (drop (length bs) cs)\<rparr>
                           else result\<lparr>removed := removed result @
                                  map (call_diff (fst entry)) (drop (length cs) bs)\<rparr>)
                     else result);
               minLength = min (length bs) (length cs)
           in fold (pair_step (fst entry) bs cs) [0..<minLength] r1))"

definition compareTraces :: "Trace \<Rightarrow> Trace \<Rightarrow> TraceComparison" where
  "compareTraces baseline current =
     (let result = \<lparr>baselineCalls = length (calls baseline),
                    currentCalls = length (calls current),
                    added = [], removed = [], changed = [], latencyChanges = []\<rparr>;
          baselineByMethod = groupByMethod (calls baseline);
          currentByMethod = groupByMethod (calls current);
          r1 = fold (added_step baselineByMethod) currentByMethod result;
          r2 = fold (removed_step currentByMethod) baselineByMethod r1
      in fold (compare_step currentByMethod) baselineByMethod r2)"

subsection \<open>Notions used to state what the diff engine computes\<close>

text \<open>The calls of a trace with a given grouping key, in trace order.\<close>

definition calls_of :: "string \<Rightarrow> Trace \<Rightarrow> TraceCall list" where
  "calls_of meth t = filter (\<lambda>c. c_method c = meth) (calls t)"





text \<open>What one index contributes to \<open>changed\<close> and to \<open>latencyChanges\<close>.\<close>

definition changed_at :: "string \<Rightarrow> TraceCall list \<Rightarrow> TraceCall list \<Rightarrow> nat \<Rightarrow> CallChange list" where
  "changed_at meth bs cs i =
     changed (pair_step meth bs cs i
                \<lparr>baselineCalls = 0, currentCalls = 0, added = [], removed = [], changed = [],
                 latencyChanges = []\<rparr>)"

definition latency_at :: "string \<Rightarrow> TraceCall list \<Rightarrow> TraceCall list \<Rightarrow> nat \<Rightarrow> LatencyChange list" where
  "latency_at meth bs cs i =
     latencyChanges (pair_step meth bs cs i
                \<lparr>baselineCalls = 0, currentCalls = 0, added = [], removed = [], changed = [],
                 latencyChanges = []\<rparr>)"

text \<open>What one baseline group contributes to each list in the third loop.\<close>

definition changed_of ::
  "(string \<times> TraceCall list) list \<Rightarrow> string \<times> TraceCall list \<Rightarrow> CallChange list" where
  "changed_of currentByMethod entry =
     (case map_of currentByMethod (fst entry) of
        None \<Rightarrow> []
      | Some cs \<Rightarrow> concat (map (changed_at (fst entry) (snd entry) cs)
                             [0..<min (length (snd entry)) (length cs)]))"

definition latency_of ::
  "(string \<times> TraceCall list) list \<Rightarrow> string \<times> TraceCall list \<Rightarrow> LatencyChange list" where
  "latency_of currentByMethod entry =
     (case map_of currentByMethod (fst entry) of
        None \<Rightarrow> []
      | Some cs \<Rightarrow> concat (map (latency_at (fst entry) (snd entry) cs)
                             [0..<min (length (snd entry)) (length cs)]))"

definition surplus_added ::
  "(string \<times> TraceCall list) list \<Rightarrow> string \<times> TraceCall list \<Rightarrow> CallDiff list" where
  "surplus_added currentByMethod entry =
     (case map_of currentByMethod (fst entry) of
        None \<Rightarrow> []
      | Some cs \<Rightarrow> map (call_diff (fst entry)) (drop (length (snd entry)) cs))"

definition surplus_removed ::
  "(string \<times> TraceCall list) list \<Rightarrow> string \<times> TraceCall list \<Rightarrow> CallDiff list" where
  "surplus_removed currentByMethod entry =
     (case map_of currentByMethod (fst entry) of
        None \<Rightarrow> []
      | Some cs \<Rightarrow> map (call_diff (fst entry)) (drop (length cs) (snd entry)))"

section \<open>Run comparison of the viewer (\<open>compareRuns\<close> in src/mcp-debug/ui/src/components/DiffViewer.tsx)\<close>





















section \<open>Concrete scenarios\<close>

text \<open>Stores built with the operations of the journal, for the scenarios of the specification.\<close>

definition store_of :: "db_error + 'a \<times> Store \<Rightarrow> Store" where
  "store_of r = (case r of Inr (x, s) \<Rightarrow> s | Inl e \<Rightarrow> empty_store)"

definition inserted :: "db_error + Store \<Rightarrow> Store" where
  "inserted r = (case r of Inr s \<Rightarrow> s | Inl e \<Rightarrow> empty_store)"

text \<open>
  Project \<open>P\<close> with agent \<open>A\<close>, which has the runs \<open>R1\<close> (two events) and \<open>R2\<close> (one
  event).
\<close>

definition cascade_store :: Store where
  "cascade_store =
     (let s1 = store_of (createProject empty_store ''P'' 1 ''demo'' None);
          s2 = store_of (createAgent s1 ''A'' 2 ''P'' ''fs'' ''node server.js'' None);
          s3 = snd (createRun s2 ''R1'' 3 ''node server.js'' None (Some ''A'') Proxy);
          s4 = inserted (insertTraceEvent s3 ''R1''
                 (RpcRequest (Some (JNum 1)) (JStr ''tools/list'') None 4));
          s5 = inserted (insertTraceEvent s4 ''R1''
                 (RpcResponse (Some (JNum 1)) (Some (JObj [(''tools'', JArr [])])) None 5 (Some 1)));
          s6 = snd (createRun s5 ''R2'' 6 ''node server.js'' None (Some ''A'') Proxy)
      in inserted (insertTraceEvent s6 ''R2''
                 (RpcRequest (Some (JNum 1)) (JStr ''tools/list'') None 7)))"

text \<open>A run taken through \<open>pending\<close>, \<open>running\<close> and \<open>completed\<close>.\<close>

definition completed_store :: Store where
  "completed_store =
     (let s1 = snd (createRun empty_store ''R1'' 1 ''node server.js'' None None Proxy);
          s2 = updateRunStatus s1 2 ''R1'' Running None None
      in updateRunStatus s2 3 ''R1'' Completed (Some 0) (Some 0))"

text \<open>
  Scenario 2 of the specification: the chaos configuration
  \<open>{seed: 1, tools: {read_file: {delayMs: {p: 1.0, value: 500}}}}\<close>, a proxy started
  with it on an empty store, one \<open>tools/call\<close> of \<open>read_file\<close> and its response.
\<close>

definition scenario2_chaos :: ChaosConfig where
  "scenario2_chaos =
     \<lparr>seed = Some 1, global = None,
      tools = [(''read_file'',
                no_rule\<lparr>delayMs := Some (Prob \<lparr>pv_p = 1, pv_value = Some 500,
                                                 pv_min = None, pv_max = None\<rparr>)\<rparr>)]\<rparr>"

definition blank_recorder :: TraceRecorder where
  "blank_recorder =
     \<lparr>sessionId = [], outputPath = None, callCount = 0, errorCount = 0, pendingCalls = [],
      runId = None, rec_agentId = None, file_lines = [], db = None\<rparr>"

definition scenario2_proxy :: ProxyState where
  "scenario2_proxy =
     \<lparr>recorder =
        (case newTraceRecorder ''S'' ''R'' 100 ''node server.js'' ''node'' [''server.js''] None
                (Some scenario2_chaos) None (Some empty_store) None of
           Inr rc \<Rightarrow> rc
         | Inl e \<Rightarrow> blank_recorder),
      injector = Some (newChaosInjector scenario2_chaos 1700000000000)\<rparr>"

definition scenario2_request :: json where
  "scenario2_request =
     JObj [(''jsonrpc'', JStr ''2.0''), (''id'', JNum 1), (''method'', JStr ''tools/call''),
           (''params'', JObj [(''name'', JStr ''read_file''),
                              (''arguments'', JObj [(''path'', JStr ''/a'')])])]"

definition scenario2_response :: json where
  "scenario2_response =
     JObj [(''jsonrpc'', JStr ''2.0''), (''id'', JNum 1),
           (''result'', JObj [(''content'', JArr [])])]"

definition scenario2_after_request :: "Effect list \<times> ProxyState" where
  "scenario2_after_request =
     on_stdin_line scenario2_proxy 1000 101 (JSON_stringify scenario2_request)
       (Some scenario2_request)"

definition scenario2_after_response :: "Effect list \<times> ProxyState" where
  "scenario2_after_response =
     on_target_line (snd scenario2_after_request) 1600 102 (JSON_stringify scenario2_response)
       (Some scenario2_response)"

text \<open>A response with an id that was never requested, on the same proxy.\<close>

definition stray_response :: json where
  "stray_response =
     JObj [(''jsonrpc'', JStr ''2.0''), (''id'', JNum 99), (''result'', JObj [])]"

text \<open>
  Traces for the diff engine. A call of a tool is a \<open>tools/call\<close> request with the
  tool's name and arguments in its parameters.
\<close>

definition tool_params :: "string \<Rightarrow> json \<Rightarrow> json option" where
  "tool_params tool args = Some (JObj [(''name'', JStr tool), (''arguments'', args)])"

definition example_call :: "int \<Rightarrow> string \<Rightarrow> json \<Rightarrow> json option \<Rightarrow> number \<Rightarrow> TraceCall" where
  "example_call n tool args res lat =
     \<lparr>c_id = n, c_timestamp = 0, c_method = ''tools/call'', c_params = tool_params tool args,
      c_result = res, c_error = None, c_latencyMs = lat, c_chaos = None\<rparr>"

definition example_trace :: "TraceCall list \<Rightarrow> Trace" where
  "example_trace cs =
     \<lparr>t_sessionId = ''session'', t_startTime = 0, t_endTime = None, t_target = ''node server.js'',
      calls = cs\<rparr>"


text \<open>
  Scenario 5 of the specification: one \<open>write_file\<close> call on each side, the path changed
  and the latency up from 50 to 120.
\<close>

definition scenario5_baseline :: Trace where
  "scenario5_baseline =
     example_trace
       [example_call 1 ''write_file'' (JObj [(''path'', JStr ''/a''), (''content'', JStr ''x'')])
          None (Finite 50)]"

definition scenario5_current :: Trace where
  "scenario5_current =
     example_trace
       [example_call 1 ''write_file'' (JObj [(''path'', JStr ''/b''), (''content'', JStr ''x'')])
          None (Finite 120)]"









text \<open>
  A stress run interrupted by the start of the next one. Agent \<open>A\<close> gets the stress run
  \<open>R1\<close>, whose sweep marks it running and journals its first probe (the server answers
  every request with an empty result); then a second stress run \<open>R2\<close> is created for the
  same agent, as a second \<open>POST /agents/A/stress\<close> does.
\<close>

definition plain_schema :: json where
  "plain_schema = JObj [(''type'', JStr ''object'')]"

definition answering_env :: "nat \<Rightarrow> ProbeEnv" where
  "answering_env k =
     \<lparr>reply = Replied (JObj [(''jsonrpc'', JStr ''2.0''), (''id'', JNum (int k + 3)),
                             (''result'', JObj [])]),
      elapsed = 5, probe_ts = 10 + k\<rparr>"

definition stress_started :: Store where
  "stress_started =
     (let s1 = store_of (createProject empty_store ''P'' 1 ''demo'' None);
          s2 = store_of (createAgent s1 ''A'' 2 ''P'' ''fs'' ''node server.js'' None)
      in snd (createRun s2 ''R1'' 3 ''node server.js'' None (Some ''A'') Stress))"

definition stress_interrupted :: Store where
  "stress_interrupted =
     (let s1 = updateRunStatus stress_started 4 ''R1'' Running None None;
          s2 = (case probe_all answering_env ''R1'' (Some (JStr ''read_file''))
                       \<lparr>sw_store = s1, passed = 0, graceful = 0, crashed = 0, probes = 0\<rparr>
                       (take 1 (the (generateMutations plain_schema))) of
                  Inr sw \<Rightarrow> sw_store sw
                | Inl st \<Rightarrow> st)
      in snd (createRun s2 ''R2'' 20 ''node server.js'' None (Some ''A'') Stress))"

text \<open>The same run when its sweep is left to finish.\<close>

definition stress_finished :: Store where
  "stress_finished =
     runStressTests stress_started answering_env 4 30 ''A'' ''R1''
       (Some (JObj [(''tools'',
                     JArr [JObj [(''name'', JStr ''read_file''),
                                 (''inputSchema'', plain_schema)]])]))"

text \<open>
  The same run when the server declares a second tool whose schema has a property that is
  \<open>null\<close>: \<open>generateMutations\<close> throws on it after the first tool was probed.
\<close>

definition stress_thrown :: Store where
  "stress_thrown =
     runStressTests stress_started answering_env 4 30 ''A'' ''R1''
       (Some (JObj [(''tools'',
                     JArr [JObj [(''name'', JStr ''read_file''),
                                 (''inputSchema'', plain_schema)],
                           JObj [(''name'', JStr ''write_file''),
                                 (''inputSchema'',
                                  JObj [(''type'', JStr ''object''),
                                        (''properties'', JObj [(''path'', JNull)])])]])]))"

section \<open>Properties of the outcome classifier\<close>

text \<open>
  The matcher agrees with the regular expressions of the source: a word is found when the
  text contains it up to the case of ASCII letters, and \<open>a.*b\<close> when \<open>b\<close> follows
  \<open>a\<close> with no line terminator starting in between.
\<close>

lemma match_at_lit:
  "match_at (lit w @ r) s \<longleftrightarrow>
     (\<exists>t v. s = t @ v \<and> map canonicalize t = map canonicalize w \<and> match_at r v)"
proof (induction w arbitrary: s)
  case Nil
  then show ?case by (simp add: lit_def)
next
  case (Cons c w)
  show ?case
  proof (cases s)
    case Nil
    then show ?thesis by (simp add: lit_def)
  next
    case (Cons x xs)
    have "match_at (lit (c # w) @ r) s \<longleftrightarrow> canonicalize x = canonicalize c \<and> match_at (lit w @ r) xs"
      using Cons by (simp add: lit_def)
    also have "\<dots> \<longleftrightarrow> canonicalize x = canonicalize c \<and>
        (\<exists>t v. xs = t @ v \<and> map canonicalize t = map canonicalize w \<and> match_at r v)"
      using Cons.IH [of xs] by simp
    also have "\<dots> \<longleftrightarrow> (\<exists>t v. s = t @ v \<and> map canonicalize t = map canonicalize (c # w) \<and> match_at r v)"
    proof
      assume "canonicalize x = canonicalize c \<and>
        (\<exists>t v. xs = t @ v \<and> map canonicalize t = map canonicalize w \<and> match_at r v)"
      then obtain t v where "canonicalize x = canonicalize c" "xs = t @ v"
          "map canonicalize t = map canonicalize w" "match_at r v"
        by blast
      then have "s = (x # t) @ v \<and> map canonicalize (x # t) = map canonicalize (c # w) \<and> match_at r v"
        using Cons by simp
      then show "\<exists>t v. s = t @ v \<and> map canonicalize t = map canonicalize (c # w) \<and> match_at r v"
        by blast
    next
      assume "\<exists>t v. s = t @ v \<and> map canonicalize t = map canonicalize (c # w) \<and> match_at r v"
      then obtain t v where tv: "s = t @ v" "map canonicalize t = map canonicalize (c # w)"
          "match_at r v"
        by blast
      from tv(2) obtain y t' where t: "t = y # t'" by (cases t) auto
      with tv Cons have "x = y" "xs = t' @ v" "canonicalize y = canonicalize c"
          "map canonicalize t' = map canonicalize w"
        by auto
      then show "canonicalize x = canonicalize c \<and>
        (\<exists>t v. xs = t @ v \<and> map canonicalize t = map canonicalize w \<and> match_at r v)"
        using tv(3) by blast
    qed
    finally show ?thesis .
  qed
qed

lemma match_at_star:
  "match_at (AnyStar # r) s \<longleftrightarrow>
     (\<exists>n \<le> length s. (\<forall>i < n. \<not> line_terminator (drop i s)) \<and> match_at r (drop n s))"
proof (induction s)
  case Nil
  then show ?case by simp
next
  case (Cons x xs)
  let ?P = "\<lambda>n. (\<forall>i < n. \<not> line_terminator (drop i (x # xs))) \<and> match_at r (drop n (x # xs))"
  let ?Q = "\<lambda>n. (\<forall>i < n. \<not> line_terminator (drop i xs)) \<and> match_at r (drop n xs)"
  have suc: "?P (Suc m) \<longleftrightarrow> \<not> line_terminator (x # xs) \<and> ?Q m" for m
  proof -
    have "(\<forall>i < Suc m. \<not> line_terminator (drop i (x # xs)))
            \<longleftrightarrow> \<not> line_terminator (x # xs) \<and> (\<forall>i < m. \<not> line_terminator (drop i xs))"
    proof
      assume a: "\<forall>i < Suc m. \<not> line_terminator (drop i (x # xs))"
      have "\<not> line_terminator (drop 0 (x # xs))" using a by blast
      moreover have "\<not> line_terminator (drop i xs)" if "i < m" for i
      proof -
        from that have "Suc i < Suc m" by simp
        with a have "\<not> line_terminator (drop (Suc i) (x # xs))" by blast
        then show ?thesis by simp
      qed
      ultimately show "\<not> line_terminator (x # xs) \<and> (\<forall>i < m. \<not> line_terminator (drop i xs))"
        by simp
    next
      assume a: "\<not> line_terminator (x # xs) \<and> (\<forall>i < m. \<not> line_terminator (drop i xs))"
      show "\<forall>i < Suc m. \<not> line_terminator (drop i (x # xs))"
      proof (intro allI impI)
        fix i assume "i < Suc m"
        then show "\<not> line_terminator (drop i (x # xs))"
          using a by (cases i) simp_all
      qed
    qed
    then show ?thesis by simp
  qed
  have "match_at (AnyStar # r) (x # xs)
          \<longleftrightarrow> match_at r (x # xs) \<or> (\<not> line_terminator (x # xs) \<and> match_at (AnyStar # r) xs)"
    by simp
  also have "\<dots> \<longleftrightarrow> ?P 0 \<or> (\<not> line_terminator (x # xs) \<and> (\<exists>m \<le> length xs. ?Q m))"
    using Cons.IH by simp
  also have "\<dots> \<longleftrightarrow> ?P 0 \<or> (\<exists>m \<le> length xs. ?P (Suc m))"
    unfolding suc by blast
  also have "\<dots> \<longleftrightarrow> (\<exists>n \<le> length (x # xs). ?P n)"
  proof
    assume "?P 0 \<or> (\<exists>m \<le> length xs. ?P (Suc m))"
    then show "\<exists>n \<le> length (x # xs). ?P n"
    proof
      assume "?P 0"
      then show ?thesis by (intro exI [of _ 0]) simp
    next
      assume "\<exists>m \<le> length xs. ?P (Suc m)"
      then obtain m where "m \<le> length xs" "?P (Suc m)" by blast
      then show ?thesis by (intro exI [of _ "Suc m"]) simp
    qed
  next
    assume "\<exists>n \<le> length (x # xs). ?P n"
    then obtain n where n: "n \<le> length (x # xs)" "?P n" by blast
    show "?P 0 \<or> (\<exists>m \<le> length xs. ?P (Suc m))"
    proof (cases n)
      case 0
      then show ?thesis using n(2) by simp
    next
      case (Suc m)
      then have "m \<le> length xs" using n(1) by simp
      then show ?thesis using n(2) Suc by blast
    qed
  qed
  finally show ?case .
qed

lemma re_test_anywhere:
  "re_test r s \<longleftrightarrow> (\<exists>u v. s = u @ v \<and> match_at r v)"
proof (induction s)
  case Nil
  then show ?case by simp
next
  case (Cons x xs)
  show ?case
  proof
    assume "re_test r (x # xs)"
    then consider "match_at r (x # xs)" | "re_test r xs" by auto
    then show "\<exists>u v. x # xs = u @ v \<and> match_at r v"
    proof cases
      case 1
      then have "x # xs = [] @ (x # xs) \<and> match_at r (x # xs)" by simp
      then show ?thesis by blast
    next
      case 2
      with Cons.IH obtain u v where "xs = u @ v" "match_at r v" by blast
      then have "x # xs = (x # u) @ v \<and> match_at r v" by simp
      then show ?thesis by blast
    qed
  next
    assume "\<exists>u v. x # xs = u @ v \<and> match_at r v"
    then obtain u v where uv: "x # xs = u @ v" "match_at r v" by blast
    show "re_test r (x # xs)"
    proof (cases u)
      case Nil
      with uv have "match_at r (x # xs)" by simp
      then show ?thesis by simp
    next
      case (Cons y u')
      with uv have "xs = u' @ v" by simp
      then have "re_test r xs" using Cons.IH uv(2) by blast
      then show ?thesis by simp
    qed
  qed
qed

lemma re_test_word:
  "re_test (lit w) s \<longleftrightarrow>
     (\<exists>u t v. s = u @ t @ v \<and> map canonicalize t = map canonicalize w)"
proof -
  have "match_at (lit w) x \<longleftrightarrow> (\<exists>t v. x = t @ v \<and> map canonicalize t = map canonicalize w)" for x
    using match_at_lit [of w "[]" x] by simp
  then show ?thesis
    unfolding re_test_anywhere by blast
qed

lemma re_test_word_star_word:
  "re_test (lit a @ [AnyStar] @ lit b) s \<longleftrightarrow>
     (\<exists>u t mid t' v. s = u @ t @ mid @ t' @ v \<and>
        map canonicalize t = map canonicalize a \<and>
        (\<forall>i < length mid. \<not> line_terminator (drop i (mid @ t' @ v))) \<and>
        map canonicalize t' = map canonicalize b)"
proof
  assume "re_test (lit a @ [AnyStar] @ lit b) s"
  then obtain u x where ux: "s = u @ x" "match_at (lit a @ [AnyStar] @ lit b) x"
    unfolding re_test_anywhere by blast
  from ux(2) obtain t y where ty: "x = t @ y" "map canonicalize t = map canonicalize a"
      "match_at (AnyStar # lit b) y"
    unfolding match_at_lit [of a "[AnyStar] @ lit b" x] by auto
  from ty(3) obtain n where n: "n \<le> length y" "\<forall>i < n. \<not> line_terminator (drop i y)"
      "match_at (lit b) (drop n y)"
    unfolding match_at_star by blast
  from n(3) obtain t' v where tv: "drop n y = t' @ v" "map canonicalize t' = map canonicalize b"
    using match_at_lit [of b "[]" "drop n y"] by auto
  have y: "y = take n y @ t' @ v"
    using tv(1) by (metis append_take_drop_id)
  have len: "length (take n y) = n" using n(1) by simp
  have "s = u @ t @ take n y @ t' @ v" using ux(1) ty(1) y by simp
  moreover have "\<forall>i < length (take n y). \<not> line_terminator (drop i (take n y @ t' @ v))"
    using n(2) len y by simp
  ultimately show "\<exists>u t mid t' v. s = u @ t @ mid @ t' @ v \<and>
        map canonicalize t = map canonicalize a \<and>
        (\<forall>i < length mid. \<not> line_terminator (drop i (mid @ t' @ v))) \<and>
        map canonicalize t' = map canonicalize b"
    using ty(2) tv(2) by blast
next
  assume "\<exists>u t mid t' v. s = u @ t @ mid @ t' @ v \<and>
        map canonicalize t = map canonicalize a \<and>
        (\<forall>i < length mid. \<not> line_terminator (drop i (mid @ t' @ v))) \<and>
        map canonicalize t' = map canonicalize b"
  then obtain u t mid t' v where h: "s = u @ t @ mid @ t' @ v"
      "map canonicalize t = map canonicalize a"
      "\<forall>i < length mid. \<not> line_terminator (drop i (mid @ t' @ v))"
      "map canonicalize t' = map canonicalize b"
    by blast
  have 1: "match_at (lit b) (t' @ v)"
    using match_at_lit [of b "[]" "t' @ v"] h(4) by auto
  have 2: "match_at (AnyStar # lit b) (mid @ t' @ v)"
    unfolding match_at_star
    using 1 h(3) by (intro exI [of _ "length mid"]) simp
  have 3: "match_at (lit a @ [AnyStar] @ lit b) (t @ mid @ t' @ v)"
    unfolding match_at_lit [of a "[AnyStar] @ lit b" "t @ mid @ t' @ v"]
    using 2 h(2) by auto
  show "re_test (lit a @ [AnyStar] @ lit b) s"
    unfolding re_test_anywhere using 3 h(1) by blast
qed

text \<open>
  What \<open>classifyOutcome\<close> does on every probe result: timed out gives
  \<open>crash_or_hang\<close>; else an absent or empty error message gives \<open>pass\<close>, whatever the
  response; else a validation-vocabulary match gives \<open>graceful_fail\<close>; else a
  crash-vocabulary match gives \<open>crash_or_hang\<close>; otherwise \<open>graceful_fail\<close>. On every
  probe result but the one with the empty error message this is the rule set of the
  specification.
\<close>

lemma classifyOutcome_rules:
  "classifyOutcome error response timedOut =
     (if timedOut then CrashOrHang
      else if error = None \<or> error = Some [] then Pass
      else if list_ex (\<lambda>p. re_test p (the error)) gracefulPatterns then GracefulFail
      else if list_ex (\<lambda>p. re_test p (the error)) crashPatterns then CrashOrHang
      else GracefulFail) \<and>
   (timedOut \<or> error \<noteq> Some [] \<longrightarrow>
      classifyOutcome error response timedOut = classify_by_rules error timedOut)"
  by (cases error) (simp_all add: classifyOutcome_def classify_by_rules_def falsy_string_def)

text \<open>On an error message that is a string the two readings of the body agree.\<close>

lemma classifyOutcome_any_string:
  "classifyOutcome_any (map_option JStr error) response timedOut
     = classifyOutcome error response timedOut"
  by (cases error)
     (simp_all add: classifyOutcome_any_def classifyOutcome_def truthy_opt_def falsy_string_def)

lemma classifyOutcome_any_example:
  "classifyOutcome_any (Some (JNum 404)) () False = GracefulFail \<and>
   classifyOutcome_any (Some (JNum 0)) () False = Pass \<and>
   classifyOutcome_any (Some JNull) () False = Pass \<and>
   classifyOutcome_any (Some (JArr [])) () False = GracefulFail \<and>
   classifyOutcome_any (Some (JArr [JStr ''fatal''])) () False = CrashOrHang \<and>
   classifyOutcome (Some (''internal'' @ [CHR 0xE2, CHR 0x80, CHR 0xA8] @ ''error'')) () False
     = GracefulFail \<and>
   classifyOutcome (Some (''internal'' @ [CHR 0xE2, CHR 0x80, CHR 0xA7] @ ''error'')) () False
     = CrashOrHang"
  by code_simp

lemma classifyOutcome_rules_example:
  "classifyOutcome (Some ''Invalid argument: path must be a string'') () False = GracefulFail \<and>
   classifyOutcome (Some ''Unexpected PANIC in worker'') () False = CrashOrHang \<and>
   classifyOutcome (Some ''Invalid input caused an unexpected exception'') () False = GracefulFail \<and>
   classifyOutcome (Some ''no such file'') () False = GracefulFail \<and>
   classifyOutcome None (Some (JObj [(''isError'', JBool True)])) False = Pass \<and>
   classifyOutcome (Some ''Timeout waiting for response'') () True = CrashOrHang"
  by code_simp

text \<open>
  C5 at the probe result with the empty error message, not timed out (the server answered
  with an error object whose message is \<open>""\<close>): the rule set of the claim sees an error
  message that matches neither vocabulary and answers \<open>graceful_fail\<close>; the code tests
  \<open>!error\<close>, which holds for the empty string, and answers \<open>pass\<close>.
\<close>

theorem C5_empty_message_is_pass:
  "classifyOutcome (Some '''') () False = Pass \<and>
   classify_by_rules (Some '''') False = GracefulFail"
  by code_simp

theorem C5_empty_message_is_pass_witness:
  "classifyOutcome (Some '''') () False \<noteq> classify_by_rules (Some '''') False"
  using C5_empty_message_is_pass by simp

section \<open>Properties of the journal store\<close>

subsection \<open>Deleting a project\<close>

lemma detach_runs_ids: "map r_id (detach_runs gone rs) = map r_id rs"
  by (induction rs) (auto simp: detach_runs_def split: option.splits)

lemma detach_runs_agent:
  "r \<in> set (detach_runs gone rs) \<Longrightarrow> agent_id r = Some a \<Longrightarrow> a \<notin> set gone"
  by (auto simp: detach_runs_def split: option.splits if_splits)

lemma find_filter_neq: "find (\<lambda>x. p_id x = i) (filter (\<lambda>x. p_id x \<noteq> i) xs) = None"
  by (induction xs) auto

lemma find_hit: "find P xs \<noteq> None \<Longrightarrow> list_ex P xs"
  by (induction xs) (auto split: if_splits)

text \<open>
  C1, as stated, on the store of the cascade scenario (project \<open>P\<close>, agent \<open>A\<close>, runs
  \<open>R1\<close> and \<open>R2\<close> with events): deleting \<open>P\<close> removes \<open>P\<close> and \<open>A\<close>, but both
  runs and all their events are still there, the runs with their agent reference cleared.
\<close>

theorem C1_runs_survive_counterexample:
  "map r_id (runs (snd (deleteProject cascade_store ''P''))) = [''R1'', ''R2''] \<and>
   map agent_id (runs (snd (deleteProject cascade_store ''P''))) = [None, None] \<and>
   getRunEventCount (snd (deleteProject cascade_store ''P'')) ''R1'' = 2 \<and>
   getRunEventCount (snd (deleteProject cascade_store ''P'')) ''R2'' = 1 \<and>
   getProject (snd (deleteProject cascade_store ''P'')) ''P'' = None \<and>
   getAgent (snd (deleteProject cascade_store ''P'')) ''A'' = None"
  by code_simp

text \<open>
  C1, amended: deleting a project that is in the store removes that project and the
  agents owned by it, and nothing else: the other projects and agents stay as they are;
  every run stays in its place, a run of a removed agent with its agent reference set to
  null and no other change, every other run unchanged; every event stays. Afterwards the
  project is gone, no agent references it, and no run references an agent that belonged
  to it.
\<close>

theorem C1_deleteProject_detaches_runs:
  assumes "getProject st i \<noteq> None"
  shows "fst (deleteProject st i) \<and>
         projects (snd (deleteProject st i)) = filter (\<lambda>x. p_id x \<noteq> i) (projects st) \<and>
         agents (snd (deleteProject st i)) = filter (\<lambda>a. project_id a \<noteq> i) (agents st) \<and>
         length (runs (snd (deleteProject st i))) = length (runs st) \<and>
         (\<forall>k < length (runs st).
            runs (snd (deleteProject st i)) ! k =
              (if \<exists>a \<in> set (agents st). project_id a = i \<and> agent_id (runs st ! k) = Some (a_id a)
               then (runs st ! k)\<lparr>agent_id := None\<rparr>
               else runs st ! k)) \<and>
         trace_events (snd (deleteProject st i)) = trace_events st \<and>
         last_event_id (snd (deleteProject st i)) = last_event_id st \<and>
         getProject (snd (deleteProject st i)) i = None \<and>
         (\<forall>a \<in> set (agents (snd (deleteProject st i))). project_id a \<noteq> i) \<and>
         (\<forall>r \<in> set (runs (snd (deleteProject st i))). \<forall>a \<in> set (agents st).
            project_id a = i \<longrightarrow> agent_id r \<noteq> Some (a_id a))"
proof -
  let ?gone = "map a_id (filter (\<lambda>a. project_id a = i) (agents st))"
  have hit: "list_ex (\<lambda>x. p_id x = i) (projects st)"
    using assms unfolding getProject_def by (rule find_hit)
  have del: "deleteProject st i =
       (True, st\<lparr>projects := filter (\<lambda>x. p_id x \<noteq> i) (projects st),
                  agents := filter (\<lambda>a. project_id a \<noteq> i) (agents st),
                  runs := detach_runs ?gone (runs st)\<rparr>)"
    using hit by (simp add: deleteProject_def Let_def)
  have gone: "(\<exists>a \<in> set (agents st). project_id a = i \<and> x = Some (a_id a))
                \<longleftrightarrow> (case x of None \<Rightarrow> False | Some a \<Rightarrow> a \<in> set ?gone)" for x
    by (cases x) auto
  have c1: "fst (deleteProject st i)"
    by (simp add: del)
  have c2: "projects (snd (deleteProject st i)) = filter (\<lambda>x. p_id x \<noteq> i) (projects st)"
    by (simp add: del)
  have c3: "agents (snd (deleteProject st i)) = filter (\<lambda>a. project_id a \<noteq> i) (agents st)"
    by (simp add: del)
  have c4: "length (runs (snd (deleteProject st i))) = length (runs st)"
    by (simp add: del detach_runs_def)
  have c5: "\<forall>k < length (runs st).
            runs (snd (deleteProject st i)) ! k =
              (if \<exists>a \<in> set (agents st). project_id a = i \<and> agent_id (runs st ! k) = Some (a_id a)
               then (runs st ! k)\<lparr>agent_id := None\<rparr>
               else runs st ! k)"
  proof (intro allI impI)
    fix k assume k: "k < length (runs st)"
    have "runs (snd (deleteProject st i)) ! k =
            (case agent_id (runs st ! k) of
               None \<Rightarrow> runs st ! k
             | Some a \<Rightarrow> if a \<in> set ?gone then (runs st ! k)\<lparr>agent_id := None\<rparr> else runs st ! k)"
      using k by (simp add: del detach_runs_def)
    then show "runs (snd (deleteProject st i)) ! k =
              (if \<exists>a \<in> set (agents st). project_id a = i \<and> agent_id (runs st ! k) = Some (a_id a)
               then (runs st ! k)\<lparr>agent_id := None\<rparr>
               else runs st ! k)"
      unfolding gone by (simp split: option.splits)
  qed
  have c6: "trace_events (snd (deleteProject st i)) = trace_events st"
    by (simp add: del)
  have c7: "last_event_id (snd (deleteProject st i)) = last_event_id st"
    by (simp add: del)
  have c8: "getProject (snd (deleteProject st i)) i = None"
    by (simp add: del getProject_def find_filter_neq)
  have c9: "\<forall>a \<in> set (agents (snd (deleteProject st i))). project_id a \<noteq> i"
    by (simp add: del)
  have c10: "\<forall>r \<in> set (runs (snd (deleteProject st i))). \<forall>a \<in> set (agents st).
            project_id a = i \<longrightarrow> agent_id r \<noteq> Some (a_id a)"
  proof (intro ballI impI)
    fix r a
    assume r: "r \<in> set (runs (snd (deleteProject st i)))"
      and a: "a \<in> set (agents st)" and p: "project_id a = i"
    have "r \<in> set (detach_runs ?gone (runs st))"
      using r by (simp add: del)
    moreover have "a_id a \<in> set ?gone"
      using a p by auto
    ultimately show "agent_id r \<noteq> Some (a_id a)"
      using detach_runs_agent by blast
  qed
  from c1 c2 c3 c4 c5 c6 c7 c8 c9 c10 show ?thesis by blast
qed

theorem C1_deleteProject_detaches_runs_witness:
  "getProject cascade_store ''P'' \<noteq> None \<and>
   projects (snd (deleteProject cascade_store ''P'')) = [] \<and>
   agents (snd (deleteProject cascade_store ''P'')) = [] \<and>
   runs (snd (deleteProject cascade_store ''P'')) ! 0 = (runs cascade_store ! 0)\<lparr>agent_id := None\<rparr> \<and>
   runs (snd (deleteProject cascade_store ''P'')) ! 1 = (runs cascade_store ! 1)\<lparr>agent_id := None\<rparr> \<and>
   trace_events (snd (deleteProject cascade_store ''P'')) = trace_events cascade_store \<and>
   getProject (snd (deleteProject cascade_store ''P'')) ''P'' = None"
proof -
  have h: "getProject cascade_store ''P'' \<noteq> None"
    by code_simp
  have p: "filter (\<lambda>x. p_id x \<noteq> ''P'') (projects cascade_store) = []"
    by code_simp
  have a: "filter (\<lambda>a. project_id a \<noteq> ''P'') (agents cascade_store) = []"
    by code_simp
  have l: "length (runs cascade_store) = 2"
    by code_simp
  have r0: "\<exists>a \<in> set (agents cascade_store).
              project_id a = ''P'' \<and> agent_id (runs cascade_store ! 0) = Some (a_id a)"
    by code_simp
  have r1: "\<exists>a \<in> set (agents cascade_store).
              project_id a = ''P'' \<and> agent_id (runs cascade_store ! 1) = Some (a_id a)"
    by code_simp
  from C1_deleteProject_detaches_runs [OF h] h p a l r0 r1 show ?thesis by simp
qed

subsection \<open>Status updates\<close>

lemma find_map_same_id:
  assumes "\<And>r. r_id (g r) = r_id r"
  shows "find (\<lambda>r. r_id r = i) (map (\<lambda>r. if r_id r = i then g r else r) rs)
         = map_option g (find (\<lambda>r. r_id r = i) rs)"
  using assms by (induction rs) auto

lemma find_map_other_id:
  assumes "\<And>r. r_id (g r) = r_id r" and "j \<noteq> i"
  shows "find (\<lambda>r. r_id r = j) (map (\<lambda>r. if r_id r = i then g r else r) rs)
         = find (\<lambda>r. r_id r = j) rs"
  using assms by (induction rs) auto

lemma set_clause_id [simp]: "r_id (set_clause now s tc te r) = r_id r"
  by (simp add: set_clause_def Let_def split: option.splits)

lemma set_clause_status [simp]: "status (set_clause now s tc te r) = s"
  by (simp add: set_clause_def Let_def split: option.splits)

lemma getRun_updateRunStatus:
  "getRun (updateRunStatus st now i s tc te) j =
     (if j = i then map_option (set_clause now s tc te) (getRun st i) else getRun st j)"
  unfolding getRun_def updateRunStatus_def
  by (simp add: find_map_same_id find_map_other_id)

lemma run_ids_updateRunStatus:
  "map r_id (runs (updateRunStatus st now i s tc te)) = map r_id (runs st)"
  by (simp add: updateRunStatus_def)

lemma list_ex_run_id: "list_ex (\<lambda>r. r_id r = rid) rs = (rid \<in> set (map r_id rs))"
  by (auto simp: list_ex_iff)

lemma list_ex_runs_updateRunStatus:
  "list_ex (\<lambda>r. r_id r = rid) (runs (updateRunStatus st now i s tc te))
     = list_ex (\<lambda>r. r_id r = rid) (runs st)"
  by (simp only: list_ex_run_id run_ids_updateRunStatus)

text \<open>
  C2, as stated, on a run that went pending, running, completed: a request to go back to
  \<open>running\<close>, or to \<open>pending\<close>, is carried out and the stored status changes.
\<close>

theorem C2_backwards_counterexample:
  "map_option status (getRun completed_store ''R1'') = Some Completed \<and>
   map_option status (getRun (updateRunStatus completed_store 4 ''R1'' Running None None) ''R1'')
     = Some Running \<and>
   map_option status (getRun (updateRunStatus completed_store 4 ''R1'' Pending None None) ''R1'')
     = Some Pending"
  by code_simp

text \<open>
  C2, amended: for every run in the store and every call of \<open>updateRunStatus\<close>, the
  stored status of that run becomes the requested status, whatever it was before (no
  transition is rejected). Besides the status the call sets \<open>started_at\<close> (when the new
  status is \<open>running\<close>), \<open>ended_at\<close> (when it is \<open>completed\<close> or \<open>failed\<close>) and
  the counters handed in, and nothing else: every other column of the run, every other run
  and every other table stay as they were.
\<close>

theorem C2_updateRunStatus_overwrites:
  assumes "getRun st i = Some r"
  shows "getRun (updateRunStatus st now i s totalCalls totalErrors) i =
           Some (r\<lparr>status := s,
                   started_at := (if s = Running then Some now else started_at r),
                   ended_at := (if s = Completed \<or> s = Failed then Some now else ended_at r),
                   total_calls := (case totalCalls of Some n \<Rightarrow> n | None \<Rightarrow> total_calls r),
                   total_errors := (case totalErrors of Some n \<Rightarrow> n | None \<Rightarrow> total_errors r)\<rparr>) \<and>
         (\<forall>j. j \<noteq> i \<longrightarrow>
            getRun (updateRunStatus st now i s totalCalls totalErrors) j = getRun st j) \<and>
         length (runs (updateRunStatus st now i s totalCalls totalErrors)) = length (runs st) \<and>
         (\<forall>k < length (runs st).
            runs (updateRunStatus st now i s totalCalls totalErrors) ! k =
              (if r_id (runs st ! k) = i
               then (runs st ! k)\<lparr>status := s,
                      started_at := (if s = Running then Some now else started_at (runs st ! k)),
                      ended_at := (if s = Completed \<or> s = Failed then Some now
                                   else ended_at (runs st ! k)),
                      total_calls := (case totalCalls of Some n \<Rightarrow> n
                                      | None \<Rightarrow> total_calls (runs st ! k)),
                      total_errors := (case totalErrors of Some n \<Rightarrow> n
                                       | None \<Rightarrow> total_errors (runs st ! k))\<rparr>
               else runs st ! k)) \<and>
         projects (updateRunStatus st now i s totalCalls totalErrors) = projects st \<and>
         agents (updateRunStatus st now i s totalCalls totalErrors) = agents st \<and>
         trace_events (updateRunStatus st now i s totalCalls totalErrors) = trace_events st \<and>
         last_event_id (updateRunStatus st now i s totalCalls totalErrors) = last_event_id st"
proof -
  have row: "set_clause now s totalCalls totalErrors x =
           x\<lparr>status := s,
             started_at := (if s = Running then Some now else started_at x),
             ended_at := (if s = Completed \<or> s = Failed then Some now else ended_at x),
             total_calls := (case totalCalls of Some n \<Rightarrow> n | None \<Rightarrow> total_calls x),
             total_errors := (case totalErrors of Some n \<Rightarrow> n | None \<Rightarrow> total_errors x)\<rparr>" for x
    by (cases totalCalls; cases totalErrors) (simp_all add: set_clause_def Let_def)
  have c1: "getRun (updateRunStatus st now i s totalCalls totalErrors) i =
           Some (r\<lparr>status := s,
                   started_at := (if s = Running then Some now else started_at r),
                   ended_at := (if s = Completed \<or> s = Failed then Some now else ended_at r),
                   total_calls := (case totalCalls of Some n \<Rightarrow> n | None \<Rightarrow> total_calls r),
                   total_errors := (case totalErrors of Some n \<Rightarrow> n | None \<Rightarrow> total_errors r)\<rparr>)"
    using assms row by (simp add: getRun_updateRunStatus)
  have c2: "\<forall>j. j \<noteq> i \<longrightarrow>
            getRun (updateRunStatus st now i s totalCalls totalErrors) j = getRun st j"
    by (simp add: getRun_updateRunStatus)
  have c3: "length (runs (updateRunStatus st now i s totalCalls totalErrors)) = length (runs st)"
    by (simp add: updateRunStatus_def)
  have c4: "\<forall>k < length (runs st).
            runs (updateRunStatus st now i s totalCalls totalErrors) ! k =
              (if r_id (runs st ! k) = i
               then (runs st ! k)\<lparr>status := s,
                      started_at := (if s = Running then Some now else started_at (runs st ! k)),
                      ended_at := (if s = Completed \<or> s = Failed then Some now
                                   else ended_at (runs st ! k)),
                      total_calls := (case totalCalls of Some n \<Rightarrow> n
                                      | None \<Rightarrow> total_calls (runs st ! k)),
                      total_errors := (case totalErrors of Some n \<Rightarrow> n
                                       | None \<Rightarrow> total_errors (runs st ! k))\<rparr>
               else runs st ! k)"
    using row by (simp add: updateRunStatus_def)
  have c5: "projects (updateRunStatus st now i s totalCalls totalErrors) = projects st"
    "agents (updateRunStatus st now i s totalCalls totalErrors) = agents st"
    "trace_events (updateRunStatus st now i s totalCalls totalErrors) = trace_events st"
    "last_event_id (updateRunStatus st now i s totalCalls totalErrors) = last_event_id st"
    by (simp_all add: updateRunStatus_def)
  from c1 c2 c3 c4 c5 show ?thesis by blast
qed

theorem C2_updateRunStatus_overwrites_witness:
  "getRun completed_store ''R1'' \<noteq> None \<and>
   map_option status (getRun (updateRunStatus completed_store 4 ''R1'' Running None None) ''R1'')
     = Some Running \<and>
   map_option started_at (getRun (updateRunStatus completed_store 4 ''R1'' Running None None) ''R1'')
     = Some (Some 4) \<and>
   map_option ended_at (getRun (updateRunStatus completed_store 4 ''R1'' Running None None) ''R1'')
     = Some (Some 3) \<and>
   map_option total_calls (getRun (updateRunStatus completed_store 4 ''R1'' Running None None) ''R1'')
     = Some 0"
proof -
  obtain r where r: "getRun completed_store ''R1'' = Some r"
    and f: "started_at r = Some 2" "ended_at r = Some 3" "total_calls r = 0"
  proof -
    have "map_option (\<lambda>r. (started_at r, ended_at r, total_calls r)) (getRun completed_store ''R1'')
            = Some (Some 2, Some 3, 0)"
      by code_simp
    then show ?thesis using that by (cases "getRun completed_store ''R1''") auto
  qed
  from C2_updateRunStatus_overwrites [OF r, of 4 Running None None] r f
  show ?thesis by simp
qed

subsection \<open>Paging\<close>

lemma getRunEvents_text_ok:
  "sqlite_accepts
     (''SELECT * FROM trace_events WHERE run_id = ? ORDER BY id ASC''
      @ (if l then '' LIMIT ?'' else []) @ (if off then '' OFFSET ?'' else []))
   = (off \<longrightarrow> l)"
  by (cases l; cases off; simp add: sqlite_accepts_def sql_words_def)

lemma getRunEvents_sql_accepts:
  "sqlite_accepts (getRunEvents_sql limit offset) = (truthy_num offset \<longrightarrow> truthy_num limit)"
  unfolding getRunEvents_sql_def by (rule getRunEvents_text_ok)

lemma listRuns_text_ok:
  "sqlite_accepts
     (''SELECT * FROM runs WHERE 1=1''
      @ (if b1 then '' AND agent_id = ?'' else [])
      @ (if b2 then '' AND status = ?'' else [])
      @ (if b3 then '' AND run_type = ?'' else [])
      @ (if b4 then '' AND target LIKE ?'' else [])
      @ '' ORDER BY created_at DESC''
      @ (if l then '' LIMIT ?'' else [])
      @ (if off then '' OFFSET ?'' else []))
   = (off \<longrightarrow> l)"
  by (cases b1; cases b2; cases b3; cases b4; cases l; cases off;
      simp add: sqlite_accepts_def sql_words_def)

lemma listRuns_sql_accepts:
  "sqlite_accepts (listRuns_sql f) = (truthy_num (f_offset f) \<longrightarrow> truthy_num (f_limit f))"
  unfolding listRuns_sql_def by (rule listRuns_text_ok)

lemma getRunEvents_mismatch_example:
  "getRunEvents cascade_store ''R1'' (Some (Finite 10000000000000000000)) (Some (Finite 1))
     = Inl SqliteMismatch \<and>
   getRunEvents cascade_store ''R1'' (Some (Finite 2)) (Some (Finite (3 / 2))) = Inl SqliteMismatch \<and>
   map_sum id (map e_id) (getRunEvents cascade_store ''R1'' (Some (Finite 1)) (Some (Finite 1)))
     = Inr [2] \<and>
   map_sum id (map e_id) (getRunEvents cascade_store ''R1'' (Some (Finite 0)) None) = Inr [1, 2] \<and>
   map_sum id (map e_id) (getRunEvents cascade_store ''R1'' (Some NaN) None) = Inr [1, 2]"
  by code_simp

text \<open>The order by age, newest first, is one of the orders SQLite may give.\<close>

lemma newest_first_stable: "newest_first rows (rev (sort_key r_created_at rows))"
proof -
  have "sorted (map r_created_at (sort_key r_created_at rows))"
    by (rule sorted_sort_key)
  then have "sorted_wrt (\<lambda>a b. r_created_at a \<le> r_created_at b) (sort_key r_created_at rows)"
    by (simp add: sorted_wrt_map)
  then have "sorted_wrt (\<lambda>a b. r_created_at b \<le> r_created_at a) (rev (sort_key r_created_at rows))"
    by (simp add: sorted_wrt_rev)
  then show ?thesis
    by (simp add: newest_first_def)
qed

text \<open>
  C10, as stated, says that paging by offset succeeds only with a positive limit. With the
  limit \<open>-1\<close> and the offset \<open>1\<close> the limit is truthy, the text gets both clauses,
  SQLite reads the negative limit as no limit, and both reads return the rows after the
  first.
\<close>

theorem C10_negative_limit_counterexample:
  "getRunEvents_sql (Some (Finite (- 1))) (Some (Finite 1))
     = ''SELECT * FROM trace_events WHERE run_id = ? ORDER BY id ASC LIMIT ? OFFSET ?'' \<and>
   map_sum id (map e_id) (getRunEvents cascade_store ''R1'' (Some (Finite (- 1))) (Some (Finite 1)))
     = Inr [2] \<and>
   Inr (page (- 1) 1 (rev (sort_key r_created_at (runs cascade_store))))
     \<in> listRuns cascade_store
         \<lparr>f_status = None, f_target = None, f_agentId = None, f_runType = None,
          f_limit = Some (Finite (- 1)), f_offset = Some (Finite 1)\<rparr> \<and>
   map r_id (page (- 1) 1 (rev (sort_key r_created_at (runs cascade_store)))) = [''R1'']"
proof -
  let ?f = "\<lparr>f_status = None, f_target = None, f_agentId = None, f_runType = None,
             f_limit = Some (Finite (- 1)), f_offset = Some (Finite 1)\<rparr>"
  have 1: "getRunEvents_sql (Some (Finite (- 1))) (Some (Finite 1))
     = ''SELECT * FROM trace_events WHERE run_id = ? ORDER BY id ASC LIMIT ? OFFSET ?''"
    by code_simp
  have 2: "map_sum id (map e_id)
             (getRunEvents cascade_store ''R1'' (Some (Finite (- 1))) (Some (Finite 1))) = Inr [2]"
    by code_simp
  have acc: "sqlite_accepts (listRuns_sql ?f)"
    by code_simp
  have lp: "limit_param (f_limit ?f) = Some (- 1)" "offset_param (f_offset ?f) = Some 1"
    by code_simp+
  have fl: "filter (run_matches ?f) (runs cascade_store) = runs cascade_store"
    by code_simp
  have 3: "Inr (page (- 1) 1 (rev (sort_key r_created_at (runs cascade_store))))
             \<in> listRuns cascade_store ?f"
    unfolding listRuns_def using acc lp fl newest_first_stable [of "runs cascade_store"]
    by auto
  have 4: "map r_id (page (- 1) 1 (rev (sort_key r_created_at (runs cascade_store)))) = [''R1'']"
    by code_simp
  from 1 2 3 4 show ?thesis by blast
qed

text \<open>
  C10, amended: for a call of \<open>getRunEvents\<close> or \<open>listRuns\<close> with a non-zero offset and
  no limit (or the limit zero), the statement text ends in \<open>OFFSET ?\<close> with no
  \<open>LIMIT\<close> clause before it and the call throws instead of returning a page; so a call
  with a non-zero offset returns a page only when a non-zero limit is supplied too (not
  necessarily a positive one).
\<close>

theorem C10_offset_needs_limit:
  "(truthy_num offset \<and> \<not> truthy_num limit \<longrightarrow>
      getRunEvents_sql limit offset =
        ''SELECT * FROM trace_events WHERE run_id = ? ORDER BY id ASC OFFSET ?'' \<and>
      getRunEvents st rid limit offset = Inl SqliteSyntax) \<and>
   (truthy_num (f_offset f) \<and> \<not> truthy_num (f_limit f) \<longrightarrow>
      suffix '' ORDER BY created_at DESC OFFSET ?'' (listRuns_sql f) \<and>
      listRuns st f = {Inl SqliteSyntax}) \<and>
   (truthy_num offset \<and> getRunEvents st rid limit offset = Inr rows \<longrightarrow> truthy_num limit) \<and>
   (truthy_num (f_offset f) \<and> Inr runs' \<in> listRuns st f \<longrightarrow> truthy_num (f_limit f))"
proof (intro conjI impI)
  assume a: "truthy_num offset \<and> \<not> truthy_num limit"
  then show "getRunEvents_sql limit offset =
        ''SELECT * FROM trace_events WHERE run_id = ? ORDER BY id ASC OFFSET ?''"
    by (simp add: getRunEvents_sql_def)
  show "getRunEvents st rid limit offset = Inl SqliteSyntax"
    using a by (simp add: getRunEvents_def getRunEvents_sql_accepts)
next
  assume a: "truthy_num (f_offset f) \<and> \<not> truthy_num (f_limit f)"
  then show "suffix '' ORDER BY created_at DESC OFFSET ?'' (listRuns_sql f)"
    by (simp add: listRuns_sql_def suffix_def)
  show "listRuns st f = {Inl SqliteSyntax}"
    using a by (simp add: listRuns_def listRuns_sql_accepts)
next
  assume a: "truthy_num offset \<and> getRunEvents st rid limit offset = Inr rows"
  show "truthy_num limit"
  proof (rule ccontr)
    assume "\<not> truthy_num limit"
    then have "getRunEvents st rid limit offset = Inl SqliteSyntax"
      using a by (simp add: getRunEvents_def getRunEvents_sql_accepts)
    then show False using a by simp
  qed
next
  assume a: "truthy_num (f_offset f) \<and> Inr runs' \<in> listRuns st f"
  show "truthy_num (f_limit f)"
  proof (rule ccontr)
    assume "\<not> truthy_num (f_limit f)"
    then have "listRuns st f = {Inl SqliteSyntax}"
      using a by (simp add: listRuns_def listRuns_sql_accepts)
    then show False using a by simp
  qed
qed

theorem C10_offset_needs_limit_witness:
  "truthy_num (Some (Finite 1)) \<and> \<not> truthy_num None \<and>
   getRunEvents_sql None (Some (Finite 1)) =
     ''SELECT * FROM trace_events WHERE run_id = ? ORDER BY id ASC OFFSET ?'' \<and>
   getRunEvents cascade_store ''R1'' None (Some (Finite 1)) = Inl SqliteSyntax \<and>
   listRuns cascade_store
     \<lparr>f_status = None, f_target = None, f_agentId = None, f_runType = None,
      f_limit = None, f_offset = Some (Finite 1)\<rparr> = {Inl SqliteSyntax}"
proof -
  have h: "truthy_num (Some (Finite 1))" "\<not> truthy_num None"
    by (simp_all add: truthy_num_def)
  from C10_offset_needs_limit
          [of "Some (Finite 1)" None cascade_store "''R1''"
              "\<lparr>f_status = None, f_target = None, f_agentId = None, f_runType = None,
                f_limit = None, f_offset = Some (Finite 1)\<rparr>"] h
  show ?thesis by simp
qed

section \<open>Properties of the chaos engine\<close>

lemma resolveValue_keeps:
  "inj_seed (snd (resolveValue ci v)) = inj_seed ci \<and> config (snd (resolveValue ci v)) = config ci"
  by (auto simp: resolveValue_def Let_def split_beta split: option.splits ChaosValue.splits)

lemma getDelay_keeps:
  "inj_seed (snd (getDelay ci t)) = inj_seed ci \<and> config (snd (getDelay ci t)) = config ci"
  using resolveValue_keeps [of ci "delayMs (getRuleForTool ci t)"]
  by (simp add: getDelay_def split_beta)

lemma getTimeout_keeps:
  "inj_seed (snd (getTimeout ci t)) = inj_seed ci \<and> config (snd (getTimeout ci t)) = config ci"
  using resolveValue_keeps [of ci "timeoutMs (getRuleForTool ci t)"]
  by (simp add: getTimeout_def)

lemma shouldFail_keeps:
  "inj_seed (snd (shouldFail ci t)) = inj_seed ci \<and> config (snd (shouldFail ci t)) = config ci"
  by (simp add: shouldFail_def split_beta split: option.splits)

lemma getErrorResponse_keeps:
  "inj_seed (snd (getErrorResponse ci t)) = inj_seed ci \<and>
   config (snd (getErrorResponse ci t)) = config ci"
  using shouldFail_keeps [of ci t]
  by (simp add: getErrorResponse_def split_beta Let_def)

lemma applyChaos_keeps:
  "inj_seed (snd (applyChaos ci t)) = inj_seed ci \<and> config (snd (applyChaos ci t)) = config ci"
  using getDelay_keeps [of ci t] shouldFail_keeps [of "snd (getDelay ci t)" t]
  by (simp add: applyChaos_def split_beta Let_def)

lemma applyChaos_seed: "applied_seed (fst (applyChaos ci t)) = Some (inj_seed ci)"
  by (simp add: applyChaos_def split_beta Let_def)

lemma answer_keeps:
  "inj_seed (snd (answer ci q)) = inj_seed ci \<and> config (snd (answer ci q)) = config ci"
  using getDelay_keeps [of ci] getTimeout_keeps [of ci] shouldFail_keeps [of ci]
        getErrorResponse_keeps [of ci] applyChaos_keeps [of ci]
  by (cases q) (simp_all add: split_beta)

lemma answer_applied:
  "fst (answer ci q) = AApplied a \<Longrightarrow> applied_seed a = Some (inj_seed ci)"
  using applyChaos_seed [of ci]
  by (cases q) (auto simp: split_beta)

lemma answers_applied:
  "AApplied a \<in> set (answers ci qs) \<Longrightarrow> applied_seed a = Some (inj_seed ci)"
proof (induction qs arbitrary: ci)
  case Nil
  then show ?case by simp
next
  case (Cons q qs)
  from Cons.prems have "fst (answer ci q) = AApplied a \<or> AApplied a \<in> set (answers (snd (answer ci q)) qs)"
    by (auto simp: split_beta)
  then show ?case
  proof
    assume "fst (answer ci q) = AApplied a"
    then show ?thesis by (rule answer_applied)
  next
    assume "AApplied a \<in> set (answers (snd (answer ci q)) qs)"
    then have "applied_seed a = Some (inj_seed (snd (answer ci q)))"
      by (rule Cons.IH)
    then show ?thesis using answer_keeps [of ci q] by simp
  qed
qed

text \<open>
  C9: for a configuration with a fixed seed, two injectors built from it (at any two clock
  readings, which is all that differs between two executions) give the same answers to the
  same sequence of queries, and every chaos-applied descriptor among the answers carries
  that seed.
\<close>

theorem C9_seeded_answers_deterministic:
  assumes "seed cfg = Some s"
  shows "answers (newChaosInjector cfg now1) qs = answers (newChaosInjector cfg now2) qs \<and>
         (\<forall>a. AApplied a \<in> set (answers (newChaosInjector cfg now1) qs)
               \<longrightarrow> applied_seed a = Some s)"
proof -
  have same: "newChaosInjector cfg now1 = newChaosInjector cfg now2"
    using assms by (simp add: newChaosInjector_def)
  have sd: "inj_seed (newChaosInjector cfg now1) = s"
    using assms by (simp add: newChaosInjector_def)
  show ?thesis
    using same answers_applied [of _ "newChaosInjector cfg now1" qs] sd by auto
qed

theorem C9_seeded_answers_deterministic_witness:
  "seed scenario2_chaos = Some 1 \<and>
   answers (newChaosInjector scenario2_chaos 0)
     [QApply (Some ''read_file''), QDelay (Some ''read_file''), QShouldFail None,
      QShouldCorrupt (Some ''write_file'')]
   = answers (newChaosInjector scenario2_chaos 1700000000000)
     [QApply (Some ''read_file''), QDelay (Some ''read_file''), QShouldFail None,
      QShouldCorrupt (Some ''write_file'')] \<and>
   answers (newChaosInjector scenario2_chaos 0)
     [QApply (Some ''read_file''), QDelay (Some ''read_file''), QShouldFail None,
      QShouldCorrupt (Some ''write_file'')]
   = [AApplied \<lparr>applied_delayMs = Some 500, errorInjected = None, responseCorrupted = None,
                applied_seed = Some 1\<rparr>,
      ADelay 500, AShouldFail False, AShouldCorrupt False]"
proof -
  have h: "seed scenario2_chaos = Some 1"
    by (simp add: scenario2_chaos_def)
  have v: "answers (newChaosInjector scenario2_chaos 0)
             [QApply (Some ''read_file''), QDelay (Some ''read_file''), QShouldFail None,
              QShouldCorrupt (Some ''write_file'')]
           = [AApplied \<lparr>applied_delayMs = Some 500, errorInjected = None,
                        responseCorrupted = None, applied_seed = Some 1\<rparr>,
              ADelay 500, AShouldFail False, AShouldCorrupt False]"
    by code_simp
  from C9_seeded_answers_deterministic
         [OF h, where ?now1.0 = 0 and ?now2.0 = 1700000000000
            and qs = "[QApply (Some ''read_file''), QDelay (Some ''read_file''), QShouldFail None,
                       QShouldCorrupt (Some ''write_file'')]"] h v
  show ?thesis by simp
qed

lemma draw_lt_1: "(of_int (uint (w :: 32 word)) :: rat) / 4294967296 < 1"
proof -
  have "uint w < 4294967296"
    using uint_lt2p [of w] by simp
  then have "(of_int (uint w) :: rat) < of_int 4294967296"
    by (simp only: of_int_less_iff)
  then show ?thesis by simp
qed

lemma rng_next_lt_1: "fst (rng_next s) < 1"
  unfolding rng_next_def Let_def fst_conv by (rule draw_lt_1)

lemma getDelay_scenario2:
  assumes "config ci = scenario2_chaos"
  shows "getDelay ci (Some (JStr ''read_file'')) = (500, ci\<lparr>rng := snd (rng_next (rng ci))\<rparr>)"
proof -
  obtain prob s1 where n: "rng_next (rng ci) = (prob, s1)"
    by (cases "rng_next (rng ci)")
  have "prob < 1" using rng_next_lt_1 [of "rng ci"] n by simp
  then have "\<not> prob > 1" by simp
  then show ?thesis
    using assms n
    by (simp add: getDelay_def getRuleForTool_def resolveValue_def scenario2_chaos_def
          global_rule_def merge_rules_def no_rule_def or_else_def truthy_opt_def)
qed

section \<open>Properties of the recorder and the proxy\<close>

lemma writeEvent_live:
  assumes "live rc rid"
  shows "live (snd (writeEvent rc ev)) rid"
    and "pendingCalls (snd (writeEvent rc ev)) = pendingCalls rc"
    and "map_option runs (db (snd (writeEvent rc ev))) = map_option runs (db rc)"
  using assms
  by (auto simp: live_def writeEvent_def insertTraceEvent_def truthy_str_def Let_def
           split: option.splits)

lemma writeEvent_bound:
  assumes "live rc rid"
    and "event_row rid ev = Some row"
  shows "fst (writeEvent rc ev)"
    and "\<exists>n. journal (snd (writeEvent rc ev)) = journal rc @ [row\<lparr>e_id := n\<rparr>]"
  using assms
  by (auto simp: live_def writeEvent_def insertTraceEvent_def journal_def truthy_str_def Let_def
           split: option.splits)

lemma event_row_RpcResponse:
  "event_row rid (RpcResponse i r e ts l) =
     Some ((event_values rid (RpcResponse i r e ts l))\<lparr>e_method := None, tool_name := None\<rparr>)"
  by (simp add: event_row_def bind_text_def)

lemma event_row_ToolResult:
  "event_row rid (ToolResult c ok r e ts l ch) =
     Some ((event_values rid (ToolResult c ok r e ts l ch))\<lparr>e_method := None, tool_name := None\<rparr>)"
  by (simp add: event_row_def bind_text_def)

lemma event_row_RpcRequest:
  "event_row rid (RpcRequest i (JStr m) ps ts) =
     Some ((event_values rid (RpcRequest i (JStr m) ps ts))\<lparr>e_method := Some m, tool_name := None\<rparr>)"
  by (simp add: event_row_def bind_text_def)

lemma event_row_ToolCall:
  "event_row rid (ToolCall (JStr t) a ts c) =
     Some ((event_values rid (ToolCall (JStr t) a ts c))\<lparr>e_method := None, tool_name := Some t\<rparr>)"
  by (simp add: event_row_def bind_text_def)

lemma event_row_SessionStart:
  "event_row rid (SessionStart a b c d e f) =
     Some ((event_values rid (SessionStart a b c d e f))\<lparr>e_method := None, tool_name := None\<rparr>)"
  by (simp add: event_row_def bind_text_def)

lemma tool_name_of_Some:
  assumes "tool_name_of params = Some t"
  shows "opt_get params ''name'' = Some (JStr t)" and "t \<noteq> []"
  using assms
  by (auto simp: tool_name_of_def split: option.splits json.splits if_splits)

lemma method_of_Some:
  assumes "method_of message = Some m"
  shows "obj_get message ''method'' = Some (JStr m)" and "m \<noteq> []"
  using assms
  by (auto simp: method_of_def split: option.splits json.splits if_splits)

lemma live_update [simp]:
  "live (rc\<lparr>pendingCalls := pcs\<rparr>) rid = live rc rid"
  "live (rc\<lparr>callCount := n\<rparr>) rid = live rc rid"
  "live (rc\<lparr>errorCount := m\<rparr>) rid = live rc rid"
  by (simp_all add: live_def split: option.splits)

lemma journal_update [simp]:
  "journal (rc\<lparr>pendingCalls := pcs\<rparr>) = journal rc"
  "journal (rc\<lparr>callCount := n\<rparr>) = journal rc"
  "journal (rc\<lparr>errorCount := m\<rparr>) = journal rc"
  by (simp_all add: journal_def)

lemma recordRpcRequest_tool_call:
  assumes lv: "live rc rid"
    and tn: "tool_name_of params = Some t"
  shows "fst (recordRpcRequest rc now ts (Some i) (JStr ''tools/call'') params)"
    and "live (snd (recordRpcRequest rc now ts (Some i) (JStr ''tools/call'') params)) rid"
    and "map row_view
           (journal (snd (recordRpcRequest rc now ts (Some i) (JStr ''tools/call'') params)))
           = map row_view (journal rc) @ [(''rpc_request'', None, None), (''tool_call'', None, None)]"
    and "map_of (pendingCalls (snd (recordRpcRequest rc now ts (Some i) (JStr ''tools/call'') params)))
           (js_String i) = Some \<lparr>startTime = now, pc_tool = Some (JStr t)\<rparr>"
proof -
  let ?ev1 = "RpcRequest (Some i) (JStr ''tools/call'') params ts"
  let ?rc1 = "snd (writeEvent rc ?ev1)"
  let ?row1 = "(event_values rid ?ev1)\<lparr>e_method := Some ''tools/call'', tool_name := None\<rparr>"
  have nm: "opt_get params ''name'' = Some (JStr t)" and ne: "t \<noteq> []"
    using tool_name_of_Some [OF tn] by simp_all
  have lv1: "live ?rc1 rid" and p1: "pendingCalls ?rc1 = pendingCalls rc"
    using writeEvent_live [OF lv, of ?ev1] by simp_all
  have ok1: "fst (writeEvent rc ?ev1)"
    using writeEvent_bound(1) [OF lv event_row_RpcRequest] .
  obtain n1 where j1: "journal ?rc1 = journal rc @ [?row1\<lparr>e_id := n1\<rparr>]"
    using writeEvent_bound(2) [OF lv event_row_RpcRequest, of "Some i" "''tools/call''" params ts]
    by blast
  let ?pc = "AList.update (js_String i) \<lparr>startTime = now, pc_tool = Some (JStr t)\<rparr>
               (AList.update (js_String i) \<lparr>startTime = now, pc_tool = None\<rparr> (pendingCalls ?rc1))"
  let ?rc3 = "?rc1\<lparr>pendingCalls := ?pc\<rparr>"
  let ?ev2 = "ToolCall (JStr t) (opt_get params ''arguments'') ts (js_String i)"
  let ?row2 = "(event_values rid ?ev2)\<lparr>e_method := None, tool_name := Some t\<rparr>"
  have lv3: "live ?rc3 rid" using lv1 by simp
  have j3: "journal ?rc3 = journal ?rc1" by simp
  have eq: "recordRpcRequest rc now ts (Some i) (JStr ''tools/call'') params = writeEvent ?rc3 ?ev2"
    using ok1 nm ne
    by (simp add: recordRpcRequest_def Let_def split_beta truthy_opt_def)
  obtain n2 where j2: "journal (snd (writeEvent ?rc3 ?ev2)) = journal ?rc3 @ [?row2\<lparr>e_id := n2\<rparr>]"
    using writeEvent_bound(2) [OF lv3 event_row_ToolCall, of t "opt_get params ''arguments''" ts
                                 "js_String i"]
    by blast
  show "fst (recordRpcRequest rc now ts (Some i) (JStr ''tools/call'') params)"
    unfolding eq using writeEvent_bound(1) [OF lv3 event_row_ToolCall] .
  show "live (snd (recordRpcRequest rc now ts (Some i) (JStr ''tools/call'') params)) rid"
    unfolding eq using writeEvent_live(1) [OF lv3] .
  show "map row_view
           (journal (snd (recordRpcRequest rc now ts (Some i) (JStr ''tools/call'') params)))
           = map row_view (journal rc) @ [(''rpc_request'', None, None), (''tool_call'', None, None)]"
    unfolding eq j2 j3 j1
    by (simp add: row_view_def blank_row_def)
  show "map_of (pendingCalls (snd (recordRpcRequest rc now ts (Some i) (JStr ''tools/call'') params)))
           (js_String i) = Some \<lparr>startTime = now, pc_tool = Some (JStr t)\<rparr>"
    unfolding eq using writeEvent_live(2) [OF lv3, of ?ev2]
    by (simp add: update_conv')
qed

lemma recordRpcResponse_miss:
  assumes "map_of (pendingCalls rc) (js_String i) = None"
  shows "recordRpcResponse rc now ts (Some i) result error chaos
           = writeEvent rc (RpcResponse (Some i) result error ts None)"
  using assms by (simp add: recordRpcResponse_def)

lemma recordRpcResponse_tool:
  assumes lv: "live rc rid"
    and pend: "map_of (pendingCalls rc) (js_String i) = Some pc"
    and tool: "truthy_opt (pc_tool pc)"
  shows "map row_view (journal (snd (recordRpcResponse rc now ts (Some i) result error chaos)))
           = map row_view (journal rc) @
             [(''tool_result'', Some (now - startTime pc),
               map_option (\<lambda>a. JSON_stringify (chaos_json a)) chaos),
              (''rpc_response'', Some (now - startTime pc), None)]"
    and "live (snd (recordRpcResponse rc now ts (Some i) result error chaos)) rid"
proof -
  let ?rc1 = "rc\<lparr>callCount := callCount rc + 1,
                  errorCount := (if truthy_opt error then errorCount rc + 1 else errorCount rc)\<rparr>"
  let ?ev1 = "ToolResult (js_String i) (\<not> truthy_opt error) result error ts
                (now - startTime pc) chaos"
  let ?row1 = "(event_values rid ?ev1)\<lparr>e_method := None, tool_name := None\<rparr>"
  let ?rc2 = "snd (writeEvent ?rc1 ?ev1)"
  let ?rc3 = "?rc2\<lparr>pendingCalls := AList.delete (js_String i) (pendingCalls ?rc2)\<rparr>"
  let ?ev2 = "RpcResponse (Some i) result error ts (Some (now - startTime pc))"
  let ?row2 = "(event_values rid ?ev2)\<lparr>e_method := None, tool_name := None\<rparr>"
  have lv1: "live ?rc1 rid" using lv by simp
  have j0: "journal ?rc1 = journal rc" by simp
  have ok1: "fst (writeEvent ?rc1 ?ev1)"
    using writeEvent_bound(1) [OF lv1 event_row_ToolResult] .
  have lv2: "live ?rc2 rid"
    using writeEvent_live(1) [OF lv1, of ?ev1] .
  obtain n1 where j1: "journal ?rc2 = journal ?rc1 @ [?row1\<lparr>e_id := n1\<rparr>]"
    using writeEvent_bound(2) [OF lv1 event_row_ToolResult, of "js_String i" "\<not> truthy_opt error"
                                 result error ts "now - startTime pc" chaos]
    by blast
  have lv3: "live ?rc3 rid" using lv2 by simp
  have j3: "journal ?rc3 = journal ?rc2" by simp
  have eq: "recordRpcResponse rc now ts (Some i) result error chaos = writeEvent ?rc3 ?ev2"
    using pend tool ok1
    by (simp add: recordRpcResponse_def Let_def split_beta)
  obtain n2 where j2: "journal (snd (writeEvent ?rc3 ?ev2)) = journal ?rc3 @ [?row2\<lparr>e_id := n2\<rparr>]"
    using writeEvent_bound(2) [OF lv3 event_row_RpcResponse, of "Some i" result error ts
                                 "Some (now - startTime pc)"]
    by blast
  show "map row_view (journal (snd (recordRpcResponse rc now ts (Some i) result error chaos)))
           = map row_view (journal rc) @
             [(''tool_result'', Some (now - startTime pc),
               map_option (\<lambda>a. JSON_stringify (chaos_json a)) chaos),
              (''rpc_response'', Some (now - startTime pc), None)]"
    unfolding eq j2 j3 j1 j0
    by (simp add: row_view_def blank_row_def)
  show "live (snd (recordRpcResponse rc now ts (Some i) result error chaos)) rid"
    unfolding eq using writeEvent_live(1) [OF lv3] .
qed

lemma on_target_line_with_id:
  assumes "obj_get message ''id'' = Some i"
  shows "on_target_line ps now ts line (Some message) =
           ([WriteStdout (line @ newline)],
            ps\<lparr>recorder :=
                 snd (recordRpcResponse (recorder ps) now ts (Some i)
                        (obj_get message ''result'') (obj_get message ''error'')
                        (map_option seed_only (injector ps)))\<rparr>)"
  using assms by (cases message) (simp_all add: on_target_line_def)

text \<open>
  The constructor leaves the recorder live for the run it created, and both line handlers
  keep it so.
\<close>

lemma recordRpcRequest_live:
  assumes "live rc rid"
  shows "live (snd (recordRpcRequest rc now ts i meth params)) rid"
proof -
  let ?rc1 = "snd (writeEvent rc (RpcRequest i meth params ts))"
  have l1: "live ?rc1 rid" using writeEvent_live(1) [OF assms] .
  have l2: "live (?rc1\<lparr>pendingCalls := pcs\<rparr>) rid" for pcs
    using l1 by simp
  have l3: "live (snd (writeEvent (?rc1\<lparr>pendingCalls := pcs\<rparr>) ev)) rid" for pcs ev
    using writeEvent_live(1) [OF l2] .
  show ?thesis
  proof (cases i)
    case None
    then show ?thesis using l1 by (simp add: recordRpcRequest_def split_beta)
  next
    case (Some v)
    then show ?thesis
      using l1 l2 l3 by (auto simp: recordRpcRequest_def split_beta Let_def)
  qed
qed

lemma recordRpcResponse_live:
  assumes "live rc rid"
  shows "live (snd (recordRpcResponse rc now ts i result error chaos)) rid"
proof (cases "case i of None \<Rightarrow> None
                      | Some v \<Rightarrow> map_option (Pair (js_String v))
                                   (map_of (pendingCalls rc) (js_String v))")
  case None
  then show ?thesis
    using writeEvent_live(1) [OF assms] by (simp add: recordRpcResponse_def)
next
  case (Some a)
  obtain callId pending where a: "a = (callId, pending)" by (cases a)
  let ?rc1 = "rc\<lparr>callCount := callCount rc + 1,
                  errorCount := (if truthy_opt error then errorCount rc + 1 else errorCount rc)\<rparr>"
  have l1: "live ?rc1 rid" using assms by simp
  let ?ev1 = "ToolResult callId (\<not> truthy_opt error) result error ts
                (now - startTime pending) chaos"
  have l2: "live (snd (writeEvent ?rc1 ?ev1)) rid"
    using writeEvent_live(1) [OF l1] .
  have l3: "live ((snd (writeEvent ?rc1 ?ev1))
                    \<lparr>pendingCalls := AList.delete callId
                                       (pendingCalls (snd (writeEvent ?rc1 ?ev1)))\<rparr>) rid"
    using l2 by simp
  have l4: "live (rc\<lparr>pendingCalls := AList.delete callId (pendingCalls rc)\<rparr>) rid"
    using assms by simp
  show ?thesis
    using Some a l2 writeEvent_live(1) [OF l3] writeEvent_live(1) [OF l4]
    by (simp add: recordRpcResponse_def Let_def split_beta)
qed

lemma on_target_line_live:
  assumes "live (recorder ps) rid"
  shows "live (recorder (snd (on_target_line ps now ts line parsed))) rid"
proof (cases parsed)
  case None
  then show ?thesis using assms by (simp add: on_target_line_def)
next
  case (Some message)
  show ?thesis
  proof (cases "obj_get message ''id''")
    case None
    then show ?thesis using assms Some
      by (cases message) (simp_all add: on_target_line_def)
  next
    case (Some i)
    then show ?thesis
      using recordRpcResponse_live [OF assms] \<open>parsed = Some message\<close>
      by (simp add: on_target_line_with_id)
  qed
qed

lemma on_stdin_line_recorder:
  "recorder (snd (on_stdin_line ps now ts line parsed)) = recorder ps \<or>
   (\<exists>i meth params.
      recorder (snd (on_stdin_line ps now ts line parsed))
        = snd (recordRpcRequest (recorder ps) now ts i meth params))"
proof (cases parsed)
  case None
  then show ?thesis by (simp add: on_stdin_line_def)
next
  case (Some message)
  show ?thesis
  proof (cases "message = JNull")
    case True
    then show ?thesis using Some by (simp add: on_stdin_line_def)
  next
    case False
    let ?r = "if truthy_opt (obj_get message ''method'')
              then recordRpcRequest (recorder ps) now ts (obj_get message ''id'')
                     (the (obj_get message ''method'')) (obj_get message ''params'')
              else (True, recorder ps)"
    have "recorder (snd (on_stdin_line ps now ts line parsed)) = snd ?r"
      using Some False
      by (cases message)
         (simp_all add: on_stdin_line_def Let_def split_beta split: option.splits)
    then show ?thesis
      by (cases "truthy_opt (obj_get message ''method'')") auto
  qed
qed

lemma on_stdin_line_live:
  assumes "live (recorder ps) rid"
  shows "live (recorder (snd (on_stdin_line ps now ts line parsed))) rid"
  using on_stdin_line_recorder [of ps now ts line parsed] assms
        recordRpcRequest_live [OF assms]
  by auto

lemma newTraceRecorder_live:
  assumes "newTraceRecorder session_uuid run_uuid now target targetCmd targetArgs path chaosConfig
             chaos_text (Some st) agentId = Inr rc"
    and "run_uuid \<noteq> []"
  shows "live rc run_uuid"
proof -
  obtain res st1 where cr: "createRun st run_uuid now target chaos_text agentId Proxy = (res, st1)"
    by (cases "createRun st run_uuid now target chaos_text agentId Proxy")
  show ?thesis
  proof (cases res)
    case (Inl e)
    then show ?thesis using assms cr by (simp add: newTraceRecorder_def Let_def)
  next
    case (Inr run)
    have rid: "r_id run = run_uuid" and mem: "list_ex (\<lambda>r. r_id r = run_uuid) (runs st1)"
      using cr Inr
      by (auto simp: createRun_def Let_def split_beta split: if_splits)
    let ?st2 = "updateRunStatus st1 now run_uuid Running None None"
    let ?rc1 = "\<lparr>sessionId = run_uuid, outputPath = path, callCount = 0, errorCount = 0,
                 pendingCalls = [], runId = Some run_uuid, rec_agentId = agentId, file_lines = [],
                 db = Some ?st2\<rparr>"
    have l1: "live ?rc1 run_uuid"
      using mem assms(2) by (simp add: live_def list_ex_runs_updateRunStatus)
    let ?ev = "SessionStart run_uuid target targetCmd targetArgs chaosConfig now"
    have "rc = snd (writeEvent ?rc1 ?ev)"
      using assms(1) cr Inr rid
      by (cases "writeEvent ?rc1 ?ev") (auto simp: newTraceRecorder_def Let_def split: bool.splits)
    then show ?thesis
      using writeEvent_live(1) [OF l1, of ?ev] by simp
  qed
qed

text \<open>
  C8: a line from the tool server that parses to a message with an id for which no call is
  in flight is forwarded to standard output unchanged, and an \<open>rpc_response\<close> row with
  null latency (and no chaos descriptor) is appended to the journal of the run; no run row
  changes, so the run keeps its status, and the in-flight table is as before. The proxy's
  recorder is live for its run from construction on.
\<close>

theorem C8_unmatched_response:
  assumes lv: "live (recorder ps) rid"
    and ident: "obj_get message ''id'' = Some i"
    and miss: "map_of (pendingCalls (recorder ps)) (js_String i) = None"
  shows "fst (on_target_line ps now ts line (Some message)) = [WriteStdout (line @ newline)] \<and>
         map row_view (journal (recorder (snd (on_target_line ps now ts line (Some message)))))
           = map row_view (journal (recorder ps)) @ [(''rpc_response'', None, None)] \<and>
         map_option runs (db (recorder (snd (on_target_line ps now ts line (Some message)))))
           = map_option runs (db (recorder ps)) \<and>
         pendingCalls (recorder (snd (on_target_line ps now ts line (Some message))))
           = pendingCalls (recorder ps) \<and>
         live (recorder (snd (on_target_line ps now ts line (Some message)))) rid"
proof -
  let ?ev = "RpcResponse (Some i) (obj_get message ''result'') (obj_get message ''error'') ts None"
  have step: "on_target_line ps now ts line (Some message) =
                ([WriteStdout (line @ newline)],
                 ps\<lparr>recorder := snd (writeEvent (recorder ps) ?ev)\<rparr>)"
    by (simp add: on_target_line_with_id [OF ident] recordRpcResponse_miss [OF miss])
  let ?row = "(event_values rid ?ev)\<lparr>e_method := None, tool_name := None\<rparr>"
  obtain n where j: "journal (snd (writeEvent (recorder ps) ?ev))
                       = journal (recorder ps) @ [?row\<lparr>e_id := n\<rparr>]"
    using writeEvent_bound(2) [OF lv event_row_RpcResponse, of "Some i" "obj_get message ''result''"
                                 "obj_get message ''error''" ts None]
    by blast
  have v: "map row_view (journal (snd (writeEvent (recorder ps) ?ev)))
             = map row_view (journal (recorder ps)) @ [(''rpc_response'', None, None)]"
    unfolding j by (simp add: row_view_def blank_row_def)
  show ?thesis
    unfolding step
    using v writeEvent_live [OF lv, of ?ev]
    by simp
qed

theorem C8_unmatched_response_witness:
  "live (recorder (snd scenario2_after_request)) ''R'' \<and>
   obj_get stray_response ''id'' = Some (JNum 99) \<and>
   map_of (pendingCalls (recorder (snd scenario2_after_request))) (js_String (JNum 99)) = None \<and>
   fst (on_target_line (snd scenario2_after_request) 1600 102 (JSON_stringify stray_response)
          (Some stray_response))
     = [WriteStdout (JSON_stringify stray_response @ newline)] \<and>
   map row_view
     (journal (recorder (snd (on_target_line (snd scenario2_after_request) 1600 102
                                (JSON_stringify stray_response) (Some stray_response)))))
     = map row_view (journal (recorder (snd scenario2_after_request)))
       @ [(''rpc_response'', None, None)]"
proof -
  have h1: "live (recorder (snd scenario2_after_request)) ''R''"
    by code_simp
  have h2: "obj_get stray_response ''id'' = Some (JNum 99)"
    by code_simp
  have h3: "map_of (pendingCalls (recorder (snd scenario2_after_request))) (js_String (JNum 99))
              = None"
    by code_simp
  from C8_unmatched_response [OF h1 h2 h3, of 1600 102 "JSON_stringify stray_response"] h1 h2 h3
  show ?thesis by blast
qed

lemma on_stdin_line_tools_call:
  assumes lv: "live (recorder ps) rid"
    and inj: "injector ps = Some ci"
    and meth: "method_of request = Some ''tools/call''"
    and tn: "tool_name_of (obj_get request ''params'') = Some t"
    and ident: "obj_get request ''id'' = Some i"
  shows "on_stdin_line ps now ts line (Some request) =
           ((if fst (getDelay ci (Some (JStr t))) > 0
             then [Sleep (fst (getDelay ci (Some (JStr t))))] else [])
              @ [WriteTarget (line @ newline)],
            ps\<lparr>recorder := snd (recordRpcRequest (recorder ps) now ts (Some i) (JStr ''tools/call'')
                                   (obj_get request ''params'')),
               injector := Some (snd (getDelay ci (Some (JStr t))))\<rparr>)"
proof -
  have ok: "fst (recordRpcRequest (recorder ps) now ts (Some i) (JStr ''tools/call'')
                   (obj_get request ''params''))"
    using recordRpcRequest_tool_call(1) [OF lv tn] .
  have m: "obj_get request ''method'' = Some (JStr ''tools/call'')"
    using method_of_Some(1) [OF meth] .
  have nm: "opt_get (obj_get request ''params'') ''name'' = Some (JStr t)"
    using tool_name_of_Some(1) [OF tn] .
  have nn: "request \<noteq> JNull"
    using m by auto
  show ?thesis
    using nn ok inj m nm ident
    by (cases request) (simp_all add: on_stdin_line_def split_beta Let_def truthy_opt_def)
qed

text \<open>
  C4, as stated, on scenario 2: the request is forwarded after \<open>Sleep 500\<close>, but the
  journaled \<open>rpc_response\<close> row has no chaos descriptor at all; the descriptor is on the
  \<open>tool_result\<close> row and holds the seed only, with no \<open>delayMs\<close>.
\<close>

theorem C4_response_descriptor_counterexample:
  "map chaos_applied
     (filter (\<lambda>r. event_type r = ''rpc_response'') (journal (recorder (snd scenario2_after_response))))
     = [None] \<and>
   map chaos_applied
     (filter (\<lambda>r. event_type r = ''tool_result'') (journal (recorder (snd scenario2_after_response))))
     = [Some (JSON_stringify (JObj [(''seed'', JNum 1)]))] \<and>
   fst scenario2_after_request
     = [Sleep 500, WriteTarget (JSON_stringify scenario2_request @ newline)]"
  by code_simp

text \<open>
  C4, amended: with the chaos configuration of scenario 2 (seed 1), a \<open>tools/call\<close>
  request for \<open>read_file\<close> is forwarded only after a sleep of 500 ms; when its response
  arrives, the \<open>rpc_response\<close> row is journaled without a chaos descriptor, and the
  \<open>tool_result\<close> row journaled with it carries the descriptor \<open>{"seed":1}\<close>, which
  records the seed and not the delay.
\<close>

theorem C4_delay_then_seed_only:
  assumes lv: "live (recorder ps) rid"
    and inj: "injector ps = Some ci"
    and cfg: "config ci = scenario2_chaos"
    and sd: "inj_seed ci = 1"
    and meth: "method_of request = Some ''tools/call''"
    and tn: "tool_name_of (obj_get request ''params'') = Some ''read_file''"
    and ident: "obj_get request ''id'' = Some i"
    and rident: "obj_get response ''id'' = Some i"
  shows "fst (on_stdin_line ps now ts line (Some request))
           = [Sleep 500, WriteTarget (line @ newline)] \<and>
         fst (on_target_line (snd (on_stdin_line ps now ts line (Some request)))
                now' ts' line' (Some response))
           = [WriteStdout (line' @ newline)] \<and>
         map row_view
           (journal (recorder (snd (on_target_line (snd (on_stdin_line ps now ts line (Some request)))
                                      now' ts' line' (Some response)))))
           = map row_view (journal (recorder ps)) @
             [(''rpc_request'', None, None),
              (''tool_call'', None, None),
              (''tool_result'', Some (now' - now), Some (JSON_stringify (JObj [(''seed'', JNum 1)]))),
              (''rpc_response'', Some (now' - now), None)]"
proof -
  let ?rc1 = "snd (recordRpcRequest (recorder ps) now ts (Some i) (JStr ''tools/call'')
                     (obj_get request ''params''))"
  let ?ci1 = "ci\<lparr>rng := snd (rng_next (rng ci))\<rparr>"
  let ?ps1 = "ps\<lparr>recorder := ?rc1, injector := Some ?ci1\<rparr>"
  have step1: "on_stdin_line ps now ts line (Some request)
                 = ([Sleep 500, WriteTarget (line @ newline)], ?ps1)"
    by (simp add: on_stdin_line_tools_call [OF lv inj meth tn ident] getDelay_scenario2 [OF cfg])
  have lv1: "live ?rc1 rid"
    using recordRpcRequest_tool_call(2) [OF lv tn] .
  have j1: "map row_view (journal ?rc1)
              = map row_view (journal (recorder ps)) @
                [(''rpc_request'', None, None), (''tool_call'', None, None)]"
    using recordRpcRequest_tool_call(3) [OF lv tn] .
  have p1: "map_of (pendingCalls ?rc1) (js_String i)
              = Some \<lparr>startTime = now, pc_tool = Some (JStr ''read_file'')\<rparr>"
    using recordRpcRequest_tool_call(4) [OF lv tn] .
  have chaos: "map_option (\<lambda>a. JSON_stringify (chaos_json a)) (Some (seed_only ?ci1))
                 = Some (JSON_stringify (JObj [(''seed'', JNum 1)]))"
    using sd by (simp add: seed_only_def getSeed_def chaos_json_def)
  have j2: "map row_view
              (journal (snd (recordRpcResponse ?rc1 now' ts' (Some i) (obj_get response ''result'')
                               (obj_get response ''error'') (Some (seed_only ?ci1)))))
              = map row_view (journal ?rc1) @
                [(''tool_result'', Some (now' - now),
                  Some (JSON_stringify (JObj [(''seed'', JNum 1)]))),
                 (''rpc_response'', Some (now' - now), None)]"
    using recordRpcResponse_tool(1)
            [OF lv1 p1, of now' ts' "obj_get response ''result''"
               "obj_get response ''error''" "Some (seed_only ?ci1)"]
    unfolding chaos by (simp add: truthy_opt_def)
  have step2: "on_target_line ?ps1 now' ts' line' (Some response) =
                 ([WriteStdout (line' @ newline)],
                  ?ps1\<lparr>recorder :=
                         snd (recordRpcResponse ?rc1 now' ts' (Some i) (obj_get response ''result'')
                                (obj_get response ''error'') (Some (seed_only ?ci1)))\<rparr>)"
    by (simp add: on_target_line_with_id [OF rident])
  show ?thesis
    unfolding step1 snd_conv fst_conv step2
    using j1 j2 by simp
qed

theorem C4_delay_then_seed_only_witness:
  "fst scenario2_after_request
     = [Sleep 500, WriteTarget (JSON_stringify scenario2_request @ newline)] \<and>
   fst scenario2_after_response = [WriteStdout (JSON_stringify scenario2_response @ newline)] \<and>
   map row_view (journal (recorder (snd scenario2_after_response)))
     = map row_view (journal (recorder scenario2_proxy)) @
       [(''rpc_request'', None, None),
        (''tool_call'', None, None),
        (''tool_result'', Some 600, Some (JSON_stringify (JObj [(''seed'', JNum 1)]))),
        (''rpc_response'', Some 600, None)]"
proof -
  have lv: "live (recorder scenario2_proxy) ''R''"
    by code_simp
  have inj: "injector scenario2_proxy = Some (newChaosInjector scenario2_chaos 1700000000000)"
    by (simp add: scenario2_proxy_def)
  have cfg: "config (newChaosInjector scenario2_chaos 1700000000000) = scenario2_chaos"
    by (simp add: newChaosInjector_def Let_def)
  have sd: "inj_seed (newChaosInjector scenario2_chaos 1700000000000) = 1"
    by (simp add: newChaosInjector_def scenario2_chaos_def)
  have meth: "method_of scenario2_request = Some ''tools/call''"
    by code_simp
  have tn: "tool_name_of (obj_get scenario2_request ''params'') = Some ''read_file''"
    by code_simp
  have ident: "obj_get scenario2_request ''id'' = Some (JNum 1)"
    by code_simp
  have rident: "obj_get scenario2_response ''id'' = Some (JNum 1)"
    by code_simp
  from C4_delay_then_seed_only [OF lv inj cfg sd meth tn ident rident,
         of 1000 101 "JSON_stringify scenario2_request" 1600 102
            "JSON_stringify scenario2_response"]
  show ?thesis
    by (simp add: scenario2_after_request_def scenario2_after_response_def)
qed

text \<open>
  The handlers go by truthiness, not by type: a \<open>tools/call\<close> whose \<open>name\<close> is the
  number 5 is journaled with its \<open>tool_call\<close> and \<open>tool_result\<close> rows, the name
  stored as the text SQLite makes of the number; a message whose \<open>method\<close> is
  \<open>true\<close> cannot be bound, the insert throws, and the line is forwarded with nothing
  journaled.
\<close>

lemma numeric_tool_name_example:
  "map (\<lambda>r. (event_type r, e_method r, tool_name r))
     (journal (recorder (snd (on_target_line (snd (on_stdin_line scenario2_proxy 1000 101 ''x''
        (Some (JObj [(''jsonrpc'', JStr ''2.0''), (''id'', JNum 2), (''method'', JStr ''tools/call''),
                     (''params'', JObj [(''name'', JNum 5)])])))) 1600 102 ''y''
        (Some (JObj [(''jsonrpc'', JStr ''2.0''), (''id'', JNum 2), (''result'', JObj [])]))))))
     = [(''session_start'', None, None), (''rpc_request'', Some ''tools/call'', None),
        (''tool_call'', None, Some ''5.0''), (''tool_result'', None, None),
        (''rpc_response'', None, None)]"
  by code_simp

lemma unbindable_method_example:
  "on_stdin_line scenario2_proxy 1000 101 ''x''
     (Some (JObj [(''jsonrpc'', JStr ''2.0''), (''id'', JNum 2), (''method'', JBool True)]))
     = ([WriteTarget (''x'' @ newline)], scenario2_proxy)"
  by code_simp

section \<open>Properties of the diff engine\<close>

lemma map_of_group_step:
  "map_of (group_step c acc) m =
     (if m = c_method c
      then Some ((case map_of acc m of Some xs \<Rightarrow> xs | None \<Rightarrow> []) @ [c])
      else map_of acc m)"
  by (simp add: group_step_def Let_def update_conv')

lemma map_of_fold_group_step:
  "map_of (fold group_step cs acc) m =
     (case map_of acc m of
        None \<Rightarrow> (if filter (\<lambda>c. c_method c = m) cs = [] then None
                 else Some (filter (\<lambda>c. c_method c = m) cs))
      | Some xs \<Rightarrow> Some (xs @ filter (\<lambda>c. c_method c = m) cs))"
proof (induction cs arbitrary: acc)
  case Nil
  then show ?case by (simp split: option.splits)
next
  case (Cons c cs)
  show ?case
    by (simp add: Cons.IH map_of_group_step split: option.splits)
qed

lemma distinct_fold_group_step:
  "distinct (map fst acc) \<Longrightarrow> distinct (map fst (fold group_step cs acc))"
  by (induction cs arbitrary: acc) (simp_all add: group_step_def Let_def distinct_update)

lemma map_of_groupByMethod:
  "map_of (groupByMethod cs) m =
     (if filter (\<lambda>c. c_method c = m) cs = [] then None
      else Some (filter (\<lambda>c. c_method c = m) cs))"
  by (simp add: groupByMethod_def map_of_fold_group_step)

lemma distinct_groupByMethod: "distinct (map fst (groupByMethod cs))"
  by (simp add: groupByMethod_def distinct_fold_group_step)

lemma groupByMethod_entry:
  "(m, xs) \<in> set (groupByMethod cs) \<longleftrightarrow>
     (xs = filter (\<lambda>c. c_method c = m) cs \<and> xs \<noteq> [])"
proof -
  have "(m, xs) \<in> set (groupByMethod cs) \<longleftrightarrow> map_of (groupByMethod cs) m = Some xs"
    using distinct_groupByMethod [of cs] by (metis map_of_SomeD map_of_is_SomeI)
  then show ?thesis
    by (auto simp: map_of_groupByMethod)
qed

lemma pair_step_fields:
  "added (pair_step m bs cs i r) = added r"
  "removed (pair_step m bs cs i r) = removed r"
  "changed (pair_step m bs cs i r) = changed r @ changed_at m bs cs i"
  "latencyChanges (pair_step m bs cs i r) = latencyChanges r @ latency_at m bs cs i"
  by (simp_all add: pair_step_def changed_at_def latency_at_def Let_def)

lemma fold_pair_step:
  "added (fold (pair_step m bs cs) ns r) = added r"
  "removed (fold (pair_step m bs cs) ns r) = removed r"
  "changed (fold (pair_step m bs cs) ns r) = changed r @ concat (map (changed_at m bs cs) ns)"
  "latencyChanges (fold (pair_step m bs cs) ns r)
     = latencyChanges r @ concat (map (latency_at m bs cs) ns)"
  by (induction ns arbitrary: r) (simp_all add: pair_step_fields)

lemma compare_step_fields:
  "added (compare_step cm e r) = added r @ surplus_added cm e"
  "removed (compare_step cm e r) = removed r @ surplus_removed cm e"
  "changed (compare_step cm e r) = changed r @ changed_of cm e"
  "latencyChanges (compare_step cm e r) = latencyChanges r @ latency_of cm e"
  by (simp_all add: compare_step_def surplus_added_def surplus_removed_def changed_of_def
        latency_of_def fold_pair_step Let_def split: option.splits)

lemma fold_compare_step:
  "added (fold (compare_step cm) es r) = added r @ concat (map (surplus_added cm) es)"
  "removed (fold (compare_step cm) es r) = removed r @ concat (map (surplus_removed cm) es)"
  "changed (fold (compare_step cm) es r) = changed r @ concat (map (changed_of cm) es)"
  "latencyChanges (fold (compare_step cm) es r)
     = latencyChanges r @ concat (map (latency_of cm) es)"
  by (induction es arbitrary: r) (simp_all add: compare_step_fields)

lemma fold_added_step:
  "changed (fold (added_step bm) es r) = changed r"
  "latencyChanges (fold (added_step bm) es r) = latencyChanges r"
  "removed (fold (added_step bm) es r) = removed r"
  by (induction es arbitrary: r) (simp_all add: added_step_def)

lemma fold_removed_step:
  "changed (fold (removed_step cm) es r) = changed r"
  "latencyChanges (fold (removed_step cm) es r) = latencyChanges r"
  "added (fold (removed_step cm) es r) = added r"
  by (induction es arbitrary: r) (simp_all add: removed_step_def)

lemma compareTraces_changed:
  "changed (compareTraces A B)
     = concat (map (changed_of (groupByMethod (calls B))) (groupByMethod (calls A)))"
  by (simp add: compareTraces_def Let_def fold_compare_step fold_removed_step fold_added_step)

lemma compareTraces_latencyChanges:
  "latencyChanges (compareTraces A B)
     = concat (map (latency_of (groupByMethod (calls B))) (groupByMethod (calls A)))"
  by (simp add: compareTraces_def Let_def fold_compare_step fold_removed_step fold_added_step)

lemma compareTraces_added_surplus:
  "set (concat (map (surplus_added (groupByMethod (calls B))) (groupByMethod (calls A))))
     \<subseteq> set (added (compareTraces A B))"
  by (simp add: compareTraces_def Let_def fold_compare_step)

lemma compareTraces_removed_surplus:
  "set (concat (map (surplus_removed (groupByMethod (calls B))) (groupByMethod (calls A))))
     \<subseteq> set (removed (compareTraces A B))"
  by (simp add: compareTraces_def Let_def fold_compare_step)

lemma changed_at_eq:
  "changed_at m bs cs i =
     (if stringify_opt (c_params (bs ! i)) \<noteq> stringify_opt (c_params (cs ! i))
         \<or> stringify_opt (c_result (bs ! i)) \<noteq> stringify_opt (c_result (cs ! i))
      then [\<lparr>ch_method = m, ch_index = i,
             baselineParams = c_params (bs ! i), currentParams = c_params (cs ! i),
             baselineResult = c_result (bs ! i), currentResult = c_result (cs ! i),
             paramsDiff = (if stringify_opt (c_params (bs ! i)) = stringify_opt (c_params (cs ! i))
                           then None else Some ''Parameters changed''),
             resultDiff = (if stringify_opt (c_result (bs ! i)) = stringify_opt (c_result (cs ! i))
                           then None else Some ''Result changed'')\<rparr>]
      else [])"
  by (simp add: changed_at_def pair_step_def Let_def)

lemma latency_at_eq:
  "latency_at m bs cs i =
     (if abs_exceeds_20 (latency_change (c_latencyMs (bs ! i)) (c_latencyMs (cs ! i)))
      then [\<lparr>l_method = m, l_index = i,
             baselineLatency = c_latencyMs (bs ! i), currentLatency = c_latencyMs (cs ! i),
             changePercent = latency_change (c_latencyMs (bs ! i)) (c_latencyMs (cs ! i))\<rparr>]
      else [])"
  by (simp add: latency_at_def pair_step_def Let_def)

lemma changed_of_group:
  "x \<in> set (changed_of (groupByMethod (calls B)) (m, bs)) \<longleftrightarrow>
     (calls_of m B \<noteq> [] \<and>
      (\<exists>i < min (length bs) (length (calls_of m B)). x \<in> set (changed_at m bs (calls_of m B) i)))"
  by (auto simp: changed_of_def map_of_groupByMethod calls_of_def)

lemma latency_of_group:
  "x \<in> set (latency_of (groupByMethod (calls B)) (m, bs)) \<longleftrightarrow>
     (calls_of m B \<noteq> [] \<and>
      (\<exists>i < min (length bs) (length (calls_of m B)). x \<in> set (latency_at m bs (calls_of m B) i)))"
  by (auto simp: latency_of_def map_of_groupByMethod calls_of_def)

lemma changed_mem:
  "x \<in> set (changed (compareTraces A B)) \<longleftrightarrow>
     (\<exists>m. calls_of m A \<noteq> [] \<and> calls_of m B \<noteq> [] \<and>
          (\<exists>i < min (length (calls_of m A)) (length (calls_of m B)).
              x \<in> set (changed_at m (calls_of m A) (calls_of m B) i)))"
proof -
  have "x \<in> set (changed (compareTraces A B)) \<longleftrightarrow>
        (\<exists>m bs. (m, bs) \<in> set (groupByMethod (calls A)) \<and>
                 x \<in> set (changed_of (groupByMethod (calls B)) (m, bs)))"
    by (auto simp: compareTraces_changed)
  also have "\<dots> \<longleftrightarrow> (\<exists>m. calls_of m A \<noteq> [] \<and>
                 x \<in> set (changed_of (groupByMethod (calls B)) (m, calls_of m A)))"
    by (auto simp: groupByMethod_entry calls_of_def)
  finally show ?thesis
    by (simp add: changed_of_group)
qed

lemma latency_mem:
  "x \<in> set (latencyChanges (compareTraces A B)) \<longleftrightarrow>
     (\<exists>m. calls_of m A \<noteq> [] \<and> calls_of m B \<noteq> [] \<and>
          (\<exists>i < min (length (calls_of m A)) (length (calls_of m B)).
              x \<in> set (latency_at m (calls_of m A) (calls_of m B) i)))"
proof -
  have "x \<in> set (latencyChanges (compareTraces A B)) \<longleftrightarrow>
        (\<exists>m bs. (m, bs) \<in> set (groupByMethod (calls A)) \<and>
                 x \<in> set (latency_of (groupByMethod (calls B)) (m, bs)))"
    by (auto simp: compareTraces_latencyChanges)
  also have "\<dots> \<longleftrightarrow> (\<exists>m. calls_of m A \<noteq> [] \<and>
                 x \<in> set (latency_of (groupByMethod (calls B)) (m, calls_of m A)))"
    by (auto simp: groupByMethod_entry calls_of_def)
  finally show ?thesis
    by (simp add: latency_of_group)
qed

lemma changed_at_mem:
  "x \<in> set (changed_at m bs cs i) \<Longrightarrow> ch_method x = m \<and> ch_index x = i"
  by (auto simp: changed_at_eq split: if_splits)

lemma latency_at_mem:
  "x \<in> set (latency_at m bs cs i) \<Longrightarrow> l_method x = m \<and> l_index x = i"
  by (auto simp: latency_at_eq split: if_splits)

lemma nth_in_drop:
  assumes "n \<le> j" "j < length xs"
  shows "xs ! j \<in> set (drop n xs)"
proof -
  have "j - n < length (drop n xs)" using assms by simp
  then have "drop n xs ! (j - n) \<in> set (drop n xs)" by (rule nth_mem)
  moreover have "drop n xs ! (j - n) = xs ! j" using assms by simp
  ultimately show ?thesis by simp
qed

lemma surplus_added_mem:
  assumes "calls_of m A \<noteq> []" "calls_of m B \<noteq> []"
    and "length (calls_of m A) \<le> j" "j < length (calls_of m B)"
  shows "call_diff m (calls_of m B ! j) \<in> set (added (compareTraces A B))"
proof -
  have e: "(m, calls_of m A) \<in> set (groupByMethod (calls A))"
    using assms(1) by (simp add: groupByMethod_entry calls_of_def)
  have "calls_of m B ! j \<in> set (drop (length (calls_of m A)) (calls_of m B))"
    using assms(3,4) by (rule nth_in_drop)
  then have "call_diff m (calls_of m B ! j)
               \<in> set (surplus_added (groupByMethod (calls B)) (m, calls_of m A))"
    using assms(2) by (auto simp: surplus_added_def map_of_groupByMethod calls_of_def)
  then have "call_diff m (calls_of m B ! j)
               \<in> set (concat (map (surplus_added (groupByMethod (calls B)))
                                (groupByMethod (calls A))))"
    using e by auto
  then show ?thesis
    using compareTraces_added_surplus [of B A] by blast
qed

lemma surplus_removed_mem:
  assumes "calls_of m A \<noteq> []" "calls_of m B \<noteq> []"
    and "length (calls_of m B) \<le> j" "j < length (calls_of m A)"
  shows "call_diff m (calls_of m A ! j) \<in> set (removed (compareTraces A B))"
proof -
  have e: "(m, calls_of m A) \<in> set (groupByMethod (calls A))"
    using assms(1) by (simp add: groupByMethod_entry calls_of_def)
  have "calls_of m A ! j \<in> set (drop (length (calls_of m B)) (calls_of m A))"
    using assms(3,4) by (rule nth_in_drop)
  then have "call_diff m (calls_of m A ! j)
               \<in> set (surplus_removed (groupByMethod (calls B)) (m, calls_of m A))"
    using assms(2) by (auto simp: surplus_removed_def map_of_groupByMethod calls_of_def)
  then have "call_diff m (calls_of m A ! j)
               \<in> set (concat (map (surplus_removed (groupByMethod (calls B)))
                                (groupByMethod (calls A))))"
    using e by auto
  then show ?thesis
    using compareTraces_removed_surplus [of B A] by blast
qed

text \<open>
  What \<open>compareTraces\<close> emits for a grouping key (the \<open>method\<close> field of a call)
  present on both sides, with \<open>A\<close> and \<open>B\<close> the key's calls on each side in trace
  order: a \<open>changed\<close> entry at index \<open>i\<close> below \<open>min(|A|,|B|)\<close> exactly when the
  serialized parameters differ or the serialized results differ, and the surplus calls as
  \<open>added\<close> or \<open>removed\<close> entries.
\<close>

lemma compareTraces_changed_per_call:
  assumes a: "calls_of m A \<noteq> []" and b: "calls_of m B \<noteq> []"
  shows "(\<forall>i < min (length (calls_of m A)) (length (calls_of m B)).
            (\<exists>e \<in> set (changed (compareTraces A B)). ch_method e = m \<and> ch_index e = i) \<longleftrightarrow>
            (stringify_opt (c_params (calls_of m A ! i)) \<noteq> stringify_opt (c_params (calls_of m B ! i))
             \<or> stringify_opt (c_result (calls_of m A ! i)) \<noteq> stringify_opt (c_result (calls_of m B ! i)))) \<and>
         (\<forall>e \<in> set (changed (compareTraces A B)).
            ch_method e = m \<longrightarrow> ch_index e < min (length (calls_of m A)) (length (calls_of m B))) \<and>
         (\<forall>j. length (calls_of m A) \<le> j \<and> j < length (calls_of m B) \<longrightarrow>
            call_diff m (calls_of m B ! j) \<in> set (added (compareTraces A B))) \<and>
         (\<forall>j. length (calls_of m B) \<le> j \<and> j < length (calls_of m A) \<longrightarrow>
            call_diff m (calls_of m A ! j) \<in> set (removed (compareTraces A B)))"
proof (intro conjI allI impI ballI)
  fix i assume i: "i < min (length (calls_of m A)) (length (calls_of m B))"
  let ?differs = "stringify_opt (c_params (calls_of m A ! i)) \<noteq> stringify_opt (c_params (calls_of m B ! i))
             \<or> stringify_opt (c_result (calls_of m A ! i)) \<noteq> stringify_opt (c_result (calls_of m B ! i))"
  show "(\<exists>e \<in> set (changed (compareTraces A B)). ch_method e = m \<and> ch_index e = i) \<longleftrightarrow> ?differs"
  proof
    assume "\<exists>e \<in> set (changed (compareTraces A B)). ch_method e = m \<and> ch_index e = i"
    then obtain e where e: "e \<in> set (changed (compareTraces A B))" "ch_method e = m" "ch_index e = i"
      by blast
    from e(1) obtain m' i' where
      "e \<in> set (changed_at m' (calls_of m' A) (calls_of m' B) i')"
      unfolding changed_mem by blast
    moreover from this have "ch_method e = m' \<and> ch_index e = i'" by (rule changed_at_mem)
    ultimately have "e \<in> set (changed_at m (calls_of m A) (calls_of m B) i)"
      using e(2,3) by simp
    then show ?differs
      by (auto simp: changed_at_eq split: if_splits)
  next
    assume d: ?differs
    then obtain e where e: "changed_at m (calls_of m A) (calls_of m B) i = [e]"
      by (auto simp: changed_at_eq)
    then have mem: "e \<in> set (changed_at m (calls_of m A) (calls_of m B) i)" by simp
    then have "e \<in> set (changed (compareTraces A B))"
      unfolding changed_mem using a b i by blast
    moreover have "ch_method e = m \<and> ch_index e = i" using mem by (rule changed_at_mem)
    ultimately show "\<exists>e \<in> set (changed (compareTraces A B)). ch_method e = m \<and> ch_index e = i"
      by blast
  qed
next
  fix e assume e: "e \<in> set (changed (compareTraces A B))" "ch_method e = m"
  from e(1) obtain m' i' where
    x: "i' < min (length (calls_of m' A)) (length (calls_of m' B))"
       "e \<in> set (changed_at m' (calls_of m' A) (calls_of m' B) i')"
    unfolding changed_mem by blast
  from x(2) have "ch_method e = m' \<and> ch_index e = i'" by (rule changed_at_mem)
  then show "ch_index e < min (length (calls_of m A)) (length (calls_of m B))"
    using x(1) e(2) by simp
next
  fix j assume "length (calls_of m A) \<le> j \<and> j < length (calls_of m B)"
  then show "call_diff m (calls_of m B ! j) \<in> set (added (compareTraces A B))"
    using surplus_added_mem [OF a b] by blast
next
  fix j assume "length (calls_of m B) \<le> j \<and> j < length (calls_of m A)"
  then show "call_diff m (calls_of m A ! j) \<in> set (removed (compareTraces A B))"
    using surplus_removed_mem [OF a b] by blast
qed

text \<open>
  And its latency entries: one at index \<open>i\<close> below \<open>min(|A|,|B|)\<close> exactly when the
  change from the baseline call's latency to the current call's latency, relative to the
  baseline's, exceeds 20 percent in either direction. The comparison is call by call; no
  mean is taken.
\<close>

lemma compareTraces_latency_per_call:
  assumes a: "calls_of m A \<noteq> []" and b: "calls_of m B \<noteq> []"
  shows "(\<forall>i < min (length (calls_of m A)) (length (calls_of m B)).
            (\<exists>e \<in> set (latencyChanges (compareTraces A B)). l_method e = m \<and> l_index e = i) \<longleftrightarrow>
            abs_exceeds_20 (latency_change (c_latencyMs (calls_of m A ! i))
                                           (c_latencyMs (calls_of m B ! i)))) \<and>
         (\<forall>e \<in> set (latencyChanges (compareTraces A B)).
            l_method e = m \<longrightarrow>
              l_index e < min (length (calls_of m A)) (length (calls_of m B)) \<and>
              changePercent e = latency_change (c_latencyMs (calls_of m A ! l_index e))
                                               (c_latencyMs (calls_of m B ! l_index e)))"
proof (intro conjI allI impI ballI)
  fix i assume i: "i < min (length (calls_of m A)) (length (calls_of m B))"
  let ?ex = "abs_exceeds_20 (latency_change (c_latencyMs (calls_of m A ! i))
                                           (c_latencyMs (calls_of m B ! i)))"
  show "(\<exists>e \<in> set (latencyChanges (compareTraces A B)). l_method e = m \<and> l_index e = i) \<longleftrightarrow> ?ex"
  proof
    assume "\<exists>e \<in> set (latencyChanges (compareTraces A B)). l_method e = m \<and> l_index e = i"
    then obtain e where e: "e \<in> set (latencyChanges (compareTraces A B))"
        "l_method e = m" "l_index e = i"
      by blast
    from e(1) obtain m' i' where
      "e \<in> set (latency_at m' (calls_of m' A) (calls_of m' B) i')"
      unfolding latency_mem by blast
    moreover from this have "l_method e = m' \<and> l_index e = i'" by (rule latency_at_mem)
    ultimately have "e \<in> set (latency_at m (calls_of m A) (calls_of m B) i)"
      using e(2,3) by simp
    then show ?ex
      by (auto simp: latency_at_eq split: if_splits)
  next
    assume d: ?ex
    then obtain e where e: "latency_at m (calls_of m A) (calls_of m B) i = [e]"
      by (auto simp: latency_at_eq)
    then have mem: "e \<in> set (latency_at m (calls_of m A) (calls_of m B) i)" by simp
    then have "e \<in> set (latencyChanges (compareTraces A B))"
      unfolding latency_mem using a b i by blast
    moreover have "l_method e = m \<and> l_index e = i" using mem by (rule latency_at_mem)
    ultimately show "\<exists>e \<in> set (latencyChanges (compareTraces A B)). l_method e = m \<and> l_index e = i"
      by blast
  qed
next
  fix e assume e: "e \<in> set (latencyChanges (compareTraces A B))" "l_method e = m"
  from e(1) obtain m' i' where
    x: "i' < min (length (calls_of m' A)) (length (calls_of m' B))"
       "e \<in> set (latency_at m' (calls_of m' A) (calls_of m' B) i')"
    unfolding latency_mem by blast
  from x(2) have y: "l_method e = m' \<and> l_index e = i'" by (rule latency_at_mem)
  then show "l_index e < min (length (calls_of m A)) (length (calls_of m B))"
    using x(1) e(2) by simp
  from x(2) y e(2)
  show "changePercent e = latency_change (c_latencyMs (calls_of m A ! l_index e))
                                         (c_latencyMs (calls_of m B ! l_index e))"
    by (auto simp: latency_at_eq split: if_splits)
qed

lemma compareTraces_scenario5:
  "map (\<lambda>e. (l_method e, l_index e, changePercent e))
     (latencyChanges (compareTraces scenario5_baseline scenario5_current))
     = [(''tools/call'', 0, Finite 140)] \<and>
   map (\<lambda>e. (ch_method e, ch_index e, paramsDiff e, resultDiff e))
     (changed (compareTraces scenario5_baseline scenario5_current))
     = [(''tools/call'', 0, Some ''Parameters changed'', None)]"
  by code_simp

subsection \<open>The viewer's comparison\<close>











section \<open>Properties of the stress runner\<close>

lemma stress_row_carries_outcome:
  assumes "event_row rid (StressMutation ts t m out r e l) = Some row"
  shows "carries_outcome (row\<lparr>e_id := n\<rparr>) \<and> run_id row = rid \<and>
         event_type row = ''stress_mutation''"
proof -
  have "suffix (outcome_tail (outcome_text out))
          (JSON_stringify (JObj [(''mutation'', m), (''outcome'', JStr (outcome_text out))]))"
    by (cases out) (simp_all add: suffix_def outcome_tail_def quote_def escape_char_def)
  then have "carries_outcome ((event_values rid (StressMutation ts t m out r e l))
                                \<lparr>e_method := a, tool_name := b, e_id := n\<rparr>)" for a b
    by (cases out) (simp_all add: carries_outcome_def)
  moreover have "run_id (event_values rid (StressMutation ts t m out r e l)) = rid"
    "event_type (event_values rid (StressMutation ts t m out r e l)) = ''stress_mutation''"
    by (simp_all add: blank_row_def)
  ultimately show ?thesis
    using assms by (auto simp: event_row_def split: option.splits)
qed

text \<open>
  A probe either journals one row and counts it, or throws and leaves the store as it
  was.
\<close>

lemma probe_step_inv:
  assumes "sweep_inv rid sw"
  shows "case probe_step env rid tool sw mu of
           Inl st \<Rightarrow> st = sw_store sw
         | Inr sw' \<Rightarrow> sweep_inv rid sw' \<and> runs (sw_store sw') = runs (sw_store sw)"
proof -
  let ?e = "env (probes sw)"
  let ?resp = "sendRequest (reply ?e)"
  let ?out = "classifyOutcome_any (sr_error ?resp) (sr_result ?resp) (sr_timedOut ?resp)"
  let ?ev = "StressMutation (probe_ts ?e) tool (mutation_json mu) ?out (sr_result ?resp)
               (if truthy_opt (sr_error ?resp)
                then Some (JObj [(''message'', the (sr_error ?resp))]) else None)
               (elapsed ?e)"
  have run: "list_ex (\<lambda>r. r_id r = rid) (runs (sw_store sw))"
    and cnt: "passed sw + graceful sw + crashed sw = int (length (mutation_rows (sw_store sw) rid))"
    and rows: "list_all carries_outcome (mutation_rows (sw_store sw) rid)"
    using assms by (simp_all add: sweep_inv_def)
  show ?thesis
  proof (cases "event_row rid ?ev")
    case None
    then have "probe_step env rid tool sw mu = Inl (sw_store sw)"
      by (simp add: probe_step_def Let_def insertTraceEvent_def)
    then show ?thesis by simp
  next
    case (Some row)
    let ?row = "row\<lparr>e_id := Suc (last_event_id (sw_store sw))\<rparr>"
    let ?st' = "(sw_store sw)\<lparr>trace_events := trace_events (sw_store sw) @ [?row],
                               last_event_id := Suc (last_event_id (sw_store sw))\<rparr>"
    have ins: "insertTraceEvent (sw_store sw) rid ?ev = Inr ?st'"
      using run Some by (simp add: insertTraceEvent_def Let_def)
    have co: "carries_outcome ?row" "run_id row = rid" "event_type row = ''stress_mutation''"
      using stress_row_carries_outcome [OF Some] by simp_all
    have mr: "mutation_rows ?st' rid = mutation_rows (sw_store sw) rid @ [?row]"
      using co by (simp add: mutation_rows_def)
    let ?sw' = "sw\<lparr>sw_store := ?st',
                    passed := (if ?out = Pass then passed sw + 1 else passed sw),
                    graceful := (if ?out = GracefulFail then graceful sw + 1 else graceful sw),
                    crashed := (if ?out = CrashOrHang then crashed sw + 1 else crashed sw),
                    probes := Suc (probes sw)\<rparr>"
    have step: "probe_step env rid tool sw mu = Inr ?sw'"
      unfolding probe_step_def Let_def ins by simp
    have inv: "sweep_inv rid ?sw'"
      unfolding sweep_inv_def
      using run cnt rows co mr by (cases ?out) simp_all
    show ?thesis
      unfolding step using inv by simp
  qed
qed

lemma probe_all_inv:
  assumes "sweep_inv rid sw"
  shows "case probe_all env rid tool sw ms of
           Inl st \<Rightarrow> thrown_inv rid (sw_store sw) st
         | Inr sw' \<Rightarrow> sweep_inv rid sw' \<and> runs (sw_store sw') = runs (sw_store sw)"
  using assms
proof (induction ms arbitrary: sw)
  case Nil
  then show ?case by simp
next
  case (Cons mu ms)
  show ?case
  proof (cases "probe_step env rid tool sw mu")
    case (Inl st)
    then have "st = sw_store sw"
      using probe_step_inv [OF Cons.prems, of env tool mu] by simp
    then show ?thesis
      using Inl Cons.prems by (simp add: thrown_inv_def sweep_inv_def)
  next
    case (Inr sw1)
    then have s1: "sweep_inv rid sw1" "runs (sw_store sw1) = runs (sw_store sw)"
      using probe_step_inv [OF Cons.prems, of env tool mu] by simp_all
    show ?thesis
      using Cons.IH [OF s1(1)] Inr s1(2)
      by (simp add: thrown_inv_def split: sum.splits)
  qed
qed

lemma sweep_tools_inv:
  assumes "sweep_inv rid sw"
  shows "case sweep_tools env rid sw ts of
           Inl st \<Rightarrow> thrown_inv rid (sw_store sw) st
         | Inr sw' \<Rightarrow> sweep_inv rid sw' \<and> runs (sw_store sw') = runs (sw_store sw)"
  using assms
proof (induction ts arbitrary: sw)
  case Nil
  then show ?case by simp
next
  case (Cons t ts)
  have here: "thrown_inv rid (sw_store sw) (sw_store sw)"
    using Cons.prems by (simp add: thrown_inv_def sweep_inv_def)
  show ?case
  proof (cases "t = JNull")
    case True
    then show ?thesis using here by simp
  next
    case notnull: False
    show ?thesis
    proof (cases "truthy_opt (obj_get t ''inputSchema'')")
      case False
      then show ?thesis using notnull Cons.IH [OF Cons.prems] by simp
    next
      case True
      show ?thesis
      proof (cases "generateMutations (the (obj_get t ''inputSchema''))")
        case None
        then show ?thesis using notnull True here by simp
      next
        case (Some ms)
        show ?thesis
        proof (cases "probe_all env rid (obj_get t ''name'') sw ms")
          case (Inl st)
          then show ?thesis
            using notnull True Some probe_all_inv [OF Cons.prems, of env "obj_get t ''name''" ms]
            by simp
        next
          case (Inr sw1)
          then have s1: "sweep_inv rid sw1" "runs (sw_store sw1) = runs (sw_store sw)"
            using probe_all_inv [OF Cons.prems, of env "obj_get t ''name''" ms] by simp_all
          show ?thesis
            using notnull True Some Inr Cons.IH [OF s1(1)] s1(2)
            by (simp add: thrown_inv_def split: sum.splits)
        qed
      qed
    qed
  qed
qed

lemma set_clause_stress_total [simp]:
  "stress_total (set_clause now s None None r) = stress_total r"
  by (simp add: set_clause_def Let_def stress_total_def)

lemma getRun_updateRunStatus_same:
  "getRun (updateRunStatus st now i s tc te) i = map_option (set_clause now s tc te) (getRun st i)"
  unfolding getRun_def updateRunStatus_def
  by (simp add: find_map_same_id)

lemma getRun_updateStressStats_same:
  "getRun (updateStressStats st i p g c sc) i =
     map_option (\<lambda>r. r\<lparr>stress_passed := p, stress_graceful := g, stress_crashed := c,
                        stress_score := sc, total_calls := p + g + c\<rparr>) (getRun st i)"
  unfolding getRun_def updateStressStats_def Let_def
  by (simp add: find_map_same_id)

lemma mutation_rows_updateRunStatus [simp]:
  "mutation_rows (updateRunStatus st now i s tc te) rid = mutation_rows st rid"
  by (simp add: mutation_rows_def updateRunStatus_def)

lemma mutation_rows_updateStressStats [simp]:
  "mutation_rows (updateStressStats st i p g c sc) rid = mutation_rows st rid"
  by (simp add: mutation_rows_def updateStressStats_def Let_def)

lemma getRun_cong_runs: "runs st' = runs st \<Longrightarrow> getRun st' i = getRun st i"
  by (simp add: getRun_def)

text \<open>
  The sweep's own way to a terminal state: from a run with zeroed stress counters and no
  \<open>stress_mutation\<close> row, \<open>runStressTests\<close> ends with the run completed or failed
  and each \<open>stress_mutation\<close> row of the run carrying one of the three outcomes; when
  the run ends completed, the three counters sum to the number of these rows.
\<close>

lemma runStressTests_counts:
  assumes run: "getRun st rid = Some r0"
    and fresh: "mutation_rows st rid = []"
    and zero: "stress_total r0 = 0"
  shows "\<exists>r. getRun (runStressTests st env now later aid rid toolsResult) rid = Some r \<and>
             (status r = Completed \<or> status r = Failed) \<and>
             (status r = Completed \<longrightarrow>
                stress_total r
                  = int (length (mutation_rows
                                   (runStressTests st env now later aid rid toolsResult) rid))) \<and>
             list_all carries_outcome
               (mutation_rows (runStressTests st env now later aid rid toolsResult) rid)"
proof -
  have failed: "\<exists>r. getRun (updateRunStatus st now rid Failed None None) rid = Some r \<and>
             (status r = Completed \<or> status r = Failed) \<and>
             (status r = Completed \<longrightarrow>
                stress_total r
                  = int (length (mutation_rows (updateRunStatus st now rid Failed None None) rid))) \<and>
             list_all carries_outcome (mutation_rows (updateRunStatus st now rid Failed None None) rid)"
    using run fresh zero by (simp add: getRun_updateRunStatus_same)
  show ?thesis
  proof (cases "getAgent st aid")
    case None
    then show ?thesis using failed by (simp add: runStressTests_def)
  next
    case (Some agent)
    show ?thesis
    proof (cases "parseCommand (a_target agent) = []")
      case True
      then show ?thesis using failed Some by (simp add: runStressTests_def)
    next
      case False
      let ?st1 = "updateRunStatus st now rid Running None None"
      let ?sw0 = "\<lparr>sw_store = ?st1, passed = 0, graceful = 0, crashed = 0, probes = 0\<rparr>"
      let ?swept = "case iterate (nullish_or (opt_get toolsResult ''tools'') (JArr [])) of
                      None \<Rightarrow> Inl ?st1
                    | Some toolList \<Rightarrow> sweep_tools env rid ?sw0 toolList"
      have ex: "list_ex (\<lambda>r. r_id r = rid) (runs st)"
        using run unfolding getRun_def by (intro find_hit) simp
      have inv0: "sweep_inv rid ?sw0"
        using ex fresh by (simp add: sweep_inv_def list_ex_runs_updateRunStatus)
      have g0: "getRun ?st1 rid = Some (set_clause now Running None None r0)"
        using run by (simp add: getRun_updateRunStatus_same)
      show ?thesis
      proof (cases ?swept)
        case (Inl st')
        have "thrown_inv rid ?st1 st'"
        proof (cases "iterate (nullish_or (opt_get toolsResult ''tools'') (JArr []))")
          case None
          then have "st' = ?st1" using Inl by simp
          then show ?thesis using fresh by (simp add: thrown_inv_def)
        next
          case (Some toolList)
          then show ?thesis using Inl sweep_tools_inv [OF inv0, of env toolList] by simp
        qed
        then have r: "runs st' = runs ?st1"
          and rows: "list_all carries_outcome (mutation_rows st' rid)"
          by (simp_all add: thrown_inv_def)
        have res: "runStressTests st env now later aid rid toolsResult
                     = updateRunStatus st' later rid Failed None None"
          using Some False Inl by (simp add: runStressTests_def Let_def)
        have g1: "getRun st' rid = Some (set_clause now Running None None r0)"
          using getRun_cong_runs [OF r, of rid] g0 by simp
        show ?thesis
          unfolding res using g1 rows by (simp add: getRun_updateRunStatus_same)
      next
        case (Inr sw)
        then obtain toolList where
          tl: "iterate (nullish_or (opt_get toolsResult ''tools'') (JArr [])) = Some toolList"
          and sw1: "sweep_tools env rid ?sw0 toolList = Inr sw"
          by (cases "iterate (nullish_or (opt_get toolsResult ''tools'') (JArr []))") simp_all
        have sw: "sweep_inv rid sw" "runs (sw_store sw) = runs ?st1"
          using sweep_tools_inv [OF inv0, of env toolList] sw1 by simp_all
        let ?total = "passed sw + graceful sw + crashed sw"
        let ?score = "(if ?total > 0 then score_of (passed sw + graceful sw) ?total else 0)"
        let ?st2 = "updateStressStats (sw_store sw) rid (passed sw) (graceful sw) (crashed sw) ?score"
        let ?st3 = "updateRunStatus ?st2 later rid Completed None None"
        have res: "runStressTests st env now later aid rid toolsResult = ?st3"
          using Some False Inr by (simp add: runStressTests_def Let_def)
        have g1: "getRun (sw_store sw) rid = Some (set_clause now Running None None r0)"
          using getRun_cong_runs [OF sw(2), of rid] g0 by simp
        have cnt: "?total = int (length (mutation_rows (sw_store sw) rid))"
          and rows: "list_all carries_outcome (mutation_rows (sw_store sw) rid)"
          using sw(1) by (simp_all add: sweep_inv_def)
        show ?thesis
          unfolding res
          using g1 cnt rows
          by (simp add: getRun_updateRunStatus_same getRun_updateStressStats_same stress_total_def
                set_clause_def)
      qed
    qed
  qed
qed

lemma runStressTests_counts_example:
  "map_option status (getRun stress_finished ''R1'') = Some Completed \<and>
   map_option stress_total (getRun stress_finished ''R1'') = Some 2 \<and>
   map_option stress_score (getRun stress_finished ''R1'') = Some 100 \<and>
   length (mutation_rows stress_finished ''R1'') = 2"
  by code_simp

text \<open>
  A sweep that throws after probes were journaled: the second tool's schema has a property
  that is \<open>null\<close>, \<open>generateMutations\<close> throws on it, and the run ends failed with its
  counters never written.
\<close>

lemma runStressTests_thrown_example:
  "map_option status (getRun stress_thrown ''R1'') = Some Failed \<and>
   map_option stress_total (getRun stress_thrown ''R1'') = Some 0 \<and>
   length (mutation_rows stress_thrown ''R1'') = 2"
  by code_simp

text \<open>The score is rounded from the product as the number arithmetic gives it.\<close>

lemma score_of_example: "score_of 23 40 = 57 \<and> score_of 1 3 = 33 \<and> score_of 2 2 = 100"
  by code_simp

text \<open>
  C7 at the interrupted stress run: \<open>R1\<close> is being swept (running, one
  \<open>stress_mutation\<close> row journaled) when a second stress run is created for the same
  agent. \<open>createRun\<close> cleans up first: \<open>cleanupStaleRuns\<close> marks \<open>R1\<close> completed and
  recomputes \<open>total_calls\<close> from \<open>tool_call\<close> rows, but leaves the stress counters at
  zero. \<open>R1\<close> is then at a terminal state with counters summing to 0 and one
  \<open>stress_mutation\<close> row.
\<close>

theorem C7_stale_cleanup_mismatch:
  "map_option status (getRun stress_interrupted ''R1'') = Some Completed \<and>
   map_option run_type (getRun stress_interrupted ''R1'') = Some Stress \<and>
   map_option stress_total (getRun stress_interrupted ''R1'') = Some 0 \<and>
   length (mutation_rows stress_interrupted ''R1'') = 1 \<and>
   list_all carries_outcome (mutation_rows stress_interrupted ''R1'')"
  by code_simp

theorem C7_stale_cleanup_mismatch_witness:
  "map_option stress_total (getRun stress_interrupted ''R1'')
     \<noteq> Some (int (length (mutation_rows stress_interrupted ''R1'')))"
  using C7_stale_cleanup_mismatch by auto

end
